theory Spec2Isabelle
  imports Complex_Main "HOL-Library.Sublist" "HOL-Library.List_Lexorder" "HOL-Library.Char_ord"
begin

section \<open>Rows of the hosted database\<close>

text \<open>
  The tables of \<^verbatim>\<open>supabase/migrations/20260223000000_initial_schema.sql\<close> that the
  handlers and pages below read and write. A table is the list of its rows, kept in
  insertion order. The \<^verbatim>\<open>created_at\<close> columns (filled by \<^verbatim>\<open>now()\<close>) are left out, so
  insertion order stands for the order of \<^verbatim>\<open>created_at\<close>. uuid, date and text columns
  are strings, \<^verbatim>\<open>numeric(15,2)\<close> and JavaScript numbers are reals, a nullable column is
  an option.
\<close>

record tenants_row =
  tn_id :: string
  tn_name :: string
  tn_package_tier :: string
  tn_niche :: "string option"
  tn_timezone :: "string option"
  tn_currency :: "string option"

record tenant_users_row =
  tu_id :: string
  tu_tenant_id :: string
  tu_user_id :: string
  tu_role :: string

record service_cycles_row =
  sc_id :: string
  sc_tenant_id :: string
  sc_month :: string
  sc_status :: string

record cycle_tasks_row =
  ct_id :: string
  ct_service_cycle_id :: string
  ct_tenant_id :: string
  ct_task_type :: string
  ct_assignee :: "string option"
  ct_status :: string
  ct_due_date :: "string option"

record intake_events_row =
  ie_id :: string
  ie_tenant_id :: string
  ie_source :: string
  ie_date :: "string option"
  ie_amount :: "real option"
  ie_description :: "string option"
  ie_attachment_url :: "string option"
  ie_raw_payload :: "string option"
  ie_status :: string

record transactions_row =
  tx_id :: string
  tx_tenant_id :: string
  tx_date :: string
  tx_description :: string
  tx_category_id :: string
  tx_amount :: real
  tx_entity_id :: "string option"
  tx_status :: string

record database =
  tenants :: "tenants_row list"
  tenant_users :: "tenant_users_row list"
  service_cycles :: "service_cycles_row list"
  cycle_tasks :: "cycle_tasks_row list"
  intake_events :: "intake_events_row list"
  transactions :: "transactions_row list"

section \<open>The tenant detail page: types, constants and state\<close>

record CycleTask =
  task_id :: string
  task_type :: string
  task_assignee :: "string option"
  task_status :: string
  task_due_date :: "string option"

record ServiceCycle =
  cycle_id :: string
  cycle_month :: string
  cycle_status :: string
  cycle_tasks_opt :: "CycleTask list option"

record IntakeEvent =
  ev_id :: string
  ev_source :: string
  ev_date :: "string option"
  ev_amount :: "real option"
  ev_description :: "string option"
  ev_status :: string

text \<open>
  \<^verbatim>\<open>TASK_STATUS_NEXT\<close> is an object literal. Its own keys are the three statuses. Like
  every object literal it inherits the properties of \<^verbatim>\<open>Object.prototype\<close>, so reading
  it at one of their names gives the inherited member (a function; the prototype object
  for \<^verbatim>\<open>__proto__\<close>), which is neither \<^verbatim>\<open>undefined\<close> nor \<^verbatim>\<open>null\<close>. A value read from
  the literal is therefore a string or an inherited member, named here by its key.
\<close>

definition TASK_STATUS_NEXT :: "(string \<times> string) list" where
  "TASK_STATUS_NEXT =
     [(''todo'', ''in_progress''), (''in_progress'', ''done''), (''done'', ''todo'')]"

definition Object_prototype_keys :: "string list" where
  "Object_prototype_keys =
     [''constructor'', ''hasOwnProperty'', ''isPrototypeOf'', ''propertyIsEnumerable'',
      ''toLocaleString'', ''toString'', ''valueOf'', ''__proto__'',
      ''__defineGetter__'', ''__defineSetter__'', ''__lookupGetter__'', ''__lookupSetter__'']"

datatype js_value = JString string | JInherited string

text \<open>\<^verbatim>\<open>TASK_STATUS_NEXT[key]\<close>; \<open>None\<close> is \<^verbatim>\<open>undefined\<close>.\<close>

definition TASK_STATUS_NEXT_at :: "string \<Rightarrow> js_value option" where
  "TASK_STATUS_NEXT_at key =
     (case map_of TASK_STATUS_NEXT key of
        Some n \<Rightarrow> Some (JString n)
      | None \<Rightarrow> if key \<in> set Object_prototype_keys then Some (JInherited key) else None)"

definition CYCLE_STATUS_ORDER :: "string list" where
  "CYCLE_STATUS_ORDER =
     [''collecting'', ''processing'', ''reconciling'', ''reporting'', ''delivered'']"

text \<open>\<^verbatim>\<open>Array.prototype.indexOf\<close>: the first position of the element, or -1.\<close>

fun indexOf :: "'a list \<Rightarrow> 'a \<Rightarrow> int" where
  "indexOf [] x = -1"
| "indexOf (y # ys) x =
     (if y = x then 0 else (let i = indexOf ys x in if i = -1 then -1 else i + 1))"

text \<open>\<^verbatim>\<open>cycle.tasks ?? []\<close>\<close>

definition tasks_of :: "ServiceCycle \<Rightarrow> CycleTask list" where
  "tasks_of c = (case cycle_tasks_opt c of None \<Rightarrow> [] | Some ts \<Rightarrow> ts)"

text \<open>The argument the checklist button passes: \<^verbatim>\<open>TASK_STATUS_NEXT[task.status] ?? "todo"\<close>.\<close>

definition toggle_target :: "string \<Rightarrow> js_value" where
  "toggle_target s = (case TASK_STATUS_NEXT_at s of None \<Rightarrow> JString ''todo'' | Some v \<Rightarrow> v)"

text \<open>
  The state variables of \<^verbatim>\<open>TenantDetailPage\<close>, \<^verbatim>\<open>CyclesSection\<close> and
  \<^verbatim>\<open>IntakeSection\<close> that the handlers below read or write. The KPI counters, invoices,
  alerts, deliverables and the display-only variables (\<^verbatim>\<open>expanded\<close>, \<^verbatim>\<open>filter\<close>,
  \<^verbatim>\<open>reportCycleId\<close>) are read by no handler and are left out, with the
  \<^verbatim>\<open>setKpis\<close> calls that only write them.
\<close>

record page =
  cycles :: "ServiceCycle list"
  intake :: "IntakeEvent list"
  confirmAdvance :: "string option"
  advancing :: "string option"
  prePauseStatus :: "string \<rightharpoonup> string"
  starting :: bool
  startError :: "string option"
  txForm :: "string option"
  txDate :: string
  txAmount :: string
  txDesc :: string
  txCategory :: string
  txSaving :: bool
  txError :: "string option"

section \<open>Cycle and checklist handlers of the tenant detail page\<close>

text \<open>
  In every handler \<^verbatim>\<open>supabase\<close> tells whether the browser client exists
  (\<^verbatim>\<open>createBrowserSupabaseClient\<close> returns null without its two environment variables).
  A handler runs to its end before the next one starts. Where a handler of the cycles
  section discards the result of an \<^verbatim>\<open>update\<close> call, the update is applied to the
  table; the handlers of the intake section take the failure of their status write as a
  parameter.
\<close>

text \<open>\<^verbatim>\<open>supabase.from("cycle_tasks").update({ status }).eq("id", taskId)\<close>\<close>

definition update_cycle_task_status :: "string \<Rightarrow> string \<Rightarrow> database \<Rightarrow> database" where
  "update_cycle_task_status taskId newStatus db =
     db\<lparr>cycle_tasks :=
          map (\<lambda>r. if ct_id r = taskId then r\<lparr>ct_status := newStatus\<rparr> else r) (cycle_tasks db)\<rparr>"

text \<open>\<^verbatim>\<open>supabase.from("service_cycles").update({ status }).eq("id", cycleId)\<close>\<close>

definition update_service_cycle_status :: "string \<Rightarrow> string \<Rightarrow> database \<Rightarrow> database" where
  "update_service_cycle_status cycleId newStatus db =
     db\<lparr>service_cycles :=
          map (\<lambda>r. if sc_id r = cycleId then r\<lparr>sc_status := newStatus\<rparr> else r)
              (service_cycles db)\<rparr>"

definition handleTaskToggle ::
  "bool \<Rightarrow> string \<Rightarrow> string \<Rightarrow> string \<Rightarrow> database \<times> page \<Rightarrow> database \<times> page" where
  "handleTaskToggle supabase cycleId taskId newStatus w =
     (case w of (db, pg) \<Rightarrow>
        if \<not> supabase then (db, pg)
        else
          (update_cycle_task_status taskId newStatus db,
           pg\<lparr>cycles :=
                 map (\<lambda>c. if cycle_id c = cycleId
                           then c\<lparr>cycle_tasks_opt :=
                                    Some (map (\<lambda>t. if task_id t = taskId
                                                     then t\<lparr>task_status := newStatus\<rparr> else t)
                                              (tasks_of c))\<rparr>
                           else c)
                     (cycles pg)\<rparr>))"

text \<open>
  One click on the checklist button rendered for \<^verbatim>\<open>task\<close> of \<^verbatim>\<open>cycle\<close>:
  \<^verbatim>\<open>onTaskToggled(cycle.id, task.id, TASK_STATUS_NEXT[task.status] ?? "todo")\<close>.
  When the value passed is an inherited member, \<^verbatim>\<open>handleTaskToggle\<close> returns at once
  without a client, and with a client it sends and stores a value that is not a string:
  the outcome \<open>Inl\<close>, with the member's name. What the client library and the page make
  of such a value is not followed further.
\<close>

definition toggle_click ::
  "bool \<Rightarrow> ServiceCycle \<Rightarrow> CycleTask \<Rightarrow> database \<times> page \<Rightarrow> string + database \<times> page" where
  "toggle_click supabase cycle task w =
     (case toggle_target (task_status task) of
        JString newStatus \<Rightarrow>
          Inr (handleTaskToggle supabase (cycle_id cycle) (task_id task) newStatus w)
      | JInherited name \<Rightarrow> if \<not> supabase then Inr w else Inl name)"

text \<open>
  The checklist button the page shows for a task, found by the ids of its cycle and of
  the task, and one click on it.
\<close>

definition shown_task :: "page \<Rightarrow> string \<Rightarrow> string \<Rightarrow> (ServiceCycle \<times> CycleTask) option" where
  "shown_task pg cycleId taskId =
     (case find (\<lambda>c. cycle_id c = cycleId) (cycles pg) of
        None \<Rightarrow> None
      | Some c \<Rightarrow>
          (case find (\<lambda>t. task_id t = taskId) (tasks_of c) of
             None \<Rightarrow> None
           | Some t \<Rightarrow> Some (c, t)))"

definition shown_task_status :: "page \<Rightarrow> string \<Rightarrow> string \<Rightarrow> string option" where
  "shown_task_status pg cycleId taskId =
     map_option (\<lambda>ct. task_status (snd ct)) (shown_task pg cycleId taskId)"

definition click_task ::
  "bool \<Rightarrow> string \<Rightarrow> string \<Rightarrow> database \<times> page \<Rightarrow> string + database \<times> page" where
  "click_task supabase cycleId taskId w =
     (case shown_task (snd w) cycleId taskId of
        None \<Rightarrow> Inr w
      | Some (c, t) \<Rightarrow> toggle_click supabase c t w)"

text \<open>\<^verbatim>\<open>handleCycleAdvanced\<close>: the page's copy of the cycle takes the new status.\<close>

definition handleCycleAdvanced :: "string \<Rightarrow> string \<Rightarrow> page \<Rightarrow> page" where
  "handleCycleAdvanced cycleId newStatus pg =
     pg\<lparr>cycles :=
          map (\<lambda>c. if cycle_id c = cycleId then c\<lparr>cycle_status := newStatus\<rparr> else c)
              (cycles pg)\<rparr>"

text \<open>\<^verbatim>\<open>openTasks\<close> of \<^verbatim>\<open>advanceCycle\<close>: the tasks of the cycle that are not done.\<close>

definition openTasks :: "ServiceCycle \<Rightarrow> CycleTask list" where
  "openTasks cycle = filter (\<lambda>t. task_status t \<noteq> ''done'') (tasks_of cycle)"

definition advanceCycle :: "bool \<Rightarrow> ServiceCycle \<Rightarrow> database \<times> page \<Rightarrow> database \<times> page" where
  "advanceCycle supabase cycle w =
     (case w of (db, pg) \<Rightarrow>
        let currentIdx = indexOf CYCLE_STATUS_ORDER (cycle_status cycle) in
        if currentIdx = -1 \<or> currentIdx \<ge> int (length CYCLE_STATUS_ORDER) - 1 then (db, pg)
        else
          if length (openTasks cycle) > 0 \<and> confirmAdvance pg \<noteq> Some (cycle_id cycle)
          then (db, pg\<lparr>confirmAdvance := Some (cycle_id cycle)\<rparr>)
          else if \<not> supabase then (db, pg\<lparr>confirmAdvance := None, advancing := None\<rparr>)
          else
            let nextStatus = CYCLE_STATUS_ORDER ! nat (currentIdx + 1) in
            (update_service_cycle_status (cycle_id cycle) nextStatus db,
             handleCycleAdvanced (cycle_id cycle) nextStatus
               (pg\<lparr>confirmAdvance := None, advancing := None\<rparr>)))"

text \<open>
  The stage order in the specification's words: collecting, processing, reconciling,
  reporting, delivered, each stage followed by the next; delivered, paused and any other
  status have no next stage.
\<close>

definition spec_next_stage :: "string \<Rightarrow> string option" where
  "spec_next_stage s =
     (if s = ''collecting'' then Some ''processing''
      else if s = ''processing'' then Some ''reconciling''
      else if s = ''reconciling'' then Some ''reporting''
      else if s = ''reporting'' then Some ''delivered''
      else None)"

definition pauseCycle :: "bool \<Rightarrow> ServiceCycle \<Rightarrow> database \<times> page \<Rightarrow> database \<times> page" where
  "pauseCycle supabase cycle w =
     (case w of (db, pg) \<Rightarrow>
        if \<not> supabase then (db, pg)
        else
          (update_service_cycle_status (cycle_id cycle) ''paused'' db,
           handleCycleAdvanced (cycle_id cycle) ''paused''
             (pg\<lparr>prePauseStatus := (prePauseStatus pg)(cycle_id cycle \<mapsto> cycle_status cycle)\<rparr>)))"

definition resumeCycle :: "bool \<Rightarrow> ServiceCycle \<Rightarrow> database \<times> page \<Rightarrow> database \<times> page" where
  "resumeCycle supabase cycle w =
     (case w of (db, pg) \<Rightarrow>
        if \<not> supabase then (db, pg)
        else
          let restoreStatus = (case prePauseStatus pg (cycle_id cycle) of
                                 None \<Rightarrow> ''collecting'' | Some s \<Rightarrow> s) in
          (update_service_cycle_status (cycle_id cycle) restoreStatus db,
           handleCycleAdvanced (cycle_id cycle) restoreStatus
             (pg\<lparr>prePauseStatus := (prePauseStatus pg)(cycle_id cycle := None)\<rparr>)))"

text \<open>
  The buttons \<^verbatim>\<open>CyclesSection\<close> renders for a cycle: \<^verbatim>\<open>canAdvance\<close>,
  \<^verbatim>\<open>canPause\<close> and the resume condition.
\<close>

definition canAdvance :: "ServiceCycle \<Rightarrow> bool" where
  "canAdvance cycle \<longleftrightarrow>
     cycle_status cycle \<noteq> ''paused'' \<and>
     indexOf CYCLE_STATUS_ORDER (cycle_status cycle) < int (length CYCLE_STATUS_ORDER) - 1"

definition canPause :: "ServiceCycle \<Rightarrow> bool" where
  "canPause cycle \<longleftrightarrow> cycle_status cycle \<noteq> ''paused'' \<and> cycle_status cycle \<noteq> ''delivered''"

definition canResume :: "ServiceCycle \<Rightarrow> bool" where
  "canResume cycle \<longleftrightarrow> cycle_status cycle = ''paused''"

section \<open>Loading the page\<close>

text \<open>
  The part of \<^verbatim>\<open>load\<close> that fills \<^verbatim>\<open>cycles\<close> and \<^verbatim>\<open>intake\<close>, on the path where
  the browser client exists, a user is signed in and the tenant row can be read (on the
  other paths \<^verbatim>\<open>load\<close> returns before it sets either variable). The cycles of the
  tenant come ordered by month, latest first; each takes the tenant's tasks whose
  \<^verbatim>\<open>service_cycle_id\<close> is its id, in table order (what the \<^verbatim>\<open>reduce\<close> into
  \<^verbatim>\<open>tasksByCycle\<close> followed by the lookup \<^verbatim>\<open>tasksByCycle[c.id] ?? []\<close> yields). The intake
  events of the tenant come latest first.
\<close>

definition task_of_row :: "cycle_tasks_row \<Rightarrow> CycleTask" where
  "task_of_row r =
     \<lparr>task_id = ct_id r, task_type = ct_task_type r, task_assignee = ct_assignee r,
      task_status = ct_status r, task_due_date = ct_due_date r\<rparr>"

definition enrichedCycles :: "string \<Rightarrow> database \<Rightarrow> ServiceCycle list" where
  "enrichedCycles tenantId db =
     map (\<lambda>c. \<lparr>cycle_id = sc_id c, cycle_month = sc_month c, cycle_status = sc_status c,
               cycle_tasks_opt =
                 Some (map task_of_row
                         (filter (\<lambda>t. ct_service_cycle_id t = sc_id c)
                            (filter (\<lambda>t. ct_tenant_id t = tenantId) (cycle_tasks db))))\<rparr>)
         (rev (sort_key sc_month (filter (\<lambda>c. sc_tenant_id c = tenantId) (service_cycles db))))"

definition event_of_row :: "intake_events_row \<Rightarrow> IntakeEvent" where
  "event_of_row r =
     \<lparr>ev_id = ie_id r, ev_source = ie_source r, ev_date = ie_date r, ev_amount = ie_amount r,
      ev_description = ie_description r, ev_status = ie_status r\<rparr>"

definition loadedIntake :: "string \<Rightarrow> database \<Rightarrow> IntakeEvent list" where
  "loadedIntake tenantId db =
     map event_of_row (rev (filter (\<lambda>e. ie_tenant_id e = tenantId) (intake_events db)))"

definition load :: "string \<Rightarrow> database \<Rightarrow> page \<Rightarrow> page" where
  "load tenantId db pg = pg\<lparr>cycles := enrichedCycles tenantId db, intake := loadedIntake tenantId db\<rparr>"

text \<open>The initial values of the \<^verbatim>\<open>useState\<close> calls: the state of a page just mounted.\<close>

definition initial_page :: page where
  "initial_page =
     \<lparr>cycles = [], intake = [], confirmAdvance = None, advancing = None,
      prePauseStatus = Map.empty, starting = False, startError = None,
      txForm = None, txDate = [], txAmount = [], txDesc = [], txCategory = [],
      txSaving = False, txError = None\<rparr>"

text \<open>
  Opening (or reloading) the tenant's page in a browser that has its client: fresh
  state, then \<^verbatim>\<open>load\<close>.
\<close>

definition mount :: "string \<Rightarrow> database \<Rightarrow> page" where
  "mount tenantId db = load tenantId db initial_page"

section \<open>Calls on the database\<close>

text \<open>
  A call that the caller checks for an error yields \<open>Inl\<close> of the error message or
  \<open>Inr\<close> of its result and the new database. The constraints of the schema (primary
  key, \<^verbatim>\<open>unique\<close>, \<^verbatim>\<open>references\<close>) are checked here; any other failure of the hosted
  service is a \<open>fault\<close> that the environment hands to \<open>db_call\<close>. The uuid of a new
  row (the column default \<^verbatim>\<open>uuid_generate_v4()\<close>) is handed in by the environment too.
\<close>

definition db_call ::
  "string option \<Rightarrow> (database \<Rightarrow> string + 'a \<times> database) \<Rightarrow> database \<Rightarrow> string + 'a \<times> database" where
  "db_call fault call db = (case fault of Some msg \<Rightarrow> Inl msg | None \<Rightarrow> call db)"

text \<open>
  \<^verbatim>\<open>.upsert({ tenant_id, month, status }, { onConflict: "tenant_id,month" }).select(...).single()\<close>
  on \<^verbatim>\<open>service_cycles\<close>: a row with the same tenant and month takes the given status;
  otherwise a new row is inserted.
\<close>

definition upsert_service_cycle ::
  "string \<Rightarrow> string \<Rightarrow> string \<Rightarrow> string \<Rightarrow> database \<Rightarrow> string + service_cycles_row \<times> database" where
  "upsert_service_cycle new_id tenantId month st db =
     (case find (\<lambda>r. sc_tenant_id r = tenantId \<and> sc_month r = month) (service_cycles db) of
        Some r \<Rightarrow>
          Inr (r\<lparr>sc_status := st\<rparr>,
               db\<lparr>service_cycles :=
                    map (\<lambda>x. if (sc_tenant_id x, sc_month x) = (tenantId, month)
                              then x\<lparr>sc_status := st\<rparr> else x)
                        (service_cycles db)\<rparr>)
      | None \<Rightarrow>
          if tenantId \<notin> set (map tn_id (tenants db))
          then Inl ''service_cycles: tenant_id violates foreign key constraint''
          else if new_id \<in> set (map sc_id (service_cycles db))
          then Inl ''service_cycles: duplicate key violates primary key''
          else
            let r = \<lparr>sc_id = new_id, sc_tenant_id = tenantId, sc_month = month, sc_status = st\<rparr>
            in Inr (r, db\<lparr>service_cycles := service_cycles db @ [r]\<rparr>))"

text \<open>\<^verbatim>\<open>supabase.from("cycle_tasks").insert(rows)\<close>: all rows or none.\<close>

definition insert_cycle_tasks :: "cycle_tasks_row list \<Rightarrow> database \<Rightarrow> string + unit \<times> database" where
  "insert_cycle_tasks rows db =
     (if \<not> distinct (map ct_id rows @ map ct_id (cycle_tasks db))
      then Inl ''cycle_tasks: duplicate key violates primary key''
      else if \<not> list_all (\<lambda>r. ct_service_cycle_id r \<in> set (map sc_id (service_cycles db))) rows
      then Inl ''cycle_tasks: service_cycle_id violates foreign key constraint''
      else if \<not> list_all (\<lambda>r. ct_tenant_id r \<in> set (map tn_id (tenants db))) rows
      then Inl ''cycle_tasks: tenant_id violates foreign key constraint''
      else Inr ((), db\<lparr>cycle_tasks := cycle_tasks db @ rows\<rparr>))"

definition insert_intake_event :: "intake_events_row \<Rightarrow> database \<Rightarrow> string + unit \<times> database" where
  "insert_intake_event row db =
     (if ie_id row \<in> set (map ie_id (intake_events db))
      then Inl ''intake_events: duplicate key violates primary key''
      else if ie_tenant_id row \<notin> set (map tn_id (tenants db))
      then Inl ''intake_events: tenant_id violates foreign key constraint''
      else Inr ((), db\<lparr>intake_events := intake_events db @ [row]\<rparr>))"

definition insert_transaction :: "transactions_row \<Rightarrow> database \<Rightarrow> string + unit \<times> database" where
  "insert_transaction row db =
     (if tx_id row \<in> set (map tx_id (transactions db))
      then Inl ''transactions: duplicate key violates primary key''
      else if tx_tenant_id row \<notin> set (map tn_id (tenants db))
      then Inl ''transactions: tenant_id violates foreign key constraint''
      else Inr ((), db\<lparr>transactions := transactions db @ [row]\<rparr>))"

text \<open>\<^verbatim>\<open>admin.from("tenants").insert({...}).select(...).single()\<close>\<close>

definition insert_tenant :: "tenants_row \<Rightarrow> database \<Rightarrow> string + tenants_row \<times> database" where
  "insert_tenant row db =
     (if tn_id row \<in> set (map tn_id (tenants db))
      then Inl ''tenants: duplicate key violates primary key''
      else Inr (row, db\<lparr>tenants := tenants db @ [row]\<rparr>))"

definition insert_tenant_user :: "tenant_users_row \<Rightarrow> database \<Rightarrow> string + unit \<times> database" where
  "insert_tenant_user row db =
     (if tu_id row \<in> set (map tu_id (tenant_users db))
      then Inl ''tenant_users: duplicate key violates primary key''
      else if (tu_tenant_id row, tu_user_id row)
                \<in> set (map (\<lambda>r. (tu_tenant_id r, tu_user_id r)) (tenant_users db))
      then Inl ''tenant_users: duplicate key violates unique constraint''
      else if tu_tenant_id row \<notin> set (map tn_id (tenants db))
      then Inl ''tenant_users: tenant_id violates foreign key constraint''
      else Inr ((), db\<lparr>tenant_users := tenant_users db @ [row]\<rparr>))"

text \<open>
  \<^verbatim>\<open>admin.from("tenants").delete().eq("id", tenantId)\<close>, with the
  \<^verbatim>\<open>on delete cascade\<close> of every table that references the tenant, and of
  \<^verbatim>\<open>cycle_tasks\<close> through \<^verbatim>\<open>service_cycles\<close>.
\<close>

definition delete_tenant :: "string \<Rightarrow> database \<Rightarrow> database" where
  "delete_tenant tenantId db =
     (let gone = map sc_id (filter (\<lambda>r. sc_tenant_id r = tenantId) (service_cycles db)) in
      \<lparr>tenants = filter (\<lambda>r. tn_id r \<noteq> tenantId) (tenants db),
       tenant_users = filter (\<lambda>r. tu_tenant_id r \<noteq> tenantId) (tenant_users db),
       service_cycles = filter (\<lambda>r. sc_tenant_id r \<noteq> tenantId) (service_cycles db),
       cycle_tasks =
         filter (\<lambda>r. ct_tenant_id r \<noteq> tenantId \<and> ct_service_cycle_id r \<notin> set gone)
           (cycle_tasks db),
       intake_events = filter (\<lambda>r. ie_tenant_id r \<noteq> tenantId) (intake_events db),
       transactions = filter (\<lambda>r. tx_tenant_id r \<noteq> tenantId) (transactions db)\<rparr>)"

section \<open>Route handlers\<close>

text \<open>
  A response is its HTTP status and its JSON body. \<open>request_json\<close> is what
  \<^verbatim>\<open>await request.json()\<close> does: it throws (with a message) or yields the body.
\<close>

datatype json_body =
    ErrorBody string
  | OkBody
  | OkCycle service_cycles_row
  | OkTenant tenants_row

record http_response =
  resp_status :: nat
  resp_body :: json_body

definition respond :: "nat \<Rightarrow> json_body \<Rightarrow> http_response" where
  "respond code body = \<lparr>resp_status = code, resp_body = body\<rparr>"

datatype 'a request_json = JsonThrows string | JsonValue 'a

definition is_digit :: "char \<Rightarrow> bool" where
  "is_digit c \<longleftrightarrow> c \<in> set ''0123456789''"

text \<open>The regular expression \<^verbatim>\<open>/^\d{4}-\d{2}-\d{2}$/\<close>.\<close>

definition date_shaped :: "string \<Rightarrow> bool" where
  "date_shaped s \<longleftrightarrow>
     length s = 10 \<and> list_all is_digit (take 4 s) \<and> s ! 4 = CHR ''-'' \<and>
     list_all is_digit (take 2 (drop 5 s)) \<and> s ! 7 = CHR ''-'' \<and>
     list_all is_digit (drop 8 s)"

text \<open>
  The eight default tasks, in the order of the array literal that both cycle starters
  carry.
\<close>

definition defaultTasks :: "string list" where
  "defaultTasks =
     [''Collect statements'', ''Review intake events'', ''Categorize transactions'',
      ''Reconcile to bank'', ''Run BVA and variances'', ''Generate report pack'',
      ''Send insight summary'', ''Schedule review call'']"

text \<open>
  The rows the starters insert: one per default task, todo, linked to the cycle and the
  tenant; the \<open>i\<close>-th row takes the uuid \<open>uuid (Suc i)\<close>.
\<close>

definition default_task_rows :: "(nat \<Rightarrow> string) \<Rightarrow> string \<Rightarrow> string \<Rightarrow> cycle_tasks_row list" where
  "default_task_rows uuid cycleId tenantId =
     map (\<lambda>(i, taskType).
            \<lparr>ct_id = uuid (Suc i), ct_service_cycle_id = cycleId, ct_tenant_id = tenantId,
             ct_task_type = taskType, ct_assignee = None, ct_status = ''todo'',
             ct_due_date = None\<rparr>)
         (enumerate 0 defaultTasks)"

subsection \<open>\<^verbatim>\<open>POST /api/tenant/:tenantId/cycle/start\<close>\<close>

text \<open>
  The environment of one request: \<^verbatim>\<open>process.env.DASHBOARD_ADMIN_TOKEN\<close>, whether
  \<^verbatim>\<open>createAdminSupabaseClient\<close> (not among the sources) throws, the faults of the two
  database calls and the uuids the database generates.
\<close>

record cycle_start_env =
  DASHBOARD_ADMIN_TOKEN :: "string option"
  cs_admin_client_throws :: "string option"
  cs_upsert_fault :: "string option"
  cs_insert_fault :: "string option"
  cs_uuid :: "nat \<Rightarrow> string"

text \<open>
  The request: the value of \<^verbatim>\<open>request.headers.get("x-admin-token")\<close>, the path
  parameter and the body, of which the schema reads the property \<^verbatim>\<open>month\<close> (\<open>None\<close>
  when the body has no string there).
\<close>

record cycle_start_request =
  x_admin_token :: "string option"
  cs_tenantId :: string
  cs_json :: "string option request_json"

text \<open>\<^verbatim>\<open>requireAdminToken\<close>: \<open>Inl\<close> is the thrown error's message.\<close>

definition requireAdminToken :: "cycle_start_env \<Rightarrow> cycle_start_request \<Rightarrow> string + bool" where
  "requireAdminToken env request =
     (case DASHBOARD_ADMIN_TOKEN env of
        None \<Rightarrow> Inl ''Missing DASHBOARD_ADMIN_TOKEN.''
      | Some expected \<Rightarrow>
          if expected = [] then Inl ''Missing DASHBOARD_ADMIN_TOKEN.''
          else (case x_admin_token request of
                  None \<Rightarrow> Inr False
                | Some got \<Rightarrow> Inr (got \<noteq> [] \<and> got = expected)))"

text \<open>\<^verbatim>\<open>payloadSchema.safeParse(body)\<close>\<close>

definition payloadSchema :: "string option \<Rightarrow> string option" where
  "payloadSchema body =
     (case body of None \<Rightarrow> None | Some m \<Rightarrow> if date_shaped m then Some m else None)"

definition cycle_start_POST ::
  "cycle_start_env \<Rightarrow> cycle_start_request \<Rightarrow> database \<Rightarrow> http_response \<times> database" where
  "cycle_start_POST env request db =
     (case requireAdminToken env request of
        Inl message \<Rightarrow> (respond 500 (ErrorBody message), db)
      | Inr False \<Rightarrow> (respond 401 (ErrorBody ''Unauthorized''), db)
      | Inr True \<Rightarrow>
          (case cs_json request of
             JsonThrows message \<Rightarrow> (respond 500 (ErrorBody message), db)
           | JsonValue body \<Rightarrow>
               (case payloadSchema body of
                  None \<Rightarrow> (respond 400 (ErrorBody ''Invalid payload''), db)
                | Some month \<Rightarrow>
                    (case cs_admin_client_throws env of
                       Some message \<Rightarrow> (respond 500 (ErrorBody message), db)
                     | None \<Rightarrow>
                         (case db_call (cs_upsert_fault env)
                                 (upsert_service_cycle (cs_uuid env 0) (cs_tenantId request)
                                    month ''collecting'') db of
                            Inl cycleErr \<Rightarrow> (respond 500 (ErrorBody cycleErr), db)
                          | Inr (cycle, db1) \<Rightarrow>
                              (case db_call (cs_insert_fault env)
                                      (insert_cycle_tasks
                                         (default_task_rows (cs_uuid env) (sc_id cycle)
                                            (cs_tenantId request))) db1 of
                                 Inl tasksErr \<Rightarrow> (respond 500 (ErrorBody tasksErr), db1)
                               | Inr (u, db2) \<Rightarrow> (respond 200 (OkCycle cycle), db2)))))))"

subsection \<open>\<^verbatim>\<open>POST /api/intake/google-form\<close>\<close>

text \<open>
  The body after \<^verbatim>\<open>intakeSchema.safeParse\<close>: \<open>None\<close> when the schema rejects it (the
  uuid, url and finiteness checks are the validation library's).
\<close>

record intake_payload =
  ip_tenant_id :: string
  ip_source :: string
  ip_date :: "string option"
  ip_amount :: "real option"
  ip_description :: "string option"
  ip_attachment_url :: "string option"
  ip_raw_payload :: "string option"

record intake_env =
  INTAKE_SHARED_SECRET :: "string option"
  in_admin_client_throws :: "string option"
  in_insert_fault :: "string option"
  in_uuid :: "nat \<Rightarrow> string"

record intake_request =
  x_intake_token :: "string option"
  in_json :: "intake_payload option request_json"

definition requireIntakeToken :: "intake_env \<Rightarrow> intake_request \<Rightarrow> string + bool" where
  "requireIntakeToken env request =
     (case INTAKE_SHARED_SECRET env of
        None \<Rightarrow> Inl ''Missing INTAKE_SHARED_SECRET.''
      | Some expected \<Rightarrow>
          if expected = [] then Inl ''Missing INTAKE_SHARED_SECRET.''
          else (case x_intake_token request of
                  None \<Rightarrow> Inr False
                | Some got \<Rightarrow> if got = [] \<or> got \<noteq> expected then Inr False else Inr True))"

definition intake_POST ::
  "intake_env \<Rightarrow> intake_request \<Rightarrow> database \<Rightarrow> http_response \<times> database" where
  "intake_POST env request db =
     (case requireIntakeToken env request of
        Inl message \<Rightarrow> (respond 500 (ErrorBody message), db)
      | Inr False \<Rightarrow> (respond 401 (ErrorBody ''Unauthorized''), db)
      | Inr True \<Rightarrow>
          (case in_json request of
             JsonThrows message \<Rightarrow> (respond 500 (ErrorBody message), db)
           | JsonValue parsed \<Rightarrow>
               (case parsed of
                  None \<Rightarrow> (respond 400 (ErrorBody ''Invalid payload''), db)
                | Some d \<Rightarrow>
                    (case in_admin_client_throws env of
                       Some message \<Rightarrow> (respond 500 (ErrorBody message), db)
                     | None \<Rightarrow>
                         (case db_call (in_insert_fault env)
                                 (insert_intake_event
                                    \<lparr>ie_id = in_uuid env 0, ie_tenant_id = ip_tenant_id d,
                                     ie_source = ip_source d, ie_date = ip_date d,
                                     ie_amount = ip_amount d,
                                     ie_description = ip_description d,
                                     ie_attachment_url = ip_attachment_url d,
                                     ie_raw_payload = ip_raw_payload d,
                                     ie_status = ''new''\<rparr>) db of
                            Inl error \<Rightarrow> (respond 500 (ErrorBody error), db)
                          | Inr (u, db1) \<Rightarrow> (respond 200 OkBody, db1))))))"

subsection \<open>\<^verbatim>\<open>POST /api/tenants\<close>\<close>

text \<open>
  A property of the JSON body as the schema sees it: absent, present but not a string,
  or a string. The body itself is \<open>None\<close> when it is not an object.
\<close>

datatype jfield = Absent | NotString | Str string

record tenant_body =
  tb_name :: jfield
  tb_package_tier :: jfield
  tb_niche :: jfield
  tb_timezone :: jfield
  tb_currency :: jfield

record parsed_tenant =
  pt_name :: string
  pt_package_tier :: string
  pt_niche :: string
  pt_timezone :: string
  pt_currency :: string

text \<open>\<^verbatim>\<open>z.string().max(n).optional().default("")\<close>\<close>

definition optional_default :: "nat \<Rightarrow> jfield \<Rightarrow> string option" where
  "optional_default n f =
     (case f of
        Absent \<Rightarrow> Some []
      | NotString \<Rightarrow> None
      | Str v \<Rightarrow> if length v \<le> n then Some v else None)"

text \<open>\<^verbatim>\<open>createTenantSchema.safeParse(body)\<close>\<close>

definition createTenantSchema :: "tenant_body option \<Rightarrow> parsed_tenant option" where
  "createTenantSchema body =
     (case body of
        None \<Rightarrow> None
      | Some b \<Rightarrow>
          (case (tb_name b, tb_package_tier b) of
             (Str name, Str tier) \<Rightarrow>
               if 1 \<le> length name \<and> length name \<le> 200 \<and>
                  tier \<in> set [''foundation'', ''growth'', ''cfo_lite'']
               then
                 (case (optional_default 200 (tb_niche b), optional_default 100 (tb_timezone b),
                        optional_default 10 (tb_currency b)) of
                    (Some niche, Some timezone, Some currency) \<Rightarrow>
                      Some \<lparr>pt_name = name, pt_package_tier = tier, pt_niche = niche,
                            pt_timezone = timezone, pt_currency = currency\<rparr>
                  | _ \<Rightarrow> None)
               else None
           | _ \<Rightarrow> None))"

text \<open>\<^verbatim>\<open>niche || null\<close>\<close>

definition or_null :: "string \<Rightarrow> string option" where
  "or_null v = (if v = [] then None else Some v)"

text \<open>
  The environment: the two public variables, the auth service (\<open>tn_getUser\<close> maps a
  bearer token to the id of its user, if it has one), whether the admin client can be
  built, the faults of the two inserts and of the rollback delete, and the generated
  uuids.
\<close>

record tenants_env =
  NEXT_PUBLIC_SUPABASE_URL :: "string option"
  NEXT_PUBLIC_SUPABASE_ANON_KEY :: "string option"
  tn_getUser :: "string \<Rightarrow> string option"
  tn_admin_client_throws :: "string option"
  tn_tenant_fault :: "string option"
  tn_member_fault :: "string option"
  tn_delete_fault :: "string option"
  tn_uuid :: "nat \<Rightarrow> string"

record tenants_request =
  authorization :: "string option"
  tn_json :: "tenant_body option request_json"

text \<open>\<^verbatim>\<open>!v\<close> for an environment variable: unset or empty.\<close>

definition unset :: "string option \<Rightarrow> bool" where
  "unset v \<longleftrightarrow> (case v of None \<Rightarrow> True | Some x \<Rightarrow> x = [])"

text \<open>
  The second half of the handler, from \<^verbatim>\<open>// Create tenant\<close> on: the tenant row, the
  owner membership of the signed-in user, and the rollback when the membership fails.
  The handler awaits the rollback delete and drops its result: when the delete fails
  the table keeps the tenant row, and the answer is the same 500 with the membership
  error.
\<close>

definition create_tenant_with_owner ::
  "tenants_env \<Rightarrow> string \<Rightarrow> parsed_tenant \<Rightarrow> database \<Rightarrow> http_response \<times> database" where
  "create_tenant_with_owner env user_id d db =
     (case db_call (tn_tenant_fault env)
             (insert_tenant
                \<lparr>tn_id = tn_uuid env 0, tn_name = pt_name d,
                 tn_package_tier = pt_package_tier d,
                 tn_niche = or_null (pt_niche d),
                 tn_timezone = or_null (pt_timezone d),
                 tn_currency = or_null (pt_currency d)\<rparr>) db of
        Inl tenantErr \<Rightarrow> (respond 500 (ErrorBody tenantErr), db)
      | Inr (tenant, db1) \<Rightarrow>
          (case db_call (tn_member_fault env)
                  (insert_tenant_user
                     \<lparr>tu_id = tn_uuid env 1, tu_tenant_id = tn_id tenant,
                      tu_user_id = user_id, tu_role = ''owner''\<rparr>) db1 of
             Inl memberErr \<Rightarrow>
               (respond 500 (ErrorBody memberErr),
                (case db_call (tn_delete_fault env)
                        (\<lambda>db. Inr ((), delete_tenant (tn_id tenant) db)) db1 of
                   Inl deleteErr \<Rightarrow> db1
                 | Inr (u, db1') \<Rightarrow> db1'))
           | Inr (u, db2) \<Rightarrow> (respond 200 (OkTenant tenant), db2)))"

text \<open>
  The first half: bearer token, public variables, the user behind the token, the body
  and the admin client. \<open>Inl\<close> is the response of an early return (or of the
  \<^verbatim>\<open>catch\<close> block), \<open>Inr\<close> the user's id and the parsed body.
\<close>

definition tenants_POST_checks ::
  "tenants_env \<Rightarrow> tenants_request \<Rightarrow> http_response + string \<times> parsed_tenant" where
  "tenants_POST_checks env request =
     (case authorization request of
        None \<Rightarrow> Inl (respond 401 (ErrorBody ''Unauthorized''))
      | Some authHeader \<Rightarrow>
          if \<not> prefix ''Bearer '' authHeader then Inl (respond 401 (ErrorBody ''Unauthorized''))
          else if unset (NEXT_PUBLIC_SUPABASE_URL env) \<or> unset (NEXT_PUBLIC_SUPABASE_ANON_KEY env)
          then Inl (respond 500 (ErrorBody ''Server misconfigured''))
          else
            (case tn_getUser env (drop 7 authHeader) of
               None \<Rightarrow> Inl (respond 401 (ErrorBody ''Unauthorized''))
             | Some user_id \<Rightarrow>
                 (case tn_json request of
                    JsonThrows message \<Rightarrow> Inl (respond 500 (ErrorBody message))
                  | JsonValue body \<Rightarrow>
                      (case createTenantSchema body of
                         None \<Rightarrow> Inl (respond 400 (ErrorBody ''Invalid payload''))
                       | Some d \<Rightarrow>
                           (case tn_admin_client_throws env of
                              Some message \<Rightarrow> Inl (respond 500 (ErrorBody message))
                            | None \<Rightarrow> Inr (user_id, d))))))"

definition tenants_POST ::
  "tenants_env \<Rightarrow> tenants_request \<Rightarrow> database \<Rightarrow> http_response \<times> database" where
  "tenants_POST env request db =
     (case tenants_POST_checks env request of
        Inl response \<Rightarrow> (response, db)
      | Inr (user_id, d) \<Rightarrow> create_tenant_with_owner env user_id d db)"

text \<open>At most one \<^verbatim>\<open>service_cycles\<close> row per tenant and month: the \<^verbatim>\<open>unique\<close> key.\<close>

definition cycle_keys_unique :: "database \<Rightarrow> bool" where
  "cycle_keys_unique db \<longleftrightarrow>
     distinct (map (\<lambda>r. (sc_tenant_id r, sc_month r)) (service_cycles db))"

subsection \<open>\<^verbatim>\<open>startCycle\<close> of the tenant detail page\<close>

text \<open>
  \<^verbatim>\<open>thisMonth\<close> is \<^verbatim>\<open>format(startOfMonth(new Date()), "yyyy-MM-dd")\<close>. The error of the
  upsert is checked, the result of the task insert is not; \<^verbatim>\<open>onCycleStarted\<close> is
  \<^verbatim>\<open>load\<close>. The \<^verbatim>\<open>startCycle\<close> of the home page makes the same two database calls.
\<close>

definition startCycle ::
  "bool \<Rightarrow> string \<Rightarrow> string \<Rightarrow> (nat \<Rightarrow> string) \<Rightarrow> string option \<Rightarrow> string option \<Rightarrow>
   database \<times> page \<Rightarrow> database \<times> page" where
  "startCycle supabase thisMonth tenantId uuid upsert_fault insert_fault w =
     (case w of (db, pg) \<Rightarrow>
        if \<not> supabase
        then (db, pg\<lparr>startError := Some ''No Supabase client.'', starting := False\<rparr>)
        else
          (case db_call upsert_fault
                  (upsert_service_cycle (uuid 0) tenantId thisMonth ''collecting'') db of
             Inl cycleErr \<Rightarrow> (db, pg\<lparr>startError := Some cycleErr, starting := False\<rparr>)
           | Inr (cycle, db1) \<Rightarrow>
               let db2 = (case db_call insert_fault
                                 (insert_cycle_tasks
                                    (default_task_rows uuid (sc_id cycle) tenantId)) db1 of
                            Inl e \<Rightarrow> db1
                          | Inr (u, d) \<Rightarrow> d)
               in (db2, load tenantId db2 (pg\<lparr>startError := None, starting := False\<rparr>))))"

text \<open>\<^verbatim>\<open>hasThisMonth\<close>: the start button is rendered only when this is false.\<close>

definition hasThisMonth :: "string \<Rightarrow> ServiceCycle list \<Rightarrow> bool" where
  "hasThisMonth thisMonth cs = list_ex (\<lambda>c. prefix (take 7 thisMonth) (cycle_month c)) cs"

section \<open>The intake section of the tenant detail page\<close>

text \<open>\<^verbatim>\<open>supabase.from("intake_events").update({ status }).eq("id", id)\<close>\<close>

definition update_intake_event_status :: "string \<Rightarrow> string \<Rightarrow> database \<Rightarrow> database" where
  "update_intake_event_status eventId newStatus db =
     db\<lparr>intake_events :=
          map (\<lambda>r. if ie_id r = eventId then r\<lparr>ie_status := newStatus\<rparr> else r)
              (intake_events db)\<rparr>"

text \<open>
  The handlers of the intake section await their status update and drop its result:
  the update takes effect unless it fails (\<open>update_fault\<close>), and the page goes on the
  same way in both cases.
\<close>

definition result_dropped :: "string option \<Rightarrow> (database \<Rightarrow> database) \<Rightarrow> database \<Rightarrow> database" where
  "result_dropped fault call db = (case fault of None \<Rightarrow> call db | Some e \<Rightarrow> db)"

definition handleIntakeStatusChange ::
  "bool \<Rightarrow> string option \<Rightarrow> string \<Rightarrow> string \<Rightarrow> database \<times> page \<Rightarrow> database \<times> page" where
  "handleIntakeStatusChange supabase update_fault eventId newStatus w =
     (case w of (db, pg) \<Rightarrow>
        if \<not> supabase then (db, pg)
        else
          (result_dropped update_fault (update_intake_event_status eventId newStatus) db,
           pg\<lparr>intake :=
                 map (\<lambda>e. if ev_id e = eventId then e\<lparr>ev_status := newStatus\<rparr> else e)
                     (intake pg)\<rparr>))"

definition handleTransactionCreated :: "string \<Rightarrow> page \<Rightarrow> page" where
  "handleTransactionCreated eventId pg =
     pg\<lparr>intake :=
          map (\<lambda>e. if ev_id e = eventId then e\<lparr>ev_status := ''posted''\<rparr> else e) (intake pg)\<rparr>"

text \<open>
  The two conversions of the form that the language provides: \<^verbatim>\<open>String(number)\<close> and
  \<^verbatim>\<open>parseFloat\<close> (\<open>None\<close> is \<^verbatim>\<open>NaN\<close>).
\<close>

record js_numbers =
  js_String :: "real \<Rightarrow> string"
  js_parseFloat :: "string \<Rightarrow> real option"

definition openTxForm :: "js_numbers \<Rightarrow> IntakeEvent \<Rightarrow> page \<Rightarrow> page" where
  "openTxForm js event pg =
     pg\<lparr>txForm := Some (ev_id event),
        txDate := (case ev_date event of None \<Rightarrow> [] | Some d \<Rightarrow> d),
        txAmount := (case ev_amount event of None \<Rightarrow> [] | Some a \<Rightarrow> js_String js a),
        txDesc := (case ev_description event of None \<Rightarrow> [] | Some d \<Rightarrow> d),
        txCategory := [],
        txError := None\<rparr>"

text \<open>\<^verbatim>\<open>String.prototype.trim\<close>, on the white space of ASCII.\<close>

definition is_space :: "char \<Rightarrow> bool" where
  "is_space c \<longleftrightarrow> c \<in> set [CHR '' '', CHR 0x09, CHR 0x0A, CHR 0x0B, CHR 0x0C, CHR 0x0D]"

definition trim :: "string \<Rightarrow> string" where
  "trim s = rev (dropWhile is_space (rev (dropWhile is_space s)))"

text \<open>
  \<^verbatim>\<open>submitTransaction\<close>: \<open>new_id\<close> is the uuid of the transaction row, \<open>fault\<close> a
  failure of its insert and \<open>update_fault\<close> a failure of the status update, whose result
  is dropped.
\<close>

definition submitTransaction ::
  "bool \<Rightarrow> string \<Rightarrow> js_numbers \<Rightarrow> string \<Rightarrow> string option \<Rightarrow> string option \<Rightarrow> string \<Rightarrow>
   database \<times> page \<Rightarrow> database \<times> page" where
  "submitTransaction supabase tenantId js new_id fault update_fault eventId w =
     (case w of (db, pg) \<Rightarrow>
        if trim (txCategory pg) = [] then (db, pg\<lparr>txError := Some ''Category ID is required.''\<rparr>)
        else if txDate pg = [] then (db, pg\<lparr>txError := Some ''Date is required.''\<rparr>)
        else if \<not> supabase then (db, pg\<lparr>txSaving := False, txError := None\<rparr>)
        else
          (case db_call fault
                  (insert_transaction
                     \<lparr>tx_id = new_id, tx_tenant_id = tenantId, tx_date = txDate pg,
                      tx_description =
                        (if trim (txDesc pg) = [] then ''Intake event'' else trim (txDesc pg)),
                      tx_category_id = trim (txCategory pg),
                      tx_amount = (case js_parseFloat js (txAmount pg) of
                                     None \<Rightarrow> 0 | Some v \<Rightarrow> v),
                      tx_entity_id = None, tx_status = ''Received''\<rparr>) db of
             Inl txErr \<Rightarrow> (db, pg\<lparr>txError := Some txErr, txSaving := False\<rparr>)
           | Inr (u, db1) \<Rightarrow>
               (result_dropped update_fault (update_intake_event_status eventId ''posted'') db1,
                handleTransactionCreated eventId
                  (pg\<lparr>txError := None, txSaving := False, txForm := None\<rparr>))))"

text \<open>
  What can happen to the intake events of a tenant: the clicks and edits the intake
  section offers, a reload of the page's data, and a form submission arriving at the
  ingestion route. The two clicks that write a status carry the failure of that write,
  and posting carries the uuid and the failure of the transaction insert before it.
\<close>

datatype intake_action =
    MarkCategorized IntakeEvent "string option"
  | CreateTransaction IntakeEvent
  | Cancel IntakeEvent
  | PostTransaction IntakeEvent string "string option" "string option"
  | SetTxDate string
  | SetTxAmount string
  | SetTxDesc string
  | SetTxCategory string
  | Reload
  | FormSubmission intake_env intake_request

text \<open>
  The conditions under which the action cell and the form row render their buttons
  for an event of the list.
\<close>

definition offered :: "page \<Rightarrow> intake_action \<Rightarrow> bool" where
  "offered pg a =
     (case a of
        MarkCategorized event update_fault \<Rightarrow>
          event \<in> set (intake pg) \<and> ev_status event = ''new''
      | CreateTransaction event \<Rightarrow>
          event \<in> set (intake pg) \<and> ev_status event = ''categorized'' \<and>
          txForm pg \<noteq> Some (ev_id event)
      | Cancel event \<Rightarrow>
          event \<in> set (intake pg) \<and> ev_status event = ''categorized'' \<and>
          txForm pg = Some (ev_id event)
      | PostTransaction event new_id fault update_fault \<Rightarrow>
          event \<in> set (intake pg) \<and> txForm pg = Some (ev_id event) \<and> \<not> txSaving pg
      | _ \<Rightarrow> True)"

definition intake_step ::
  "bool \<Rightarrow> string \<Rightarrow> js_numbers \<Rightarrow> intake_action \<Rightarrow> database \<times> page \<Rightarrow> database \<times> page" where
  "intake_step supabase tenantId js a w =
     (case a of
        MarkCategorized event update_fault \<Rightarrow>
          handleIntakeStatusChange supabase update_fault (ev_id event) ''categorized'' w
      | CreateTransaction event \<Rightarrow> (fst w, openTxForm js event (snd w))
      | Cancel event \<Rightarrow> (fst w, (snd w)\<lparr>txForm := None\<rparr>)
      | PostTransaction event new_id fault update_fault \<Rightarrow>
          submitTransaction supabase tenantId js new_id fault update_fault (ev_id event) w
      | SetTxDate v \<Rightarrow> (fst w, (snd w)\<lparr>txDate := v\<rparr>)
      | SetTxAmount v \<Rightarrow> (fst w, (snd w)\<lparr>txAmount := v\<rparr>)
      | SetTxDesc v \<Rightarrow> (fst w, (snd w)\<lparr>txDesc := v\<rparr>)
      | SetTxCategory v \<Rightarrow> (fst w, (snd w)\<lparr>txCategory := v\<rparr>)
      | Reload \<Rightarrow> (fst w, if supabase then load tenantId (fst w) (snd w) else snd w)
      | FormSubmission env request \<Rightarrow> (snd (intake_POST env request (fst w)), snd w))"

text \<open>The status write of the action, if it has one, does not fail.\<close>

definition updates_applied :: "intake_action \<Rightarrow> bool" where
  "updates_applied a =
     (case a of
        MarkCategorized event update_fault \<Rightarrow> update_fault = None
      | PostTransaction event new_id fault update_fault \<Rightarrow> update_fault = None
      | _ \<Rightarrow> True)"

text \<open>A sequence of actions, each offered in the state it meets; \<open>None\<close> otherwise.\<close>

fun intake_run ::
  "bool \<Rightarrow> string \<Rightarrow> js_numbers \<Rightarrow> intake_action list \<Rightarrow> database \<times> page \<Rightarrow>
   (database \<times> page) option" where
  "intake_run supabase tenantId js [] w = Some w"
| "intake_run supabase tenantId js (a # as) w =
     (if offered (snd w) a then intake_run supabase tenantId js as (intake_step supabase tenantId js a w)
      else None)"

text \<open>
  The page agrees with the table: ids are a primary key, every event the page lists has
  its row with the status the page shows, and an open transaction form belongs to a row
  that is categorized.
\<close>

definition intake_coherent :: "database \<times> page \<Rightarrow> bool" where
  "intake_coherent w \<longleftrightarrow>
     distinct (map ie_id (intake_events (fst w))) \<and>
     list_all (\<lambda>e. list_ex (\<lambda>r. ie_id r = ev_id e \<and> ie_status r = ev_status e)
                       (intake_events (fst w)))
              (intake (snd w)) \<and>
     (case txForm (snd w) of
        None \<Rightarrow> True
      | Some i \<Rightarrow> list_ex (\<lambda>r. ie_id r = i \<and> ie_status r = ''categorized'')
                    (intake_events (fst w)))"

text \<open>
  The flow in the specification's words: new, then categorized, then posted. One move
  is a step to the next status; \<open>status_le\<close> is any number of such steps.
\<close>

definition forward_move :: "string \<Rightarrow> string \<Rightarrow> bool" where
  "forward_move s s' \<longleftrightarrow>
     (s = ''new'' \<and> s' = ''categorized'') \<or> (s = ''categorized'' \<and> s' = ''posted'')"

definition status_le :: "string \<Rightarrow> string \<Rightarrow> bool" where
  "status_le s s' \<longleftrightarrow>
     s' = s \<or> (s = ''new'' \<and> s' = ''categorized'') \<or> (s = ''new'' \<and> s' = ''posted'') \<or>
     (s = ''categorized'' \<and> s' = ''posted'')"

text \<open>
  How a table of intake events may differ from an earlier one under a relation on
  statuses: the earlier rows are all there, in place, changed in their status at most
  and then only along the relation; the rows after them are new arrivals with status
  new.
\<close>

definition rows_moved ::
  "(string \<Rightarrow> string \<Rightarrow> bool) \<Rightarrow> intake_events_row list \<Rightarrow> intake_events_row list \<Rightarrow> bool" where
  "rows_moved rel old new \<longleftrightarrow>
     length old \<le> length new \<and>
     list_all2 (\<lambda>r r'. r' = r \<or> (r' = r\<lparr>ie_status := ie_status r'\<rparr> \<and>
                                    rel (ie_status r) (ie_status r')))
       old (take (length old) new) \<and>
     list_all (\<lambda>r. ie_status r = ''new'') (drop (length old) new)"

text \<open>
  The same over any stretch of time: the earlier rows are in place and have not moved
  back, and the rows that arrived since are in one of the three statuses.
\<close>

definition rows_never_back :: "intake_events_row list \<Rightarrow> intake_events_row list \<Rightarrow> bool" where
  "rows_never_back old new \<longleftrightarrow>
     length old \<le> length new \<and>
     list_all2 (\<lambda>r r'. r' = r\<lparr>ie_status := ie_status r'\<rparr> \<and>
                        status_le (ie_status r) (ie_status r'))
       old (take (length old) new) \<and>
     list_all (\<lambda>r. status_le ''new'' (ie_status r)) (drop (length old) new)"

section \<open>The transactions page: CSV export\<close>

record Transaction =
  t_id :: string
  t_date :: string
  t_description :: string
  t_category_id :: string
  t_amount :: real
  t_entity_id :: "string option"
  t_status :: string
  t_created_at :: string

record Category =
  category_id :: string
  category_name :: string
  category_type :: string

text \<open>
  \<^verbatim>\<open>Object.fromEntries(categories.map((c) => [c.category_id, c]))\<close>: of two categories
  with one id the later one stays.
\<close>

definition catMap :: "Category list \<Rightarrow> string \<rightharpoonup> Category" where
  "catMap categories = map_of (rev (map (\<lambda>c. (category_id c, c)) categories))"

text \<open>\<^verbatim>\<open>String.prototype.includes\<close>\<close>

definition includes_str :: "string \<Rightarrow> string \<Rightarrow> bool" where
  "includes_str s q = list_ex (prefix q) (suffixes s)"

text \<open>
  \<^verbatim>\<open>filtered\<close>: the transactions that pass the status filter and the search box.
  \<^verbatim>\<open>toLowerCase\<close> is the string method.
\<close>

definition filtered ::
  "(string \<Rightarrow> string) \<Rightarrow> string \<Rightarrow> string \<Rightarrow> Category list \<Rightarrow> Transaction list \<Rightarrow> Transaction list" where
  "filtered toLowerCase statusFilter search categories txs =
     filter (\<lambda>t.
        let matchesStatus = (statusFilter = ''all'' \<or> t_status t = statusFilter);
            q = toLowerCase search;
            matchesSearch =
              (q = [] \<or> includes_str (toLowerCase (t_description t)) q \<or>
               includes_str (toLowerCase (t_category_id t)) q \<or>
               includes_str (toLowerCase (case catMap categories (t_category_id t) of
                                        None \<Rightarrow> [] | Some c \<Rightarrow> category_name c)) q)
        in matchesStatus \<and> matchesSearch) txs"

text \<open>\<^verbatim>\<open>Array.prototype.join\<close> on an array of strings.\<close>

fun join :: "string \<Rightarrow> string list \<Rightarrow> string" where
  "join sep [] = []"
| "join sep [x] = x"
| "join sep (x # y # ys) = x @ sep @ join sep (y # ys)"

text \<open>\<^verbatim>\<open>s.replace(/"/g, '""')\<close>: every double quote (character 0x22) is doubled.\<close>

definition double_quotes :: "string \<Rightarrow> string" where
  "double_quotes s = concat (map (\<lambda>c. if c = CHR 0x22 then [CHR 0x22, CHR 0x22] else [c]) s)"

definition csv_header :: "string list" where
  "csv_header = [''Date'', ''Description'', ''Category'', ''Amount'', ''Entity'', ''Status'']"

text \<open>The row pushed for one transaction; \<open>String\<close> is \<^verbatim>\<open>String(t.amount)\<close>.\<close>

definition csv_row :: "(real \<Rightarrow> string) \<Rightarrow> Category list \<Rightarrow> Transaction \<Rightarrow> string list" where
  "csv_row String categories t =
     [t_date t,
      [CHR 0x22] @ double_quotes (t_description t) @ [CHR 0x22],
      (case catMap categories (t_category_id t) of
         None \<Rightarrow> t_category_id t | Some c \<Rightarrow> category_name c),
      String (t_amount t),
      (case t_entity_id t of None \<Rightarrow> [] | Some e \<Rightarrow> e),
      t_status t]"

definition exportCSV_rows :: "(real \<Rightarrow> string) \<Rightarrow> Category list \<Rightarrow> Transaction list \<Rightarrow> string list list" where
  "exportCSV_rows String categories shown = csv_header # map (csv_row String categories) shown"

text \<open>The text handed to the download: rows joined by commas, lines by a line feed.\<close>

definition exportCSV :: "(real \<Rightarrow> string) \<Rightarrow> Category list \<Rightarrow> Transaction list \<Rightarrow> string" where
  "exportCSV String categories shown =
     join [CHR 0x0A] (map (join '','') (exportCSV_rows String categories shown))"

text \<open>Reading a doubled field back: a pair of double quotes stands for one.\<close>

fun undouble_quotes :: "string \<Rightarrow> string" where
  "undouble_quotes (a # b # s) =
     (if a = CHR 0x22 \<and> b = CHR 0x22 then a # undouble_quotes s else a # undouble_quotes (b # s))"
| "undouble_quotes s = s"

section \<open>Row-level security\<close>

text \<open>
  The policies of the migration. A policy names its table and command and carries a
  \<^verbatim>\<open>using\<close> expression, a \<^verbatim>\<open>with check\<close> expression, or both; the two expressions that
  occur are \<^verbatim>\<open>is_tenant_member(column)\<close> and \<^verbatim>\<open>column = auth.uid()\<close>. A row is read
  through the value of its columns (\<open>None\<close> is \<^verbatim>\<open>null\<close>).
\<close>

datatype command = SELECT | INSERT | UPDATE | DELETE

datatype policy_expr = is_member_of string | equals_auth_uid string

record policy =
  pol_name :: string
  pol_table :: string
  pol_command :: command
  pol_using :: "policy_expr option"
  pol_with_check :: "policy_expr option"

type_synonym row = "string \<Rightarrow> string option"

text \<open>
  \<^verbatim>\<open>is_tenant_member(p_tenant_id)\<close>: some \<^verbatim>\<open>tenant_users\<close> row has this tenant and the
  current user. A comparison with \<^verbatim>\<open>null\<close> selects no row.
\<close>

definition is_tenant_member :: "tenant_users_row list \<Rightarrow> string option \<Rightarrow> string option \<Rightarrow> bool" where
  "is_tenant_member tus auth_uid p_tenant_id =
     (case (auth_uid, p_tenant_id) of
        (Some uid, Some t) \<Rightarrow> list_ex (\<lambda>tu. tu_tenant_id tu = t \<and> tu_user_id tu = uid) tus
      | _ \<Rightarrow> False)"

definition policy_holds :: "tenant_users_row list \<Rightarrow> string option \<Rightarrow> row \<Rightarrow> policy_expr \<Rightarrow> bool" where
  "policy_holds tus auth_uid r e =
     (case e of
        is_member_of col \<Rightarrow> is_tenant_member tus auth_uid (r col)
      | equals_auth_uid col \<Rightarrow>
          (case (r col, auth_uid) of (Some v, Some uid) \<Rightarrow> v = uid | _ \<Rightarrow> False))"

text \<open>\<^verbatim>\<open>drop policy if exists name on table\<close> and \<^verbatim>\<open>create policy\<close>.\<close>

definition drop_policy :: "string \<Rightarrow> string \<Rightarrow> policy list \<Rightarrow> policy list" where
  "drop_policy name tbl ps = filter (\<lambda>p. \<not> (pol_name p = name \<and> pol_table p = tbl)) ps"

definition create_policy :: "policy \<Rightarrow> policy list \<Rightarrow> policy list" where
  "create_policy p ps = ps @ [p]"

text \<open>The four policies \<^verbatim>\<open>create_member_policies(p_table, p_tenant_col)\<close> creates.\<close>

definition member_policies :: "string \<Rightarrow> string \<Rightarrow> policy list" where
  "member_policies p_table p_tenant_col =
     [\<lparr>pol_name = p_table @ ''_select_member'', pol_table = p_table, pol_command = SELECT,
       pol_using = Some (is_member_of p_tenant_col), pol_with_check = None\<rparr>,
      \<lparr>pol_name = p_table @ ''_insert_member'', pol_table = p_table, pol_command = INSERT,
       pol_using = None, pol_with_check = Some (is_member_of p_tenant_col)\<rparr>,
      \<lparr>pol_name = p_table @ ''_update_member'', pol_table = p_table, pol_command = UPDATE,
       pol_using = Some (is_member_of p_tenant_col),
       pol_with_check = Some (is_member_of p_tenant_col)\<rparr>,
      \<lparr>pol_name = p_table @ ''_delete_member'', pol_table = p_table, pol_command = DELETE,
       pol_using = Some (is_member_of p_tenant_col), pol_with_check = None\<rparr>]"

text \<open>\<^verbatim>\<open>create_member_policies\<close>: each policy is dropped if it exists, then created.\<close>

definition create_member_policies :: "string \<Rightarrow> string \<Rightarrow> policy list \<Rightarrow> policy list" where
  "create_member_policies p_table p_tenant_col ps =
     fold (\<lambda>p acc. create_policy p (drop_policy (pol_name p) p_table acc))
       (member_policies p_table p_tenant_col) ps"

text \<open>The tables the migration enables row-level security on.\<close>

definition rls_enabled_tables :: "string list" where
  "rls_enabled_tables =
     [''tenants'', ''tenant_users'', ''entities'', ''categories'', ''accounts'',
      ''transactions'', ''budgets'', ''invoices'', ''leads'', ''opportunities'', ''projects'',
      ''tasks'', ''service_engagements'', ''service_cycles'', ''cycle_tasks'',
      ''deliverables'', ''intake_events'', ''missing_data_alerts'']"

text \<open>
  The tables under \<^verbatim>\<open>-- Apply policies to each tenant-scoped table\<close>, in that order.
\<close>

definition tenant_scoped_tables :: "string list" where
  "tenant_scoped_tables =
     [''entities'', ''categories'', ''accounts'', ''transactions'', ''budgets'', ''invoices'',
      ''leads'', ''opportunities'', ''projects'', ''tasks'', ''service_engagements'',
      ''service_cycles'', ''cycle_tasks'', ''deliverables'', ''intake_events'',
      ''missing_data_alerts'']"

text \<open>
  The policies in force after the migration has run on a database without policies:
  the two policies on \<^verbatim>\<open>tenants\<close> and \<^verbatim>\<open>tenant_users\<close>, then the member policies of
  each tenant-scoped table on the column \<^verbatim>\<open>tenant_id\<close>.
\<close>

definition schema_policies :: "policy list" where
  "schema_policies =
     fold (\<lambda>t. create_member_policies t ''tenant_id'') tenant_scoped_tables
       (create_policy
          \<lparr>pol_name = ''tenant_users_select_self'', pol_table = ''tenant_users'',
           pol_command = SELECT, pol_using = Some (equals_auth_uid ''user_id''),
           pol_with_check = None\<rparr>
          (drop_policy ''tenant_users_select_self'' ''tenant_users''
             (create_policy
                \<lparr>pol_name = ''tenants_select_member'', pol_table = ''tenants'',
                 pol_command = SELECT, pol_using = Some (is_member_of ''id''),
                 pol_with_check = None\<rparr>
                (drop_policy ''tenants_select_member'' ''tenants'' []))))"

text \<open>
  What the database decides for a user who is not the table's owner and does not bypass
  row-level security: on a table with row-level security, a command on a row is let
  through when a policy of the table for that command holds: its \<^verbatim>\<open>using\<close> expression
  on the existing row (select, update, delete) and its \<^verbatim>\<open>with check\<close> expression on the
  new row (insert, update; an update policy without one checks its \<^verbatim>\<open>using\<close>
  expression). Without any policy nothing is let through.
\<close>

definition using_holds :: "tenant_users_row list \<Rightarrow> string option \<Rightarrow> row \<Rightarrow> policy \<Rightarrow> bool" where
  "using_holds tus auth_uid r p =
     (case pol_using p of None \<Rightarrow> True | Some e \<Rightarrow> policy_holds tus auth_uid r e)"

definition check_holds :: "tenant_users_row list \<Rightarrow> string option \<Rightarrow> row \<Rightarrow> policy \<Rightarrow> bool" where
  "check_holds tus auth_uid r p =
     (case pol_with_check p of
        None \<Rightarrow> using_holds tus auth_uid r p
      | Some e \<Rightarrow> policy_holds tus auth_uid r e)"

definition rls_permits ::
  "policy list \<Rightarrow> tenant_users_row list \<Rightarrow> string option \<Rightarrow> string \<Rightarrow> command \<Rightarrow> row \<Rightarrow> row \<Rightarrow> bool" where
  "rls_permits ps tus auth_uid tbl cmd old new =
     (if tbl \<notin> set rls_enabled_tables then True
      else
        let applicable = filter (\<lambda>p. pol_command p = cmd) (filter (\<lambda>p. pol_table p = tbl) ps) in
        (case cmd of
           SELECT \<Rightarrow> list_ex (using_holds tus auth_uid old) applicable
         | INSERT \<Rightarrow> list_ex (check_holds tus auth_uid new) applicable
         | UPDATE \<Rightarrow> list_ex (using_holds tus auth_uid old) applicable \<and>
                     list_ex (check_holds tus auth_uid new) applicable
         | DELETE \<Rightarrow> list_ex (using_holds tus auth_uid old) applicable))"

text \<open>
  The claim's words: a \<^verbatim>\<open>tenant_users\<close> row links the user to the tenant of the row.
\<close>

definition membership_links :: "tenant_users_row list \<Rightarrow> string option \<Rightarrow> row \<Rightarrow> bool" where
  "membership_links tus auth_uid r \<longleftrightarrow>
     (\<exists>tu\<in>set tus. Some (tu_tenant_id tu) = r ''tenant_id'' \<and> Some (tu_user_id tu) = auth_uid)"

section \<open>A small database and page used to run the handlers\<close>

definition demo_tenant :: tenants_row where
  "demo_tenant =
     \<lparr>tn_id = ''tn1'', tn_name = ''Demo Salon'', tn_package_tier = ''growth'',
      tn_niche = Some ''beauty'', tn_timezone = None, tn_currency = Some ''USD''\<rparr>"

definition demo_cycle_row :: "string \<Rightarrow> service_cycles_row" where
  "demo_cycle_row st =
     \<lparr>sc_id = ''c1'', sc_tenant_id = ''tn1'', sc_month = ''2026-02-01'', sc_status = st\<rparr>"

definition demo_task_row :: "string \<Rightarrow> cycle_tasks_row" where
  "demo_task_row st =
     \<lparr>ct_id = ''k1'', ct_service_cycle_id = ''c1'', ct_tenant_id = ''tn1'',
      ct_task_type = ''Collect statements'', ct_assignee = None, ct_status = st,
      ct_due_date = None\<rparr>"

definition demo_db :: "string \<Rightarrow> string \<Rightarrow> database" where
  "demo_db cycle_st task_st =
     \<lparr>tenants = [demo_tenant], tenant_users = [],
      service_cycles = [demo_cycle_row cycle_st], cycle_tasks = [demo_task_row task_st],
      intake_events = [], transactions = []\<rparr>"

definition demo_task :: "string \<Rightarrow> CycleTask" where
  "demo_task st =
     \<lparr>task_id = ''k1'', task_type = ''Collect statements'', task_assignee = None,
      task_status = st, task_due_date = None\<rparr>"

definition demo_cycle :: "string \<Rightarrow> string \<Rightarrow> ServiceCycle" where
  "demo_cycle cycle_st task_st =
     \<lparr>cycle_id = ''c1'', cycle_month = ''2026-02-01'', cycle_status = cycle_st,
      cycle_tasks_opt = Some [demo_task task_st]\<rparr>"

definition demo_page :: "string \<Rightarrow> string \<Rightarrow> page" where
  "demo_page cycle_st task_st = initial_page\<lparr>cycles := [demo_cycle cycle_st task_st]\<rparr>"

text \<open>The uuids handed out in the runs below, and a request that starts the March cycle.\<close>

definition demo_uuid :: "nat \<Rightarrow> string" where
  "demo_uuid i = replicate (Suc i) (CHR ''u'')"

definition demo_start_env :: cycle_start_env where
  "demo_start_env =
     \<lparr>DASHBOARD_ADMIN_TOKEN = Some ''s3cret'', cs_admin_client_throws = None,
      cs_upsert_fault = None, cs_insert_fault = None, cs_uuid = demo_uuid\<rparr>"

definition demo_start_request :: "string option \<Rightarrow> string \<Rightarrow> cycle_start_request" where
  "demo_start_request token month =
     \<lparr>x_admin_token = token, cs_tenantId = ''tn1'', cs_json = JsonValue (Some month)\<rparr>"

text \<open>An intake request as the form script sends it, and the environment it meets.\<close>

definition demo_intake_env :: "string option \<Rightarrow> intake_env" where
  "demo_intake_env secret =
     \<lparr>INTAKE_SHARED_SECRET = secret, in_admin_client_throws = None, in_insert_fault = None,
      in_uuid = demo_uuid\<rparr>"

definition demo_intake_request :: "string option \<Rightarrow> intake_request" where
  "demo_intake_request token =
     \<lparr>x_intake_token = token,
      in_json = JsonValue (Some \<lparr>ip_tenant_id = ''tn1'', ip_source = ''form_in'',
                                 ip_date = Some ''2026-02-03'', ip_amount = Some 120,
                                 ip_description = Some ''Classic lash set'',
                                 ip_attachment_url = None, ip_raw_payload = None\<rparr>)\<rparr>"

text \<open>A signed-in user asks for a new tenant.\<close>

definition demo_tenants_env :: "string option \<Rightarrow> string option \<Rightarrow> tenants_env" where
  "demo_tenants_env member_fault delete_fault =
     \<lparr>NEXT_PUBLIC_SUPABASE_URL = Some ''https://demo.supabase.co'',
      NEXT_PUBLIC_SUPABASE_ANON_KEY = Some ''anon'',
      tn_getUser = (\<lambda>token. if token = ''jwt-of-ann'' then Some ''ann'' else None),
      tn_admin_client_throws = None, tn_tenant_fault = None,
      tn_member_fault = member_fault, tn_delete_fault = delete_fault,
      tn_uuid = demo_uuid\<rparr>"

definition demo_tenants_request :: tenants_request where
  "demo_tenants_request =
     \<lparr>authorization = Some ''Bearer jwt-of-ann'',
      tn_json = JsonValue (Some \<lparr>tb_name = Str ''Corner Bakery'', tb_package_tier = Str ''foundation'',
                                  tb_niche = Absent, tb_timezone = Absent,
                                  tb_currency = Str ''USD''\<rparr>)\<rparr>"

text \<open>Two users, each the member of one tenant, and a row of the first tenant.\<close>

definition demo_members :: "tenant_users_row list" where
  "demo_members =
     [\<lparr>tu_id = ''m1'', tu_tenant_id = ''tn1'', tu_user_id = ''ann'', tu_role = ''owner''\<rparr>,
      \<lparr>tu_id = ''m2'', tu_tenant_id = ''tn2'', tu_user_id = ''bob'', tu_role = ''bookkeeper''\<rparr>]"

definition demo_row :: "string \<Rightarrow> row" where
  "demo_row tenant = (\<lambda>col. if col = ''tenant_id'' then Some tenant else None)"

text \<open>Two transactions on the transactions page, one with a known category.\<close>

definition demo_categories :: "Category list" where
  "demo_categories =
     [\<lparr>category_id = ''3100'', category_name = ''Facilities'', category_type = ''Exp''\<rparr>]"

definition demo_txs :: "Transaction list" where
  "demo_txs =
     [\<lparr>t_id = ''x1'', t_date = ''2026-02-05'',
       t_description = [CHR ''R'', CHR ''e'', CHR ''n'', CHR ''t'', CHR '' '', CHR 0x22,
                        CHR ''A'', CHR 0x22],
       t_category_id = ''3100'', t_amount = -1200, t_entity_id = Some ''ENT-003'',
       t_status = ''Paid'', t_created_at = ''2026-02-05T10:00:00Z''\<rparr>,
      \<lparr>t_id = ''x2'', t_date = ''2026-02-10'', t_description = ''Lash set'',
       t_category_id = ''9999'', t_amount = 120, t_entity_id = None,
       t_status = ''Planned'', t_created_at = ''2026-02-10T10:00:00Z''\<rparr>]"

text \<open>An intake event of the demo tenant, the page that lists it, and a run of clicks.\<close>

definition demo_intake_row :: "string \<Rightarrow> intake_events_row" where
  "demo_intake_row st =
     \<lparr>ie_id = ''i1'', ie_tenant_id = ''tn1'', ie_source = ''form_in'',
      ie_date = Some ''2026-02-03'', ie_amount = Some 120,
      ie_description = Some ''Classic lash set'', ie_attachment_url = None,
      ie_raw_payload = None, ie_status = st\<rparr>"

definition demo_event :: "string \<Rightarrow> IntakeEvent" where
  "demo_event st =
     \<lparr>ev_id = ''i1'', ev_source = ''form_in'', ev_date = Some ''2026-02-03'',
      ev_amount = Some 120, ev_description = Some ''Classic lash set'', ev_status = st\<rparr>"

definition demo_intake_db :: "string \<Rightarrow> database" where
  "demo_intake_db st = (demo_db ''collecting'' ''todo'')\<lparr>intake_events := [demo_intake_row st]\<rparr>"

definition demo_intake_page :: "string \<Rightarrow> page" where
  "demo_intake_page st = (demo_page ''collecting'' ''todo'')\<lparr>intake := [demo_event st]\<rparr>"

definition demo_js :: js_numbers where
  "demo_js = \<lparr>js_String = (\<lambda>x. ''120''), js_parseFloat = (\<lambda>s. Some 120)\<rparr>"

definition demo_clicks :: "intake_action list" where
  "demo_clicks =
     [MarkCategorized (demo_event ''new'') None,
      CreateTransaction (demo_event ''categorized''),
      SetTxCategory ''1100'',
      PostTransaction (demo_event ''categorized'') ''x9'' None None]"

text \<open>
  The whole life of one event: the form submission arrives at the ingestion route, the
  page is reloaded, and the event is categorized and posted.
\<close>

definition demo_form_env :: intake_env where
  "demo_form_env =
     \<lparr>INTAKE_SHARED_SECRET = Some ''shared'', in_admin_client_throws = None,
      in_insert_fault = None, in_uuid = (\<lambda>i. ''i1'')\<rparr>"

definition demo_lifecycle :: "intake_action list" where
  "demo_lifecycle =
     FormSubmission demo_form_env (demo_intake_request (Some ''shared'')) # Reload # demo_clicks"

text \<open>
  A run of the page: the demo cycle is in stage reporting and is paused; the page is then
  reloaded (mounted again from the database).
\<close>

definition paused_world :: "database \<times> page" where
  "paused_world =
     pauseCycle True (demo_cycle ''reporting'' ''todo'')
       (demo_db ''reporting'' ''todo'', demo_page ''reporting'' ''todo'')"

definition reloaded_world :: "database \<times> page" where
  "reloaded_world = (fst paused_world, mount ''tn1'' (fst paused_world))"

section \<open>Properties\<close>

subsection \<open>Updating the rows that carry a key\<close>

lemma find_map_same:
  "(\<And>x. P (f x) = P x) \<Longrightarrow> find P (map f xs) = map_option f (find P xs)"
  by (induction xs) auto

lemma map_upd_hit:
  assumes "y \<in> set (map (\<lambda>x. if k x = a then u x else x) xs)" "k y = a" "\<And>x. k (u x) = k x"
  shows "\<exists>x\<in>set xs. k x = a \<and> y = u x"
  using assms by (induction xs) (auto split: if_splits)

lemma map_upd_miss:
  assumes "y \<in> set (map (\<lambda>x. if k x = a then u x else x) xs)" "k y \<noteq> a" "\<And>x. k (u x) = k x"
  shows "y \<in> set xs"
  using assms by (induction xs) (auto split: if_splits)

lemma demo_page_is_mounted: "mount ''tn1'' (demo_db cs ts) = demo_page cs ts"
  by (simp add: mount_def load_def enrichedCycles_def loadedIntake_def demo_db_def
      demo_page_def demo_cycle_def demo_task_def demo_cycle_row_def demo_task_row_def
      task_of_row_def initial_page_def)

subsection \<open>Checklist toggle\<close>

lemma toggle_target_simps:
  "toggle_target ''todo'' = JString ''in_progress''"
  "toggle_target ''in_progress'' = JString ''done''"
  "toggle_target ''done'' = JString ''todo''"
  by (simp_all add: toggle_target_def TASK_STATUS_NEXT_at_def TASK_STATUS_NEXT_def)

lemma toggle_target_unknown:
  "s \<noteq> ''todo'' \<Longrightarrow> s \<noteq> ''in_progress'' \<Longrightarrow> s \<noteq> ''done'' \<Longrightarrow>
   s \<notin> set Object_prototype_keys \<Longrightarrow> toggle_target s = JString ''todo''"
  by (simp add: toggle_target_def TASK_STATUS_NEXT_at_def TASK_STATUS_NEXT_def)

lemma toggle_target_inherited:
  "s \<in> set Object_prototype_keys \<Longrightarrow> toggle_target s = JInherited s"
  by (auto simp: toggle_target_def TASK_STATUS_NEXT_at_def TASK_STATUS_NEXT_def
      Object_prototype_keys_def)

lemma db_after_toggle:
  assumes "r \<in> set (cycle_tasks (fst (handleTaskToggle True cid tid ns (db, pg))))" "ct_id r = tid"
  shows "ct_status r = ns"
proof -
  have "r \<in> set (map (\<lambda>x. if ct_id x = tid then x\<lparr>ct_status := ns\<rparr> else x) (cycle_tasks db))"
    using assms(1) by (simp add: handleTaskToggle_def update_cycle_task_status_def)
  from map_upd_hit[OF this assms(2)] obtain x where "r = x\<lparr>ct_status := ns\<rparr>" by auto
  then show ?thesis by simp
qed

lemma shown_after_toggle:
  assumes "shown_task pg cid tid = Some (c, t)"
  shows "shown_task_status (snd (handleTaskToggle True cid tid ns (db, pg))) cid tid = Some ns"
proof -
  from assms have c: "find (\<lambda>c. cycle_id c = cid) (cycles pg) = Some c"
    and t: "find (\<lambda>t. task_id t = tid) (tasks_of c) = Some t"
    by (auto simp: shown_task_def split: option.splits)
  have cid: "cycle_id c = cid" using c by (auto simp: find_Some_iff)
  have tid: "task_id t = tid" using t by (auto simp: find_Some_iff)
  show ?thesis
    using c t cid tid
    by (simp add: shown_task_status_def shown_task_def handleTaskToggle_def find_map_same tasks_of_def)
qed

lemma click_task_string:
  assumes "shown_task_status (snd w) cid tid = Some s" "toggle_target s = JString ns"
  shows "click_task sb cid tid w = Inr (handleTaskToggle sb cid tid ns w)"
proof -
  obtain db pg where w: "w = (db, pg)" by (cases w)
  from assms obtain c t where ct: "shown_task pg cid tid = Some (c, t)" and s: "task_status t = s"
    by (auto simp: shown_task_status_def w)
  have ids: "cycle_id c = cid" "task_id t = tid"
    using ct by (auto simp: shown_task_def find_Some_iff split: option.splits)
  show ?thesis using ct s ids assms(2) by (simp add: click_task_def toggle_click_def w)
qed

lemma click_task_inherited:
  assumes "shown_task_status (snd w) cid tid = Some s" "toggle_target s = JInherited n"
  shows "click_task True cid tid w = Inl n"
proof -
  obtain db pg where w: "w = (db, pg)" by (cases w)
  from assms obtain c t where ct: "shown_task pg cid tid = Some (c, t)" and s: "task_status t = s"
    by (auto simp: shown_task_status_def w)
  show ?thesis using ct s assms(2) by (simp add: click_task_def toggle_click_def w)
qed

lemma click_task_status:
  assumes "shown_task_status (snd w) cid tid = Some s" "toggle_target s = JString ns"
  shows "\<exists>w'. click_task True cid tid w = Inr w' \<and>
              shown_task_status (snd w') cid tid = Some ns \<and>
              (\<forall>r\<in>set (cycle_tasks (fst w')). ct_id r = tid \<longrightarrow> ct_status r = ns)"
proof -
  obtain db pg where w: "w = (db, pg)" by (cases w)
  from assms obtain c t where ct: "shown_task pg cid tid = Some (c, t)"
    by (auto simp: shown_task_status_def w)
  have "shown_task_status (snd (handleTaskToggle True cid tid ns w)) cid tid = Some ns"
    using shown_after_toggle[OF ct, of ns db] by (simp add: w)
  moreover have "\<forall>r\<in>set (cycle_tasks (fst (handleTaskToggle True cid tid ns w))).
                   ct_id r = tid \<longrightarrow> ct_status r = ns"
    using db_after_toggle[of _ cid tid ns db pg] by (simp add: w)
  ultimately show ?thesis using click_task_string[OF assms, of True] by simp
qed

lemma click_task_no_client: "click_task False cid tid w = Inr w"
  by (cases w)
    (simp add: click_task_def toggle_click_def handleTaskToggle_def
      split: option.splits js_value.splits)

lemma click_task_thrice:
  assumes "shown_task_status (snd w) cid tid = Some s"
    and "s = ''todo'' \<or> s = ''in_progress'' \<or> s = ''done''"
  shows "\<exists>w1 w2 w3. click_task True cid tid w = Inr w1 \<and>
                    click_task True cid tid w1 = Inr w2 \<and>
                    click_task True cid tid w2 = Inr w3 \<and>
                    shown_task_status (snd w3) cid tid = Some s"
proof -
  have step: "\<exists>w'. click_task True cid tid v = Inr w' \<and> shown_task_status (snd w') cid tid = Some b"
    if "shown_task_status (snd v) cid tid = Some a" "toggle_target a = JString b" for v a b
    using click_task_status[OF that] by blast
  from assms(2) obtain s1 s2 where
    t: "toggle_target s = JString s1" "toggle_target s1 = JString s2" "toggle_target s2 = JString s"
    using toggle_target_simps by blast
  from step[OF assms(1) t(1)] obtain w1 where
    w1: "click_task True cid tid w = Inr w1" "shown_task_status (snd w1) cid tid = Some s1" by blast
  from step[OF w1(2) t(2)] obtain w2 where
    w2: "click_task True cid tid w1 = Inr w2" "shown_task_status (snd w2) cid tid = Some s2" by blast
  from step[OF w2(2) t(3)] obtain w3 where
    w3: "click_task True cid tid w2 = Inr w3" "shown_task_status (snd w3) cid tid = Some s" by blast
  show ?thesis using w1 w2 w3 by blast
qed

text \<open>
  What holds of the checklist button: a task shown with one of the three statuses moves
  to the next of todo, in_progress, done and back to todo, on the page and in every
  \<^verbatim>\<open>cycle_tasks\<close> row with the task's id, and three clicks bring it back; a status that is
  none of the three and not the name of an inherited member goes to todo; without a
  browser client the click changes nothing. At the name of an inherited member the
  button passes that member, with a client, where the fallback to todo was meant.
\<close>

lemma task_toggle_statuses:
  "toggle_target ''todo'' = JString ''in_progress'' \<and>
   toggle_target ''in_progress'' = JString ''done'' \<and>
   toggle_target ''done'' = JString ''todo'' \<and>
   (s \<noteq> ''todo'' \<and> s \<noteq> ''in_progress'' \<and> s \<noteq> ''done'' \<and> s \<notin> set Object_prototype_keys \<longrightarrow>
      toggle_target s = JString ''todo'') \<and>
   (s \<in> set Object_prototype_keys \<longrightarrow> toggle_target s = JInherited s) \<and>
   click_task False cid tid w = Inr w \<and>
   (shown_task_status (snd w) cid tid = Some s \<longrightarrow>
      (toggle_target s = JString ns \<longrightarrow>
         (\<exists>w'. click_task True cid tid w = Inr w' \<and>
               shown_task_status (snd w') cid tid = Some ns \<and>
               (\<forall>r\<in>set (cycle_tasks (fst w')). ct_id r = tid \<longrightarrow> ct_status r = ns))) \<and>
      (toggle_target s = JInherited n \<longrightarrow> click_task True cid tid w = Inl n) \<and>
      (s = ''todo'' \<or> s = ''in_progress'' \<or> s = ''done'' \<longrightarrow>
         (\<exists>w1 w2 w3. click_task True cid tid w = Inr w1 \<and>
                     click_task True cid tid w1 = Inr w2 \<and>
                     click_task True cid tid w2 = Inr w3 \<and>
                     shown_task_status (snd w3) cid tid = Some s)))"
  using toggle_target_simps toggle_target_unknown[of s] toggle_target_inherited[of s]
    click_task_no_client[of cid tid w] click_task_status[of w cid tid s ns]
    click_task_inherited[of w cid tid s n] click_task_thrice[of w cid tid s]
  by blast

text \<open>
  C6. A task whose stored status is \<^verbatim>\<open>constructor\<close> (the column is free text) is
  shown with that status, and its checklist button passes the member the literal
  inherits under that name, not \<^verbatim>\<open>"todo"\<close>: the click ends with a value that is not a
  status. A status that is no property name of the literal, such as \<^verbatim>\<open>blocked\<close>, goes
  to todo, and the three statuses follow todo, in_progress, done, todo.
\<close>

theorem task_toggle_inherited_key:
  "mount ''tn1'' (demo_db ''collecting'' ''constructor'') = demo_page ''collecting'' ''constructor'' \<and>
   shown_task_status (demo_page ''collecting'' ''constructor'') ''c1'' ''k1''
     = Some ''constructor'' \<and>
   toggle_target ''constructor'' = JInherited ''constructor'' \<and>
   toggle_target ''constructor'' \<noteq> JString ''todo'' \<and>
   click_task True ''c1'' ''k1''
     (demo_db ''collecting'' ''constructor'', demo_page ''collecting'' ''constructor'')
     = Inl ''constructor'' \<and>
   toggle_target ''blocked'' = JString ''todo'' \<and>
   click_task True ''c1'' ''k1''
     (demo_db ''collecting'' ''blocked'', demo_page ''collecting'' ''blocked'')
     = Inr (demo_db ''collecting'' ''todo'', demo_page ''collecting'' ''todo'') \<and>
   click_task True ''c1'' ''k1''
     (demo_db ''collecting'' ''todo'', demo_page ''collecting'' ''todo'')
     = Inr (demo_db ''collecting'' ''in_progress'', demo_page ''collecting'' ''in_progress'') \<and>
   click_task True ''c1'' ''k1''
     (demo_db ''collecting'' ''in_progress'', demo_page ''collecting'' ''in_progress'')
     = Inr (demo_db ''collecting'' ''done'', demo_page ''collecting'' ''done'') \<and>
   click_task True ''c1'' ''k1''
     (demo_db ''collecting'' ''done'', demo_page ''collecting'' ''done'')
     = Inr (demo_db ''collecting'' ''todo'', demo_page ''collecting'' ''todo'')"
proof -
  have target: "toggle_target ''constructor'' = JInherited ''constructor''"
    "toggle_target ''blocked'' = JString ''todo''"
    by (simp_all add: toggle_target_def TASK_STATUS_NEXT_at_def TASK_STATUS_NEXT_def
        Object_prototype_keys_def)
  have click: "click_task True ''c1'' ''k1'' (demo_db ''collecting'' a, demo_page ''collecting'' a)
      = (case toggle_target a of
           JString b \<Rightarrow> Inr (demo_db ''collecting'' b, demo_page ''collecting'' b)
         | JInherited n \<Rightarrow> Inl n)" for a
    by (simp add: click_task_def shown_task_def demo_page_def demo_cycle_def demo_task_def
        tasks_of_def initial_page_def toggle_click_def handleTaskToggle_def
        update_cycle_task_status_def demo_db_def demo_task_row_def
        split: js_value.splits)
  have shown: "shown_task_status (demo_page ''collecting'' ''constructor'') ''c1'' ''k1''
     = Some ''constructor''"
    by (simp add: shown_task_status_def shown_task_def demo_page_def demo_cycle_def
        demo_task_def tasks_of_def initial_page_def)
  show ?thesis
    using demo_page_is_mounted[of "''collecting''" "''constructor''"] shown
    by (simp add: click target toggle_target_simps)
qed

subsection \<open>Advancing a cycle\<close>

lemma indexOf_order:
  "indexOf CYCLE_STATUS_ORDER ''collecting'' = 0"
  "indexOf CYCLE_STATUS_ORDER ''processing'' = 1"
  "indexOf CYCLE_STATUS_ORDER ''reconciling'' = 2"
  "indexOf CYCLE_STATUS_ORDER ''reporting'' = 3"
  "indexOf CYCLE_STATUS_ORDER ''delivered'' = 4"
  by (simp_all add: CYCLE_STATUS_ORDER_def)

lemma indexOf_other:
  "s \<noteq> ''collecting'' \<Longrightarrow> s \<noteq> ''processing'' \<Longrightarrow> s \<noteq> ''reconciling'' \<Longrightarrow>
   s \<noteq> ''reporting'' \<Longrightarrow> s \<noteq> ''delivered'' \<Longrightarrow> indexOf CYCLE_STATUS_ORDER s = -1"
  by (simp add: CYCLE_STATUS_ORDER_def)

lemma length_order: "length CYCLE_STATUS_ORDER = 5"
  by (simp add: CYCLE_STATUS_ORDER_def)

lemma next_stage_index:
  assumes "spec_next_stage s = Some n"
  shows "indexOf CYCLE_STATUS_ORDER s \<noteq> -1 \<and>
         \<not> indexOf CYCLE_STATUS_ORDER s \<ge> int (length CYCLE_STATUS_ORDER) - 1 \<and>
         CYCLE_STATUS_ORDER ! nat (indexOf CYCLE_STATUS_ORDER s + 1) = n"
proof -
  consider "s = ''collecting''" "n = ''processing''" | "s = ''processing''" "n = ''reconciling''"
    | "s = ''reconciling''" "n = ''reporting''" | "s = ''reporting''" "n = ''delivered''"
    using assms by (auto simp: spec_next_stage_def split: if_splits)
  then show ?thesis
    by cases (simp_all add: indexOf_order length_order, simp_all add: CYCLE_STATUS_ORDER_def)
qed

lemma no_next_stage_index:
  assumes "spec_next_stage s = None"
  shows "indexOf CYCLE_STATUS_ORDER s = -1 \<or>
         indexOf CYCLE_STATUS_ORDER s \<ge> int (length CYCLE_STATUS_ORDER) - 1"
proof (cases "s = ''delivered''")
  case True
  then show ?thesis by (simp add: indexOf_order length_order)
next
  case False
  with assms have "indexOf CYCLE_STATUS_ORDER s = -1"
    by (intro indexOf_other) (auto simp: spec_next_stage_def split: if_splits)
  then show ?thesis by simp
qed

lemma advance_none:
  "spec_next_stage (cycle_status c) = None \<Longrightarrow> advanceCycle supabase c w = w"
  using no_next_stage_index[of "cycle_status c"]
  by (cases w) (auto simp: advanceCycle_def Let_def)

lemma advance_gated:
  assumes "spec_next_stage (cycle_status c) = Some n"
    and "openTasks c \<noteq> []" "confirmAdvance (snd w) \<noteq> Some (cycle_id c)"
  shows "advanceCycle supabase c w = (fst w, (snd w)\<lparr>confirmAdvance := Some (cycle_id c)\<rparr>)"
  using next_stage_index[OF assms(1)] assms(2,3)
  by (cases w) (simp add: advanceCycle_def Let_def openTasks_def)

lemma advance_done:
  assumes "spec_next_stage (cycle_status c) = Some n"
    and "openTasks c = [] \<or> confirmAdvance (snd w) = Some (cycle_id c)"
  shows "advanceCycle True c w =
           (update_service_cycle_status (cycle_id c) n (fst w),
            handleCycleAdvanced (cycle_id c) n ((snd w)\<lparr>confirmAdvance := None, advancing := None\<rparr>))"
  using next_stage_index[OF assms(1)] assms(2)
  by (cases w) (auto simp add: advanceCycle_def Let_def openTasks_def)

lemma advance_no_client:
  assumes "spec_next_stage (cycle_status c) = Some n"
    and "openTasks c = [] \<or> confirmAdvance (snd w) = Some (cycle_id c)"
  shows "advanceCycle False c w = (fst w, (snd w)\<lparr>confirmAdvance := None, advancing := None\<rparr>)"
  using next_stage_index[OF assms(1)] assms(2)
  by (cases w) (auto simp add: advanceCycle_def Let_def openTasks_def)

lemma page_status_after:
  assumes "x \<in> set (cycles (handleCycleAdvanced cid n pg))" "cycle_id x = cid"
  shows "cycle_status x = n"
proof -
  have "x \<in> set (map (\<lambda>c. if cycle_id c = cid then c\<lparr>cycle_status := n\<rparr> else c) (cycles pg))"
    using assms(1) by (simp add: handleCycleAdvanced_def)
  from map_upd_hit[OF this assms(2)] obtain y where "x = y\<lparr>cycle_status := n\<rparr>" by auto
  then show ?thesis by simp
qed

lemma row_status_after:
  assumes "r \<in> set (service_cycles (update_service_cycle_status cid n db))" "sc_id r = cid"
  shows "sc_status r = n"
proof -
  have "r \<in> set (map (\<lambda>c. if sc_id c = cid then c\<lparr>sc_status := n\<rparr> else c) (service_cycles db))"
    using assms(1) by (simp add: update_service_cycle_status_def)
  from map_upd_hit[OF this assms(2)] obtain y where "r = y\<lparr>sc_status := n\<rparr>" by auto
  then show ?thesis by simp
qed

lemma advance_demo:
  "advanceCycle True (demo_cycle ''collecting'' ''todo'')
     (demo_db ''collecting'' ''todo'', demo_page ''collecting'' ''todo'')
   = (demo_db ''collecting'' ''todo'',
      (demo_page ''collecting'' ''todo'')\<lparr>confirmAdvance := Some ''c1''\<rparr>)"
  by (simp add: advanceCycle_def indexOf_order length_order openTasks_def tasks_of_def
      demo_cycle_def demo_task_def demo_page_def initial_page_def)

text \<open>
  C1, as amended. A cycle in delivered, paused or any status without a next stage is left
  alone by \<^verbatim>\<open>advanceCycle\<close>. For a cycle in collecting, processing, reconciling or
  reporting, with \<open>n\<close> the next stage: when the cycle has a task that is not done and
  the advance is not yet awaiting confirmation for this cycle, the call only records the
  confirmation request and no status changes; otherwise, with a browser client, the
  \<^verbatim>\<open>service_cycles\<close> rows and the page's cycles with this id take status \<open>n\<close>, exactly
  one stage further, and without a client no status changes.
\<close>

theorem advanceCycle_stage_order:
  "(cycle_status c = ''delivered'' \<or> cycle_status c = ''paused'' \<or>
      spec_next_stage (cycle_status c) = None \<longrightarrow> advanceCycle supabase c w = w) \<and>
   (spec_next_stage (cycle_status c) = Some n \<longrightarrow>
      (openTasks c \<noteq> [] \<and> confirmAdvance (snd w) \<noteq> Some (cycle_id c) \<longrightarrow>
         advanceCycle supabase c w = (fst w, (snd w)\<lparr>confirmAdvance := Some (cycle_id c)\<rparr>)) \<and>
      (openTasks c = [] \<or> confirmAdvance (snd w) = Some (cycle_id c) \<longrightarrow>
         advanceCycle False c w = (fst w, (snd w)\<lparr>confirmAdvance := None, advancing := None\<rparr>) \<and>
         advanceCycle True c w =
           (update_service_cycle_status (cycle_id c) n (fst w),
            handleCycleAdvanced (cycle_id c) n
              ((snd w)\<lparr>confirmAdvance := None, advancing := None\<rparr>)) \<and>
         (\<forall>x\<in>set (cycles (snd (advanceCycle True c w))).
            cycle_id x = cycle_id c \<longrightarrow> cycle_status x = n) \<and>
         (\<forall>r\<in>set (service_cycles (fst (advanceCycle True c w))).
            sc_id r = cycle_id c \<longrightarrow> sc_status r = n)))"
proof -
  have none: "spec_next_stage (cycle_status c) = None"
    if "cycle_status c = ''delivered'' \<or> cycle_status c = ''paused'' \<or>
        spec_next_stage (cycle_status c) = None"
    using that by (auto simp: spec_next_stage_def)
  have performed: "(\<forall>x\<in>set (cycles (snd (advanceCycle True c w))).
            cycle_id x = cycle_id c \<longrightarrow> cycle_status x = n) \<and>
         (\<forall>r\<in>set (service_cycles (fst (advanceCycle True c w))).
            sc_id r = cycle_id c \<longrightarrow> sc_status r = n)"
    if "spec_next_stage (cycle_status c) = Some n"
      "openTasks c = [] \<or> confirmAdvance (snd w) = Some (cycle_id c)"
    using page_status_after row_status_after by (simp add: advance_done[OF that])
  show ?thesis
    using none advance_none[of c supabase w] advance_gated[of c n w supabase]
      advance_no_client[of c n w] advance_done[of c n w] performed
    by blast
qed

theorem advanceCycle_stage_order_witness:
  "spec_next_stage (cycle_status (demo_cycle ''reporting'' ''done'')) = Some ''delivered'' \<and>
   openTasks (demo_cycle ''reporting'' ''done'') = [] \<and>
   advanceCycle True (demo_cycle ''reporting'' ''done'')
     (demo_db ''reporting'' ''done'', demo_page ''reporting'' ''done'')
   = (demo_db ''delivered'' ''done'', demo_page ''delivered'' ''done'') \<and>
   advanceCycle True (demo_cycle ''delivered'' ''done'')
     (demo_db ''delivered'' ''done'', demo_page ''delivered'' ''done'')
   = (demo_db ''delivered'' ''done'', demo_page ''delivered'' ''done'')"
proof -
  let ?c = "demo_cycle ''reporting'' ''done''"
  let ?w = "(demo_db ''reporting'' ''done'', demo_page ''reporting'' ''done'')"
  have n: "spec_next_stage (cycle_status ?c) = Some ''delivered''"
    by (simp add: spec_next_stage_def demo_cycle_def)
  have o: "openTasks ?c = []"
    by (simp add: openTasks_def tasks_of_def demo_cycle_def demo_task_def)
  have "advanceCycle True ?c ?w =
          (update_service_cycle_status (cycle_id ?c) ''delivered'' (fst ?w),
           handleCycleAdvanced (cycle_id ?c) ''delivered''
             ((snd ?w)\<lparr>confirmAdvance := None, advancing := None\<rparr>))"
    using advanceCycle_stage_order[of ?c True ?w "''delivered''"] n o by blast
  then have a: "advanceCycle True ?c ?w = (demo_db ''delivered'' ''done'', demo_page ''delivered'' ''done'')"
    by (simp add: update_service_cycle_status_def handleCycleAdvanced_def demo_db_def
        demo_page_def demo_cycle_def demo_cycle_row_def initial_page_def)
  have "cycle_status (demo_cycle ''delivered'' ''done'') = ''delivered''"
    by (simp add: demo_cycle_def)
  then have "advanceCycle True (demo_cycle ''delivered'' ''done'')
     (demo_db ''delivered'' ''done'', demo_page ''delivered'' ''done'')
   = (demo_db ''delivered'' ''done'', demo_page ''delivered'' ''done'')"
    using advanceCycle_stage_order[of "demo_cycle ''delivered'' ''done''" True
        "(demo_db ''delivered'' ''done'', demo_page ''delivered'' ''done'')" "''delivered''"]
    by blast
  with n o a show ?thesis by blast
qed

text \<open>
  C1 as first stated fails where the cycle still has an open task: the first call
  on the demo cycle in stage collecting, whose one task is todo, leaves the status of
  the page's cycle and of the row at collecting.
\<close>

theorem advanceCycle_open_task_counterexample:
  "cycle_status (demo_cycle ''collecting'' ''todo'') = ''collecting'' \<and>
   spec_next_stage ''collecting'' = Some ''processing'' \<and>
   cycles (demo_page ''collecting'' ''todo'') = [demo_cycle ''collecting'' ''todo''] \<and>
   map cycle_status
     (cycles (snd (advanceCycle True (demo_cycle ''collecting'' ''todo'')
                     (demo_db ''collecting'' ''todo'', demo_page ''collecting'' ''todo''))))
     = [''collecting''] \<and>
   map sc_status
     (service_cycles (fst (advanceCycle True (demo_cycle ''collecting'' ''todo'')
                     (demo_db ''collecting'' ''todo'', demo_page ''collecting'' ''todo''))))
     = [''collecting'']"
  by (simp add: advance_demo)
     (simp add: demo_cycle_def demo_page_def demo_db_def demo_cycle_row_def initial_page_def
        spec_next_stage_def)

subsection \<open>Pausing and resuming a cycle\<close>

lemma map_upd_twice:
  "(\<And>x. k (u x) = k x) \<Longrightarrow>
   map (\<lambda>x. if k x = a then v x else x) (map (\<lambda>x. if k x = a then u x else x) xs)
     = map (\<lambda>x. if k x = a then v (u x) else x) xs"
  by (induction xs) auto

lemma map_upd_id:
  "(\<And>x. x \<in> set xs \<Longrightarrow> k x = a \<Longrightarrow> u x = x) \<Longrightarrow>
   map (\<lambda>x. if k x = a then u x else x) xs = xs"
  by (induction xs) auto

lemma pause_result:
  "pauseCycle True c w =
     (update_service_cycle_status (cycle_id c) ''paused'' (fst w),
      handleCycleAdvanced (cycle_id c) ''paused''
        ((snd w)\<lparr>prePauseStatus := (prePauseStatus (snd w))(cycle_id c \<mapsto> cycle_status c)\<rparr>))"
  by (cases w) (simp add: pauseCycle_def)

lemma pause_records: "prePauseStatus (snd (pauseCycle True c w)) (cycle_id c) = Some (cycle_status c)"
  by (simp add: pause_result handleCycleAdvanced_def)

lemma resume_result:
  "resumeCycle True c w =
     (let restoreStatus = (case prePauseStatus (snd w) (cycle_id c) of
                             None \<Rightarrow> ''collecting'' | Some s \<Rightarrow> s) in
      (update_service_cycle_status (cycle_id c) restoreStatus (fst w),
       handleCycleAdvanced (cycle_id c) restoreStatus
         ((snd w)\<lparr>prePauseStatus := (prePauseStatus (snd w))(cycle_id c := None)\<rparr>)))"
  by (cases w) (simp add: resumeCycle_def)

lemma resume_after_pause:
  assumes "cycle_id c' = cycle_id c"
  shows "resumeCycle True c' (pauseCycle True c w) =
           (update_service_cycle_status (cycle_id c) (cycle_status c)
              (update_service_cycle_status (cycle_id c) ''paused'' (fst w)),
            handleCycleAdvanced (cycle_id c) (cycle_status c)
              ((handleCycleAdvanced (cycle_id c) ''paused'' (snd w))
                 \<lparr>prePauseStatus := (prePauseStatus (snd w))(cycle_id c := None)\<rparr>))"
  by (simp add: resume_result[of c'] assms pause_records Let_def)
     (simp add: pause_result handleCycleAdvanced_def)

lemma no_client_pause_resume: "pauseCycle False c w = w" "resumeCycle False c w = w"
  by (cases w, simp add: pauseCycle_def resumeCycle_def)+

lemma round_trip_cycles:
  assumes "cycle_id c' = cycle_id c" "c \<in> set (cycles (snd w))"
    "distinct (map cycle_id (cycles (snd w)))"
  shows "cycles (snd (resumeCycle True c' (pauseCycle True c w))) = cycles (snd w)"
proof -
  have same: "x = c" if "x \<in> set (cycles (snd w))" "cycle_id x = cycle_id c" for x
    using that assms(2,3) by (meson distinct_map inj_onD)
  have "cycles (snd (resumeCycle True c' (pauseCycle True c w)))
          = map (\<lambda>x. if cycle_id x = cycle_id c then x\<lparr>cycle_status := cycle_status c\<rparr> else x)
              (cycles (snd w))"
    by (simp add: resume_after_pause[OF assms(1)] handleCycleAdvanced_def map_upd_twice)
  also have "\<dots> = cycles (snd w)"
  proof (rule map_upd_id)
    fix x assume "x \<in> set (cycles (snd w))" "cycle_id x = cycle_id c"
    then have "x = c" by (rule same)
    then show "x\<lparr>cycle_status := cycle_status c\<rparr> = x" by simp
  qed
  finally show ?thesis .
qed


lemma paused_world_eval:
  "paused_world =
     (demo_db ''paused'' ''todo'',
      (demo_page ''paused'' ''todo'')\<lparr>prePauseStatus := [''c1'' \<mapsto> ''reporting'']\<rparr>)"
  by (simp add: paused_world_def pause_result update_service_cycle_status_def
      handleCycleAdvanced_def demo_db_def demo_page_def demo_cycle_def demo_cycle_row_def
      initial_page_def)

lemma reloaded_world_eval:
  "reloaded_world = (demo_db ''paused'' ''todo'', demo_page ''paused'' ''todo'')"
  by (simp add: reloaded_world_def paused_world_eval demo_page_is_mounted)

lemma resume_reloaded:
  "resumeCycle True (demo_cycle ''paused'' ''todo'') reloaded_world
     = (demo_db ''collecting'' ''todo'', demo_page ''collecting'' ''todo'')"
  by (simp add: reloaded_world_eval resume_result update_service_cycle_status_def Let_def
      handleCycleAdvanced_def demo_db_def demo_page_def demo_cycle_def demo_cycle_row_def
      initial_page_def)

lemma resume_page_status:
  assumes "x \<in> set (cycles (snd (resumeCycle True c w)))" "cycle_id x = cycle_id c"
  shows "cycle_status x =
           (case prePauseStatus (snd w) (cycle_id c) of None \<Rightarrow> ''collecting'' | Some s \<Rightarrow> s)"
  using assms(1) page_status_after[OF _ assms(2)] by (simp add: resume_result Let_def)

lemma resume_row_status:
  assumes "r \<in> set (service_cycles (fst (resumeCycle True c w)))" "sc_id r = cycle_id c"
  shows "sc_status r =
           (case prePauseStatus (snd w) (cycle_id c) of None \<Rightarrow> ''collecting'' | Some s \<Rightarrow> s)"
  using assms(1) row_status_after[OF _ assms(2)] by (simp add: resume_result Let_def)

lemma pause_page_status:
  assumes "x \<in> set (cycles (snd (pauseCycle True c w)))" "cycle_id x = cycle_id c"
  shows "cycle_status x = ''paused''"
  using assms(1) page_status_after[OF _ assms(2)] by (simp add: pause_result)

lemma pause_row_status:
  assumes "r \<in> set (service_cycles (fst (pauseCycle True c w)))" "sc_id r = cycle_id c"
  shows "sc_status r = ''paused''"
  using assms(1) row_status_after[OF _ assms(2)] by (simp add: pause_result)

lemma resume_after_pause_status:
  assumes "cycle_id c' = cycle_id c"
  shows "(\<forall>x\<in>set (cycles (snd (resumeCycle True c' (pauseCycle True c w)))).
            cycle_id x = cycle_id c \<longrightarrow> cycle_status x = cycle_status c) \<and>
         (\<forall>r\<in>set (service_cycles (fst (resumeCycle True c' (pauseCycle True c w)))).
            sc_id r = cycle_id c \<longrightarrow> sc_status r = cycle_status c)"
  using resume_page_status[of _ c' "pauseCycle True c w"]
    resume_row_status[of _ c' "pauseCycle True c w"] pause_records[of c w]
  by (simp add: assms)

lemma paused_buttons:
  "cycle_status x = ''paused'' \<Longrightarrow> canResume x \<and> \<not> canPause x \<and> \<not> canAdvance x"
  by (simp add: canResume_def canPause_def canAdvance_def)

text \<open>
  C2, as amended. Pausing a cycle sets the status of its row and of the page's copy to
  paused and records the status the cycle had under its id in \<^verbatim>\<open>prePauseStatus\<close>.
  Resuming sets the status recorded there, or collecting when nothing is recorded for
  the cycle. So resuming on the page that paused the cycle leads back to the status
  held before the pause, and where the cycle is on a page whose cycle ids are distinct
  the page's cycles are again what they were. Without a browser client neither handler
  changes anything. A paused cycle is offered the resume button only, neither pause nor
  advance.
\<close>

theorem pause_resume_recorded_status:
  "pauseCycle False c w = w \<and> resumeCycle False c w = w \<and>
   (\<forall>x\<in>set (cycles (snd (pauseCycle True c w))).
      cycle_id x = cycle_id c \<longrightarrow>
      cycle_status x = ''paused'' \<and> canResume x \<and> \<not> canPause x \<and> \<not> canAdvance x) \<and>
   (\<forall>r\<in>set (service_cycles (fst (pauseCycle True c w))).
      sc_id r = cycle_id c \<longrightarrow> sc_status r = ''paused'') \<and>
   prePauseStatus (snd (pauseCycle True c w)) (cycle_id c) = Some (cycle_status c) \<and>
   (\<forall>x\<in>set (cycles (snd (resumeCycle True c w))).
      cycle_id x = cycle_id c \<longrightarrow>
      cycle_status x =
        (case prePauseStatus (snd w) (cycle_id c) of None \<Rightarrow> ''collecting'' | Some s \<Rightarrow> s)) \<and>
   (\<forall>r\<in>set (service_cycles (fst (resumeCycle True c w))).
      sc_id r = cycle_id c \<longrightarrow>
      sc_status r =
        (case prePauseStatus (snd w) (cycle_id c) of None \<Rightarrow> ''collecting'' | Some s \<Rightarrow> s)) \<and>
   (cycle_id c' = cycle_id c \<longrightarrow>
      (\<forall>x\<in>set (cycles (snd (resumeCycle True c' (pauseCycle True c w)))).
         cycle_id x = cycle_id c \<longrightarrow> cycle_status x = cycle_status c) \<and>
      (\<forall>r\<in>set (service_cycles (fst (resumeCycle True c' (pauseCycle True c w)))).
         sc_id r = cycle_id c \<longrightarrow> sc_status r = cycle_status c) \<and>
      (c \<in> set (cycles (snd w)) \<and> distinct (map cycle_id (cycles (snd w))) \<longrightarrow>
         cycles (snd (resumeCycle True c' (pauseCycle True c w))) = cycles (snd w)))"
  using no_client_pause_resume[of c w] pause_page_status[of _ c w] pause_row_status[of _ c w]
    paused_buttons
    pause_records[of c w] resume_page_status[of _ c w] resume_row_status[of _ c w]
    resume_after_pause_status[of c' c w] round_trip_cycles[of c' c w]
  by blast

theorem pause_resume_recorded_status_witness:
  "cycle_id (demo_cycle ''paused'' ''todo'') = cycle_id (demo_cycle ''reporting'' ''todo'') \<and>
   demo_cycle ''reporting'' ''todo'' \<in> set (cycles (demo_page ''reporting'' ''todo'')) \<and>
   distinct (map cycle_id (cycles (demo_page ''reporting'' ''todo''))) \<and>
   cycles (snd (resumeCycle True (demo_cycle ''paused'' ''todo'') paused_world))
     = [demo_cycle ''reporting'' ''todo'']"
proof -
  let ?w = "(demo_db ''reporting'' ''todo'', demo_page ''reporting'' ''todo'')"
  have h: "cycle_id (demo_cycle ''paused'' ''todo'') = cycle_id (demo_cycle ''reporting'' ''todo'')"
    "demo_cycle ''reporting'' ''todo'' \<in> set (cycles (snd ?w))"
    "distinct (map cycle_id (cycles (snd ?w)))"
    by (simp_all add: demo_cycle_def demo_page_def)
  have "cycles (snd (resumeCycle True (demo_cycle ''paused'' ''todo'')
                       (pauseCycle True (demo_cycle ''reporting'' ''todo'') ?w)))
          = cycles (snd ?w)"
    using pause_resume_recorded_status[of "demo_cycle ''reporting'' ''todo''" ?w
        "demo_cycle ''paused'' ''todo''"] h
    by blast
  then show ?thesis
    using h by (simp add: paused_world_def demo_page_def)
qed

text \<open>
  C2 as first stated fails once the page has been reloaded between the pause and
  the resume: the demo cycle is paused in stage reporting, the reloaded page shows it
  paused and holds no recorded status, and resuming sets collecting, on the page and in
  the row.
\<close>

theorem resume_after_reload_counterexample:
  "cycle_status (demo_cycle ''reporting'' ''todo'') = ''reporting'' \<and>
   map sc_status (service_cycles (fst paused_world)) = [''paused''] \<and>
   cycles (snd reloaded_world) = [demo_cycle ''paused'' ''todo''] \<and>
   map cycle_status
     (cycles (snd (resumeCycle True (demo_cycle ''paused'' ''todo'') reloaded_world)))
     = [''collecting''] \<and>
   map sc_status
     (service_cycles (fst (resumeCycle True (demo_cycle ''paused'' ''todo'') reloaded_world)))
     = [''collecting'']"
proof -
  have "cycle_status (demo_cycle ''reporting'' ''todo'') = ''reporting''"
    by (simp add: demo_cycle_def)
  moreover have "map sc_status (service_cycles (fst paused_world)) = [''paused'']"
    by (simp add: paused_world_eval demo_db_def demo_cycle_row_def)
  moreover have "cycles (snd reloaded_world) = [demo_cycle ''paused'' ''todo'']"
    by (simp add: reloaded_world_eval demo_page_def)
  moreover have "map cycle_status
     (cycles (snd (resumeCycle True (demo_cycle ''paused'' ''todo'') reloaded_world)))
     = [''collecting'']"
    by (simp only: resume_reloaded) (simp add: demo_page_def demo_cycle_def)
  moreover have "map sc_status
     (service_cycles (fst (resumeCycle True (demo_cycle ''paused'' ''todo'') reloaded_world)))
     = [''collecting'']"
    by (simp only: resume_reloaded) (simp add: demo_db_def demo_cycle_row_def)
  ultimately show ?thesis by blast
qed

subsection \<open>Starting a cycle\<close>

lemma default_task_rows_eval:
  "default_task_rows uuid cid tid =
     map (\<lambda>(i, taskType).
            \<lparr>ct_id = uuid (Suc i), ct_service_cycle_id = cid, ct_tenant_id = tid,
             ct_task_type = taskType, ct_assignee = None, ct_status = ''todo'',
             ct_due_date = None\<rparr>)
       [(0, ''Collect statements''), (1, ''Review intake events''),
        (2, ''Categorize transactions''), (3, ''Reconcile to bank''),
        (4, ''Run BVA and variances''), (5, ''Generate report pack''),
        (6, ''Send insight summary''), (7, ''Schedule review call'')]"
  by (simp add: default_task_rows_def defaultTasks_def eval_nat_numeral)

lemma default_task_rows_facts:
  "map ct_task_type (default_task_rows uuid cid tid) = defaultTasks"
  "length (default_task_rows uuid cid tid) = 8"
  "list_all (\<lambda>r. ct_status r = ''todo'' \<and> ct_service_cycle_id r = cid \<and> ct_tenant_id r = tid)
     (default_task_rows uuid cid tid)"
  by (simp_all add: default_task_rows_eval) (simp add: defaultTasks_def)

lemma upsert_ok:
  assumes "upsert_service_cycle new_id tenantId month st db = Inr (cycle, db1)"
  shows "sc_status cycle = st" "sc_tenant_id cycle = tenantId" "sc_month cycle = month"
    "cycle \<in> set (service_cycles db1)" "cycle_tasks db1 = cycle_tasks db"
    "tenants db1 = tenants db"
proof -
  show "sc_status cycle = st" "sc_tenant_id cycle = tenantId" "sc_month cycle = month"
    "cycle_tasks db1 = cycle_tasks db" "tenants db1 = tenants db"
    using assms
    by (auto simp: upsert_service_cycle_def Let_def find_Some_iff split: option.splits if_splits)
  show "cycle \<in> set (service_cycles db1)"
  proof (cases "find (\<lambda>r. sc_tenant_id r = tenantId \<and> sc_month r = month) (service_cycles db)")
    case None
    then show ?thesis using assms
      by (auto simp: upsert_service_cycle_def Let_def split: if_splits)
  next
    case (Some r)
    then have r: "r \<in> set (service_cycles db)" "sc_tenant_id r = tenantId" "sc_month r = month"
      by (auto simp: find_Some_iff)
    have "cycle = r\<lparr>sc_status := st\<rparr>"
      and db1: "service_cycles db1 = map (\<lambda>x. if (sc_tenant_id x, sc_month x) = (tenantId, month)
                              then x\<lparr>sc_status := st\<rparr> else x) (service_cycles db)"
      using assms Some by (auto simp: upsert_service_cycle_def)
    moreover have "r\<lparr>sc_status := st\<rparr> \<in> set (map (\<lambda>x. if (sc_tenant_id x, sc_month x) = (tenantId, month)
                              then x\<lparr>sc_status := st\<rparr> else x) (service_cycles db))"
      using r by (force simp: image_iff)
    ultimately show ?thesis by simp
  qed
qed


lemma upsert_fresh:
  assumes "upsert_service_cycle new_id tenantId month st db = Inr (cycle, db1)"
    and "\<not> list_ex (\<lambda>r. sc_tenant_id r = tenantId \<and> sc_month r = month) (service_cycles db)"
  shows "sc_id cycle \<notin> set (map sc_id (service_cycles db))"
    "service_cycles db1 = service_cycles db @ [cycle]"
proof -
  have "find (\<lambda>r. sc_tenant_id r = tenantId \<and> sc_month r = month) (service_cycles db) = None"
    using assms(2) by (simp add: find_None_iff list_ex_iff)
  then show "sc_id cycle \<notin> set (map sc_id (service_cycles db))"
    "service_cycles db1 = service_cycles db @ [cycle]"
    using assms(1) by (auto simp: upsert_service_cycle_def Let_def split: if_splits)
qed


lemma insert_tasks_ok:
  assumes "insert_cycle_tasks rows db1 = Inr (u, db2)"
  shows "cycle_tasks db2 = cycle_tasks db1 @ rows" "service_cycles db2 = service_cycles db1"
    "tenants db2 = tenants db1"
  using assms by (auto simp: insert_cycle_tasks_def split: if_splits)


lemma cycle_start_200:
  assumes "resp_status (fst (cycle_start_POST env req db)) = 200"
  obtains month cycle db1 u db2 where
    "cs_json req = JsonValue (Some month)" "date_shaped month"
    "upsert_service_cycle (cs_uuid env 0) (cs_tenantId req) month ''collecting'' db = Inr (cycle, db1)"
    "insert_cycle_tasks (default_task_rows (cs_uuid env) (sc_id cycle) (cs_tenantId req)) db1
       = Inr (u, db2)"
    "cycle_start_POST env req db = (respond 200 (OkCycle cycle), db2)"
  using assms
  by (auto simp: cycle_start_POST_def respond_def db_call_def payloadSchema_def
      split: sum.splits option.splits bool.splits request_json.splits if_splits prod.splits)

lemma checklist_appended:
  "filter (\<lambda>t. ct_service_cycle_id t = cid) (ts @ default_task_rows uuid cid tid)
     = filter (\<lambda>t. ct_service_cycle_id t = cid) ts @ default_task_rows uuid cid tid"
  by (simp add: default_task_rows_eval)

lemma checklist_of_fresh_cycle:
  assumes "cid \<notin> set (map sc_id cs)"
    and "list_all (\<lambda>t. ct_service_cycle_id t \<in> set (map sc_id cs)) ts"
  shows "filter (\<lambda>t. ct_service_cycle_id t = cid) (ts @ default_task_rows uuid cid tid)
           = default_task_rows uuid cid tid"
proof -
  have "filter (\<lambda>t. ct_service_cycle_id t = cid) ts = []"
    using assms by (auto simp: filter_empty_conv list_all_iff)
  moreover have "filter (\<lambda>t. ct_service_cycle_id t = cid) (default_task_rows uuid cid tid)
                   = default_task_rows uuid cid tid"
    by (simp add: default_task_rows_eval)
  ultimately show ?thesis by simp
qed

lemma cycle_start_success:
  assumes "resp_status (fst (cycle_start_POST env req db)) = 200"
  shows "\<exists>cycle.
           resp_body (fst (cycle_start_POST env req db)) = OkCycle cycle \<and>
           sc_status cycle = ''collecting'' \<and> sc_tenant_id cycle = cs_tenantId req \<and>
           cs_json req = JsonValue (Some (sc_month cycle)) \<and>
           cycle \<in> set (service_cycles (snd (cycle_start_POST env req db))) \<and>
           cycle_tasks (snd (cycle_start_POST env req db))
             = cycle_tasks db @ default_task_rows (cs_uuid env) (sc_id cycle) (cs_tenantId req) \<and>
           filter (\<lambda>t. ct_service_cycle_id t = sc_id cycle)
                 (cycle_tasks (snd (cycle_start_POST env req db)))
             = filter (\<lambda>t. ct_service_cycle_id t = sc_id cycle) (cycle_tasks db)
               @ default_task_rows (cs_uuid env) (sc_id cycle) (cs_tenantId req) \<and>
           (\<not> list_ex (\<lambda>r. sc_tenant_id r = cs_tenantId req \<and> sc_month r = sc_month cycle)
                 (service_cycles db) \<and>
            list_all (\<lambda>t. ct_service_cycle_id t \<in> set (map sc_id (service_cycles db)))
                 (cycle_tasks db) \<longrightarrow>
            filter (\<lambda>t. ct_service_cycle_id t = sc_id cycle)
                 (cycle_tasks (snd (cycle_start_POST env req db)))
              = default_task_rows (cs_uuid env) (sc_id cycle) (cs_tenantId req))"
proof -
  from assms obtain month cycle db1 u db2 where
    j: "cs_json req = JsonValue (Some month)" and
    up: "upsert_service_cycle (cs_uuid env 0) (cs_tenantId req) month ''collecting'' db = Inr (cycle, db1)" and
    ins: "insert_cycle_tasks (default_task_rows (cs_uuid env) (sc_id cycle) (cs_tenantId req)) db1
       = Inr (u, db2)" and
    res: "cycle_start_POST env req db = (respond 200 (OkCycle cycle), db2)"
    by (rule cycle_start_200)
  note u = upsert_ok[OF up] and i = insert_tasks_ok[OF ins]
  have tasks: "cycle_tasks db2
      = cycle_tasks db @ default_task_rows (cs_uuid env) (sc_id cycle) (cs_tenantId req)"
    using u(5) i(1) by simp
  have fresh: "filter (\<lambda>t. ct_service_cycle_id t = sc_id cycle) (cycle_tasks db2)
              = default_task_rows (cs_uuid env) (sc_id cycle) (cs_tenantId req)"
    if "\<not> list_ex (\<lambda>r. sc_tenant_id r = cs_tenantId req \<and> sc_month r = sc_month cycle)
                 (service_cycles db)"
      "list_all (\<lambda>t. ct_service_cycle_id t \<in> set (map sc_id (service_cycles db)))
                 (cycle_tasks db)"
  proof -
    have "sc_id cycle \<notin> set (map sc_id (service_cycles db))"
      using upsert_fresh(1)[OF up] that(1) u(3) by simp
    from checklist_of_fresh_cycle[OF this that(2)] show ?thesis by (simp add: tasks)
  qed
  have appended: "filter (\<lambda>t. ct_service_cycle_id t = sc_id cycle) (cycle_tasks db2)
      = filter (\<lambda>t. ct_service_cycle_id t = sc_id cycle) (cycle_tasks db)
        @ default_task_rows (cs_uuid env) (sc_id cycle) (cs_tenantId req)"
    unfolding tasks by (rule checklist_appended)
  show ?thesis
    using j u(1,2,3,4) i(2) tasks fresh appended
    by (intro exI[of _ cycle]) (simp add: res respond_def)
qed

lemma cycle_start_not_200:
  assumes "resp_status (fst (cycle_start_POST env req db)) \<noteq> 200"
  shows "cycle_tasks (snd (cycle_start_POST env req db)) = cycle_tasks db"
proof -
  have "snd (cycle_start_POST env req db) = db \<or>
        (\<exists>month c. upsert_service_cycle (cs_uuid env 0) (cs_tenantId req) month ''collecting'' db
                      = Inr (c, snd (cycle_start_POST env req db)))"
    using assms
    by (auto simp: cycle_start_POST_def respond_def db_call_def
        split: sum.splits option.splits bool.splits request_json.splits prod.splits)
  then show ?thesis using upsert_ok(5) by metis
qed

lemma startCycle_success:
  assumes "upsert_service_cycle (uuid 0) tenantId thisMonth ''collecting'' db = Inr (cycle, db1)"
    and "insert_cycle_tasks (default_task_rows uuid (sc_id cycle) tenantId) db1 = Inr (u, db2)"
  shows "startCycle True thisMonth tenantId uuid None None (db, pg)
           = (db2, load tenantId db2 (pg\<lparr>startError := None, starting := False\<rparr>))"
    "sc_status cycle = ''collecting''" "sc_tenant_id cycle = tenantId" "sc_month cycle = thisMonth"
    "cycle \<in> set (service_cycles db2)"
    "cycle_tasks db2 = cycle_tasks db @ default_task_rows uuid (sc_id cycle) tenantId"
  using upsert_ok[OF assms(1)] insert_tasks_ok[OF assms(2)] assms
  by (simp_all add: startCycle_def db_call_def)

lemma startCycle_insert_fails:
  assumes "upsert_service_cycle (uuid 0) tenantId thisMonth ''collecting'' db = Inr (cycle, db1)"
    and "db_call f2 (insert_cycle_tasks (default_task_rows uuid (sc_id cycle) tenantId)) db1 = Inl e"
  shows "fst (startCycle True thisMonth tenantId uuid None f2 (db, pg)) = db1"
    "cycle_tasks db1 = cycle_tasks db"
  using assms upsert_ok(5)[OF assms(1)] by (simp_all add: startCycle_def db_call_def)

lemma startCycle_checklist:
  assumes "upsert_service_cycle (uuid 0) tenantId thisMonth ''collecting'' db = Inr (cycle, db1)"
    and "insert_cycle_tasks (default_task_rows uuid (sc_id cycle) tenantId) db1 = Inr (u, db2)"
  shows "filter (\<lambda>t. ct_service_cycle_id t = sc_id cycle) (cycle_tasks db2)
           = filter (\<lambda>t. ct_service_cycle_id t = sc_id cycle) (cycle_tasks db)
             @ default_task_rows uuid (sc_id cycle) tenantId"
    "\<not> list_ex (\<lambda>r. sc_tenant_id r = tenantId \<and> sc_month r = thisMonth) (service_cycles db) \<Longrightarrow>
     list_all (\<lambda>t. ct_service_cycle_id t \<in> set (map sc_id (service_cycles db))) (cycle_tasks db) \<Longrightarrow>
     filter (\<lambda>t. ct_service_cycle_id t = sc_id cycle) (cycle_tasks db2)
       = default_task_rows uuid (sc_id cycle) tenantId"
proof -
  have tasks: "cycle_tasks db2 = cycle_tasks db @ default_task_rows uuid (sc_id cycle) tenantId"
    using upsert_ok(5)[OF assms(1)] insert_tasks_ok(1)[OF assms(2)] by simp
  show "filter (\<lambda>t. ct_service_cycle_id t = sc_id cycle) (cycle_tasks db2)
           = filter (\<lambda>t. ct_service_cycle_id t = sc_id cycle) (cycle_tasks db)
             @ default_task_rows uuid (sc_id cycle) tenantId"
    unfolding tasks by (rule checklist_appended)
  show "filter (\<lambda>t. ct_service_cycle_id t = sc_id cycle) (cycle_tasks db2)
       = default_task_rows uuid (sc_id cycle) tenantId"
    if "\<not> list_ex (\<lambda>r. sc_tenant_id r = tenantId \<and> sc_month r = thisMonth) (service_cycles db)"
      "list_all (\<lambda>t. ct_service_cycle_id t \<in> set (map sc_id (service_cycles db))) (cycle_tasks db)"
  proof -
    have "sc_id cycle \<notin> set (map sc_id (service_cycles db))"
      using upsert_fresh(1)[OF assms(1) that(1)] .
    from checklist_of_fresh_cycle[OF this that(2)] show ?thesis by (simp add: tasks)
  qed
qed

lemma start_button_means_fresh:
  assumes "\<not> hasThisMonth thisMonth (enrichedCycles tid db)"
  shows "\<not> list_ex (\<lambda>r. sc_tenant_id r = tid \<and> sc_month r = thisMonth) (service_cycles db)"
proof
  assume "list_ex (\<lambda>r. sc_tenant_id r = tid \<and> sc_month r = thisMonth) (service_cycles db)"
  then obtain r where r: "r \<in> set (service_cycles db)" "sc_tenant_id r = tid" "sc_month r = thisMonth"
    by (auto simp: list_ex_iff)
  then have "r \<in> set (rev (sort_key sc_month (filter (\<lambda>c. sc_tenant_id c = tid) (service_cycles db))))"
    by simp
  then have "\<exists>c\<in>set (enrichedCycles tid db). cycle_month c = thisMonth"
    unfolding enrichedCycles_def using r(3) by (simp add: image_iff) blast
  then have "hasThisMonth thisMonth (enrichedCycles tid db)"
    unfolding hasThisMonth_def list_ex_iff using take_is_prefix by metis
  with assms show False by simp
qed

lemma demo_start_run:
  "cycle_start_POST demo_start_env (demo_start_request (Some ''s3cret'') ''2026-03-01'')
     (demo_db ''delivered'' ''done'')
   = (respond 200 (OkCycle \<lparr>sc_id = ''u'', sc_tenant_id = ''tn1'', sc_month = ''2026-03-01'',
                           sc_status = ''collecting''\<rparr>),
      (demo_db ''delivered'' ''done'')
        \<lparr>service_cycles := [demo_cycle_row ''delivered'',
            \<lparr>sc_id = ''u'', sc_tenant_id = ''tn1'', sc_month = ''2026-03-01'',
             sc_status = ''collecting''\<rparr>],
         cycle_tasks := demo_task_row ''done'' # default_task_rows demo_uuid ''u'' ''tn1''\<rparr>)"
  by (simp add: cycle_start_POST_def requireAdminToken_def demo_start_env_def
      demo_start_request_def payloadSchema_def date_shaped_def is_digit_def db_call_def
      upsert_service_cycle_def insert_cycle_tasks_def demo_db_def demo_cycle_row_def
      demo_tenant_def demo_task_row_def default_task_rows_eval demo_uuid_def Let_def
      eval_nat_numeral)

lemma demo_restart_run:
  "cycle_start_POST demo_start_env (demo_start_request (Some ''s3cret'') ''2026-02-01'')
     (demo_db ''delivered'' ''done'')
   = (respond 200 (OkCycle (demo_cycle_row ''collecting'')),
      (demo_db ''delivered'' ''done'')
        \<lparr>service_cycles := [demo_cycle_row ''collecting''],
         cycle_tasks := demo_task_row ''done'' # default_task_rows demo_uuid ''c1'' ''tn1''\<rparr>)"
  by (simp add: cycle_start_POST_def requireAdminToken_def demo_start_env_def
      demo_start_request_def payloadSchema_def date_shaped_def is_digit_def db_call_def
      upsert_service_cycle_def insert_cycle_tasks_def demo_db_def demo_cycle_row_def
      demo_tenant_def demo_task_row_def default_task_rows_eval demo_uuid_def Let_def
      eval_nat_numeral)

lemma demo_page_upsert:
  "upsert_service_cycle (demo_uuid 0) ''tn1'' ''2026-03-01'' ''collecting''
     (demo_db ''delivered'' ''done'')
   = Inr (\<lparr>sc_id = ''u'', sc_tenant_id = ''tn1'', sc_month = ''2026-03-01'',
            sc_status = ''collecting''\<rparr>,
          (demo_db ''delivered'' ''done'')
            \<lparr>service_cycles := [demo_cycle_row ''delivered'',
                \<lparr>sc_id = ''u'', sc_tenant_id = ''tn1'', sc_month = ''2026-03-01'',
                 sc_status = ''collecting''\<rparr>]\<rparr>)"
  by (simp add: upsert_service_cycle_def demo_db_def demo_cycle_row_def demo_tenant_def
      demo_uuid_def Let_def)

lemma demo_page_insert:
  "insert_cycle_tasks (default_task_rows demo_uuid ''u'' ''tn1'')
     ((demo_db ''delivered'' ''done'')
        \<lparr>service_cycles := [demo_cycle_row ''delivered'',
            \<lparr>sc_id = ''u'', sc_tenant_id = ''tn1'', sc_month = ''2026-03-01'',
             sc_status = ''collecting''\<rparr>]\<rparr>)
   = Inr ((), (demo_db ''delivered'' ''done'')
        \<lparr>service_cycles := [demo_cycle_row ''delivered'',
            \<lparr>sc_id = ''u'', sc_tenant_id = ''tn1'', sc_month = ''2026-03-01'',
             sc_status = ''collecting''\<rparr>],
         cycle_tasks := demo_task_row ''done'' # default_task_rows demo_uuid ''u'' ''tn1''\<rparr>)"
  by (simp add: insert_cycle_tasks_def demo_db_def demo_cycle_row_def
      demo_tenant_def demo_task_row_def default_task_rows_eval demo_uuid_def
      eval_nat_numeral)

text \<open>
  C3. The rows a cycle starter inserts are the eight default tasks, in order, each todo
  and linked to the cycle and the tenant. When \<^verbatim>\<open>POST /api/tenant/:tenantId/cycle/start\<close>
  answers 200, the cycle in its body has status collecting, belongs to the tenant, carries
  the requested month and is a row of \<^verbatim>\<open>service_cycles\<close>, and \<^verbatim>\<open>cycle_tasks\<close> has grown
  by exactly those eight rows: the cycle's checklist is the one it had before, followed
  by the eight. Where the tenant had no cycle for that month (and every task referred to
  an existing cycle) the checklist is exactly those eight rows. An answer other than 200
  leaves \<^verbatim>\<open>cycle_tasks\<close> as it was. \<^verbatim>\<open>startCycle\<close> of the tenant page does the same as
  the 200 answer when both of its database calls succeed, and then reloads the page;
  when its task insert fails after the upsert, the cycle stays and no task is added. The
  page shows its start button only when it lists no cycle for this month, and then the
  table has none for the tenant.
\<close>

theorem start_cycle_creates_checklist:
  "map ct_task_type (default_task_rows uuid cid tid)
     = [''Collect statements'', ''Review intake events'', ''Categorize transactions'',
        ''Reconcile to bank'', ''Run BVA and variances'', ''Generate report pack'',
        ''Send insight summary'', ''Schedule review call''] \<and>
   length (default_task_rows uuid cid tid) = 8 \<and>
   list_all (\<lambda>r. ct_status r = ''todo'' \<and> ct_service_cycle_id r = cid \<and> ct_tenant_id r = tid)
     (default_task_rows uuid cid tid) \<and>
   (resp_status (fst (cycle_start_POST env req db)) = 200 \<longrightarrow>
      (\<exists>cycle.
           resp_body (fst (cycle_start_POST env req db)) = OkCycle cycle \<and>
           sc_status cycle = ''collecting'' \<and> sc_tenant_id cycle = cs_tenantId req \<and>
           cs_json req = JsonValue (Some (sc_month cycle)) \<and>
           cycle \<in> set (service_cycles (snd (cycle_start_POST env req db))) \<and>
           cycle_tasks (snd (cycle_start_POST env req db))
             = cycle_tasks db @ default_task_rows (cs_uuid env) (sc_id cycle) (cs_tenantId req) \<and>
           filter (\<lambda>t. ct_service_cycle_id t = sc_id cycle)
                 (cycle_tasks (snd (cycle_start_POST env req db)))
             = filter (\<lambda>t. ct_service_cycle_id t = sc_id cycle) (cycle_tasks db)
               @ default_task_rows (cs_uuid env) (sc_id cycle) (cs_tenantId req) \<and>
           (\<not> list_ex (\<lambda>r. sc_tenant_id r = cs_tenantId req \<and> sc_month r = sc_month cycle)
                 (service_cycles db) \<and>
            list_all (\<lambda>t. ct_service_cycle_id t \<in> set (map sc_id (service_cycles db)))
                 (cycle_tasks db) \<longrightarrow>
            filter (\<lambda>t. ct_service_cycle_id t = sc_id cycle)
                 (cycle_tasks (snd (cycle_start_POST env req db)))
              = default_task_rows (cs_uuid env) (sc_id cycle) (cs_tenantId req)))) \<and>
   (resp_status (fst (cycle_start_POST env req db)) \<noteq> 200 \<longrightarrow>
      cycle_tasks (snd (cycle_start_POST env req db)) = cycle_tasks db) \<and>
   (upsert_service_cycle (uuid 0) tid thisMonth ''collecting'' db = Inr (c, db1) \<and>
    insert_cycle_tasks (default_task_rows uuid (sc_id c) tid) db1 = Inr (u, db2) \<longrightarrow>
      startCycle True thisMonth tid uuid None None (db, pg)
        = (db2, load tid db2 (pg\<lparr>startError := None, starting := False\<rparr>)) \<and>
      sc_status c = ''collecting'' \<and> sc_tenant_id c = tid \<and> sc_month c = thisMonth \<and>
      c \<in> set (service_cycles db2) \<and>
      cycle_tasks db2 = cycle_tasks db @ default_task_rows uuid (sc_id c) tid \<and>
      filter (\<lambda>t. ct_service_cycle_id t = sc_id c) (cycle_tasks db2)
        = filter (\<lambda>t. ct_service_cycle_id t = sc_id c) (cycle_tasks db)
          @ default_task_rows uuid (sc_id c) tid \<and>
      (\<not> list_ex (\<lambda>r. sc_tenant_id r = tid \<and> sc_month r = thisMonth) (service_cycles db) \<and>
       list_all (\<lambda>t. ct_service_cycle_id t \<in> set (map sc_id (service_cycles db)))
         (cycle_tasks db) \<longrightarrow>
       filter (\<lambda>t. ct_service_cycle_id t = sc_id c) (cycle_tasks db2)
         = default_task_rows uuid (sc_id c) tid)) \<and>
   (upsert_service_cycle (uuid 0) tid thisMonth ''collecting'' db = Inr (c, db1) \<and>
    db_call f2 (insert_cycle_tasks (default_task_rows uuid (sc_id c) tid)) db1 = Inl e \<longrightarrow>
      fst (startCycle True thisMonth tid uuid None f2 (db, pg)) = db1 \<and>
      cycle_tasks db1 = cycle_tasks db) \<and>
   (\<not> hasThisMonth thisMonth (enrichedCycles tid db) \<longrightarrow>
      \<not> list_ex (\<lambda>r. sc_tenant_id r = tid \<and> sc_month r = thisMonth) (service_cycles db))"
proof -
  have names: "map ct_task_type (default_task_rows uuid cid tid)
     = [''Collect statements'', ''Review intake events'', ''Categorize transactions'',
        ''Reconcile to bank'', ''Run BVA and variances'', ''Generate report pack'',
        ''Send insight summary'', ''Schedule review call'']"
    by (simp add: default_task_rows_facts(1) defaultTasks_def)
  have page: "startCycle True thisMonth tid uuid None None (db, pg)
        = (db2, load tid db2 (pg\<lparr>startError := None, starting := False\<rparr>)) \<and>
      sc_status c = ''collecting'' \<and> sc_tenant_id c = tid \<and> sc_month c = thisMonth \<and>
      c \<in> set (service_cycles db2) \<and>
      cycle_tasks db2 = cycle_tasks db @ default_task_rows uuid (sc_id c) tid \<and>
      filter (\<lambda>t. ct_service_cycle_id t = sc_id c) (cycle_tasks db2)
        = filter (\<lambda>t. ct_service_cycle_id t = sc_id c) (cycle_tasks db)
          @ default_task_rows uuid (sc_id c) tid \<and>
      (\<not> list_ex (\<lambda>r. sc_tenant_id r = tid \<and> sc_month r = thisMonth) (service_cycles db) \<and>
       list_all (\<lambda>t. ct_service_cycle_id t \<in> set (map sc_id (service_cycles db)))
         (cycle_tasks db) \<longrightarrow>
       filter (\<lambda>t. ct_service_cycle_id t = sc_id c) (cycle_tasks db2)
         = default_task_rows uuid (sc_id c) tid)"
    if up: "upsert_service_cycle (uuid 0) tid thisMonth ''collecting'' db = Inr (c, db1)"
      and ins: "insert_cycle_tasks (default_task_rows uuid (sc_id c) tid) db1 = Inr (u, db2)"
    using startCycle_success(1)[OF up ins, of pg] startCycle_success(2-6)[OF up ins]
      startCycle_checklist[OF up ins]
    by blast
  show ?thesis
    using names default_task_rows_facts(2,3)[where uuid=uuid and cid=cid and tid=tid]
      cycle_start_success[of env req db] cycle_start_not_200[of env req db] page
      startCycle_insert_fails(1)[where uuid=uuid and tenantId=tid and thisMonth=thisMonth
        and db=db and cycle=c and ?db1.0=db1 and ?f2.0=f2 and e=e and pg=pg]
      startCycle_insert_fails(2)[where uuid=uuid and tenantId=tid and thisMonth=thisMonth
        and db=db and cycle=c and ?db1.0=db1 and ?f2.0=f2 and e=e]
      start_button_means_fresh[of thisMonth tid db]
    by blast
qed

theorem start_cycle_creates_checklist_witness:
  "resp_status (fst (cycle_start_POST demo_start_env
                       (demo_start_request (Some ''s3cret'') ''2026-03-01'')
                       (demo_db ''delivered'' ''done''))) = 200 \<and>
   map sc_status (service_cycles (snd (cycle_start_POST demo_start_env
                       (demo_start_request (Some ''s3cret'') ''2026-03-01'')
                       (demo_db ''delivered'' ''done''))))
     = [''delivered'', ''collecting''] \<and>
   filter (\<lambda>t. ct_service_cycle_id t = ''u'')
     (cycle_tasks (snd (cycle_start_POST demo_start_env
                       (demo_start_request (Some ''s3cret'') ''2026-03-01'')
                       (demo_db ''delivered'' ''done''))))
     = default_task_rows demo_uuid ''u'' ''tn1'' \<and>
   \<not> hasThisMonth ''2026-03-01'' (cycles (demo_page ''delivered'' ''done'')) \<and>
   map sc_status (service_cycles (fst (startCycle True ''2026-03-01'' ''tn1'' demo_uuid None None
       (demo_db ''delivered'' ''done'', demo_page ''delivered'' ''done''))))
     = [''delivered'', ''collecting''] \<and>
   filter (\<lambda>t. ct_service_cycle_id t = ''u'')
     (cycle_tasks (fst (startCycle True ''2026-03-01'' ''tn1'' demo_uuid None None
       (demo_db ''delivered'' ''done'', demo_page ''delivered'' ''done''))))
     = default_task_rows demo_uuid ''u'' ''tn1''"
proof -
  let ?req = "demo_start_request (Some ''s3cret'') ''2026-03-01''"
  let ?db = "demo_db ''delivered'' ''done''"
  let ?pg = "demo_page ''delivered'' ''done''"
  let ?run = "cycle_start_POST demo_start_env ?req ?db"
  let ?c = "\<lparr>sc_id = ''u'', sc_tenant_id = ''tn1'', sc_month = ''2026-03-01'',
             sc_status = ''collecting''\<rparr>"
  let ?db1 = "?db\<lparr>service_cycles := [demo_cycle_row ''delivered'', ?c]\<rparr>"
  let ?db2 = "?db\<lparr>service_cycles := [demo_cycle_row ''delivered'', ?c],
                   cycle_tasks := demo_task_row ''done'' # default_task_rows demo_uuid ''u'' ''tn1''\<rparr>"
  have ok: "resp_status (fst ?run) = 200"
    by (simp only: demo_start_run) (simp add: respond_def)
  from start_cycle_creates_checklist[where env=demo_start_env and req="?req" and db="?db"] ok
  obtain cycle where body: "resp_body (fst ?run) = OkCycle cycle"
    and fresh: "\<not> list_ex (\<lambda>r. sc_tenant_id r = cs_tenantId ?req \<and> sc_month r = sc_month cycle)
                 (service_cycles ?db) \<and>
            list_all (\<lambda>t. ct_service_cycle_id t \<in> set (map sc_id (service_cycles ?db)))
                 (cycle_tasks ?db) \<longrightarrow>
            filter (\<lambda>t. ct_service_cycle_id t = sc_id cycle) (cycle_tasks (snd ?run))
              = default_task_rows (cs_uuid demo_start_env) (sc_id cycle) (cs_tenantId ?req)"
    by blast
  have cycle: "cycle = ?c"
    using body by (simp only: demo_start_run) (simp add: respond_def)
  have route: "filter (\<lambda>t. ct_service_cycle_id t = ''u'') (cycle_tasks (snd ?run))
          = default_task_rows demo_uuid ''u'' ''tn1''"
    using fresh
    by (simp add: cycle demo_db_def demo_cycle_row_def demo_task_row_def demo_start_request_def
        demo_start_env_def)
  have statuses: "map sc_status (service_cycles (snd ?run)) = [''delivered'', ''collecting'']"
    by (simp only: demo_start_run) (simp add: demo_cycle_row_def)
  have button: "\<not> hasThisMonth ''2026-03-01'' (cycles ?pg)"
    by (simp add: hasThisMonth_def demo_page_def demo_cycle_def)
  have up: "upsert_service_cycle (demo_uuid 0) ''tn1'' ''2026-03-01'' ''collecting'' ?db
              = Inr (?c, ?db1)"
    by (rule demo_page_upsert)
  have ins: "insert_cycle_tasks (default_task_rows demo_uuid (sc_id ?c) ''tn1'') ?db1
               = Inr ((), ?db2)"
    using demo_page_insert by simp
  have none: "\<not> list_ex (\<lambda>r. sc_tenant_id r = ''tn1'' \<and> sc_month r = ''2026-03-01'')
                  (service_cycles ?db)"
    by (simp add: demo_db_def demo_cycle_row_def)
  have refs: "list_all (\<lambda>t. ct_service_cycle_id t \<in> set (map sc_id (service_cycles ?db)))
                (cycle_tasks ?db)"
    by (simp add: demo_db_def demo_cycle_row_def demo_task_row_def)
  have "startCycle True ''2026-03-01'' ''tn1'' demo_uuid None None (?db, ?pg)
          = (?db2, load ''tn1'' ?db2 (?pg\<lparr>startError := None, starting := False\<rparr>)) \<and>
        filter (\<lambda>t. ct_service_cycle_id t = sc_id ?c) (cycle_tasks ?db2)
          = default_task_rows demo_uuid (sc_id ?c) ''tn1''"
    using start_cycle_creates_checklist[where uuid=demo_uuid and tid="''tn1''"
        and thisMonth="''2026-03-01''" and db="?db" and c="?c" and ?db1.0="?db1" and u="()"
        and ?db2.0="?db2" and pg="?pg"]
      up ins none refs
    by blast
  then have page: "fst (startCycle True ''2026-03-01'' ''tn1'' demo_uuid None None (?db, ?pg)) = ?db2"
    and list: "filter (\<lambda>t. ct_service_cycle_id t = ''u'') (cycle_tasks ?db2)
          = default_task_rows demo_uuid ''u'' ''tn1''"
    by simp_all
  have "map sc_status (service_cycles (fst (startCycle True ''2026-03-01'' ''tn1'' demo_uuid None None
       (?db, ?pg)))) = [''delivered'', ''collecting'']"
    unfolding page by (simp add: demo_cycle_row_def)
  moreover have "filter (\<lambda>t. ct_service_cycle_id t = ''u'')
     (cycle_tasks (fst (startCycle True ''2026-03-01'' ''tn1'' demo_uuid None None (?db, ?pg))))
     = default_task_rows demo_uuid ''u'' ''tn1''"
    unfolding page by (rule list)
  ultimately show ?thesis using ok statuses route button by blast
qed

text \<open>
  The February cycle of the demo tenant exists (delivered, one task done) and is started
  again through the route: the answer is 200, the table still has the one cycle, now
  collecting, and its checklist has nine tasks, the old one and the eight new ones.
\<close>

theorem start_cycle_restart_counterexample:
  "resp_status (fst (cycle_start_POST demo_start_env
                       (demo_start_request (Some ''s3cret'') ''2026-02-01'')
                       (demo_db ''delivered'' ''done''))) = 200 \<and>
   map sc_id (service_cycles (snd (cycle_start_POST demo_start_env
                       (demo_start_request (Some ''s3cret'') ''2026-02-01'')
                       (demo_db ''delivered'' ''done'')))) = [''c1''] \<and>
   map ct_service_cycle_id (cycle_tasks (snd (cycle_start_POST demo_start_env
                       (demo_start_request (Some ''s3cret'') ''2026-02-01'')
                       (demo_db ''delivered'' ''done''))))
     = [''c1'', ''c1'', ''c1'', ''c1'', ''c1'', ''c1'', ''c1'', ''c1'', ''c1''] \<and>
   map ct_status (cycle_tasks (snd (cycle_start_POST demo_start_env
                       (demo_start_request (Some ''s3cret'') ''2026-02-01'')
                       (demo_db ''delivered'' ''done''))))
     = [''done'', ''todo'', ''todo'', ''todo'', ''todo'', ''todo'', ''todo'', ''todo'', ''todo''] \<and>
   map ct_task_type (cycle_tasks (snd (cycle_start_POST demo_start_env
                       (demo_start_request (Some ''s3cret'') ''2026-02-01'')
                       (demo_db ''delivered'' ''done''))))
     = [''Collect statements'', ''Collect statements'', ''Review intake events'',
        ''Categorize transactions'', ''Reconcile to bank'', ''Run BVA and variances'',
        ''Generate report pack'', ''Send insight summary'', ''Schedule review call'']"
  by (simp only: demo_restart_run)
    (simp add: respond_def demo_cycle_row_def demo_task_row_def default_task_rows_eval)

subsection \<open>Token guards\<close>

lemma requireAdminToken_cases:
  "unset (DASHBOARD_ADMIN_TOKEN env) \<Longrightarrow>
     requireAdminToken env req = Inl ''Missing DASHBOARD_ADMIN_TOKEN.''"
  "\<not> unset (DASHBOARD_ADMIN_TOKEN env) \<Longrightarrow>
     requireAdminToken env req = Inr (x_admin_token req = DASHBOARD_ADMIN_TOKEN env)"
  by (auto simp: requireAdminToken_def unset_def split: option.splits)

lemma requireIntakeToken_cases:
  "unset (INTAKE_SHARED_SECRET env) \<Longrightarrow>
     requireIntakeToken env req = Inl ''Missing INTAKE_SHARED_SECRET.''"
  "\<not> unset (INTAKE_SHARED_SECRET env) \<Longrightarrow>
     requireIntakeToken env req = Inr (x_intake_token req = INTAKE_SHARED_SECRET env)"
  by (auto simp: requireIntakeToken_def unset_def split: option.splits)

lemma cycle_start_guard:
  "unset (DASHBOARD_ADMIN_TOKEN env) \<Longrightarrow>
     cycle_start_POST env req db = (respond 500 (ErrorBody ''Missing DASHBOARD_ADMIN_TOKEN.''), db)"
  "\<not> unset (DASHBOARD_ADMIN_TOKEN env) \<Longrightarrow> x_admin_token req \<noteq> DASHBOARD_ADMIN_TOKEN env \<Longrightarrow>
     cycle_start_POST env req db = (respond 401 (ErrorBody ''Unauthorized''), db)"
  by (simp_all add: cycle_start_POST_def requireAdminToken_cases)

lemma intake_guard:
  "unset (INTAKE_SHARED_SECRET env) \<Longrightarrow>
     intake_POST env req db = (respond 500 (ErrorBody ''Missing INTAKE_SHARED_SECRET.''), db)"
  "\<not> unset (INTAKE_SHARED_SECRET env) \<Longrightarrow> x_intake_token req \<noteq> INTAKE_SHARED_SECRET env \<Longrightarrow>
     intake_POST env req db = (respond 401 (ErrorBody ''Unauthorized''), db)"
  by (simp_all add: intake_POST_def requireIntakeToken_cases)

lemma cycle_start_write_needs_token:
  assumes "snd (cycle_start_POST env req db) \<noteq> db \<or> resp_status (fst (cycle_start_POST env req db)) = 200"
  shows "\<not> unset (DASHBOARD_ADMIN_TOKEN env) \<and> x_admin_token req = DASHBOARD_ADMIN_TOKEN env"
proof (rule ccontr)
  assume "\<not> ?thesis"
  then consider "unset (DASHBOARD_ADMIN_TOKEN env)"
    | "\<not> unset (DASHBOARD_ADMIN_TOKEN env)" "x_admin_token req \<noteq> DASHBOARD_ADMIN_TOKEN env"
    by blast
  then show False
    using assms by cases (simp_all add: cycle_start_guard respond_def)
qed

lemma intake_write_needs_token:
  assumes "snd (intake_POST env req db) \<noteq> db \<or> resp_status (fst (intake_POST env req db)) = 200"
  shows "\<not> unset (INTAKE_SHARED_SECRET env) \<and> x_intake_token req = INTAKE_SHARED_SECRET env"
proof (rule ccontr)
  assume "\<not> ?thesis"
  then consider "unset (INTAKE_SHARED_SECRET env)"
    | "\<not> unset (INTAKE_SHARED_SECRET env)" "x_intake_token req \<noteq> INTAKE_SHARED_SECRET env"
    by blast
  then show False
    using assms by cases (simp_all add: intake_guard respond_def)
qed

text \<open>
  C9. The cycle-start route answers 500 when \<^verbatim>\<open>DASHBOARD_ADMIN_TOKEN\<close> is unset (or
  empty) and 401 when the \<^verbatim>\<open>x-admin-token\<close> header is not exactly that token, in both
  cases leaving the database as it was; so it writes, or answers 200, only for a request
  whose header equals the token. The intake route does the same with
  \<^verbatim>\<open>INTAKE_SHARED_SECRET\<close> and \<^verbatim>\<open>x-intake-token\<close>.
\<close>

theorem token_guards_reject_before_write:
  "(unset (DASHBOARD_ADMIN_TOKEN cenv) \<longrightarrow>
      resp_status (fst (cycle_start_POST cenv creq db)) = 500 \<and>
      snd (cycle_start_POST cenv creq db) = db) \<and>
   (\<not> unset (DASHBOARD_ADMIN_TOKEN cenv) \<and> x_admin_token creq \<noteq> DASHBOARD_ADMIN_TOKEN cenv \<longrightarrow>
      resp_status (fst (cycle_start_POST cenv creq db)) = 401 \<and>
      snd (cycle_start_POST cenv creq db) = db) \<and>
   (snd (cycle_start_POST cenv creq db) \<noteq> db \<or>
    resp_status (fst (cycle_start_POST cenv creq db)) = 200 \<longrightarrow>
      \<not> unset (DASHBOARD_ADMIN_TOKEN cenv) \<and> x_admin_token creq = DASHBOARD_ADMIN_TOKEN cenv) \<and>
   (unset (INTAKE_SHARED_SECRET ienv) \<longrightarrow>
      resp_status (fst (intake_POST ienv ireq db)) = 500 \<and>
      snd (intake_POST ienv ireq db) = db) \<and>
   (\<not> unset (INTAKE_SHARED_SECRET ienv) \<and> x_intake_token ireq \<noteq> INTAKE_SHARED_SECRET ienv \<longrightarrow>
      resp_status (fst (intake_POST ienv ireq db)) = 401 \<and>
      snd (intake_POST ienv ireq db) = db) \<and>
   (snd (intake_POST ienv ireq db) \<noteq> db \<or>
    resp_status (fst (intake_POST ienv ireq db)) = 200 \<longrightarrow>
      \<not> unset (INTAKE_SHARED_SECRET ienv) \<and> x_intake_token ireq = INTAKE_SHARED_SECRET ienv)"
proof -
  have c500: "resp_status (fst (cycle_start_POST cenv creq db)) = 500 \<and>
      snd (cycle_start_POST cenv creq db) = db" if "unset (DASHBOARD_ADMIN_TOKEN cenv)"
    by (simp add: cycle_start_guard(1)[OF that] respond_def)
  have c401: "resp_status (fst (cycle_start_POST cenv creq db)) = 401 \<and>
      snd (cycle_start_POST cenv creq db) = db"
    if "\<not> unset (DASHBOARD_ADMIN_TOKEN cenv)" "x_admin_token creq \<noteq> DASHBOARD_ADMIN_TOKEN cenv"
    by (simp add: cycle_start_guard(2)[OF that] respond_def)
  have i500: "resp_status (fst (intake_POST ienv ireq db)) = 500 \<and>
      snd (intake_POST ienv ireq db) = db" if "unset (INTAKE_SHARED_SECRET ienv)"
    by (simp add: intake_guard(1)[OF that] respond_def)
  have i401: "resp_status (fst (intake_POST ienv ireq db)) = 401 \<and>
      snd (intake_POST ienv ireq db) = db"
    if "\<not> unset (INTAKE_SHARED_SECRET ienv)" "x_intake_token ireq \<noteq> INTAKE_SHARED_SECRET ienv"
    by (simp add: intake_guard(2)[OF that] respond_def)
  show ?thesis
    using c500 c401 i500 i401 cycle_start_write_needs_token[of cenv creq db]
      intake_write_needs_token[of ienv ireq db]
    by blast
qed

theorem token_guards_reject_before_write_witness:
  "unset (DASHBOARD_ADMIN_TOKEN (demo_start_env\<lparr>DASHBOARD_ADMIN_TOKEN := None\<rparr>)) \<and>
   resp_status (fst (cycle_start_POST (demo_start_env\<lparr>DASHBOARD_ADMIN_TOKEN := None\<rparr>)
                       (demo_start_request None ''2026-03-01'') (demo_db ''delivered'' ''done'')))
     = 500 \<and>
   \<not> unset (DASHBOARD_ADMIN_TOKEN demo_start_env) \<and>
   x_admin_token (demo_start_request (Some ''s3cre'') ''2026-03-01'')
     \<noteq> DASHBOARD_ADMIN_TOKEN demo_start_env \<and>
   cycle_start_POST demo_start_env (demo_start_request (Some ''s3cre'') ''2026-03-01'')
       (demo_db ''delivered'' ''done'')
     = (respond 401 (ErrorBody ''Unauthorized''), demo_db ''delivered'' ''done'') \<and>
   \<not> unset (INTAKE_SHARED_SECRET (demo_intake_env (Some ''shared''))) \<and>
   x_intake_token (demo_intake_request None) \<noteq> INTAKE_SHARED_SECRET (demo_intake_env (Some ''shared'')) \<and>
   resp_status (fst (intake_POST (demo_intake_env (Some ''shared'')) (demo_intake_request None)
                       (demo_db ''delivered'' ''done''))) = 401 \<and>
   intake_events (snd (intake_POST (demo_intake_env (Some ''shared'')) (demo_intake_request None)
                       (demo_db ''delivered'' ''done''))) = []"
proof -
  let ?db = "demo_db ''delivered'' ''done''"
  let ?e0 = "demo_start_env\<lparr>DASHBOARD_ADMIN_TOKEN := None\<rparr>"
  let ?r0 = "demo_start_request None ''2026-03-01''"
  let ?r1 = "demo_start_request (Some ''s3cre'') ''2026-03-01''"
  let ?ie = "demo_intake_env (Some ''shared'')"
  let ?ir = "demo_intake_request None"
  have h0: "unset (DASHBOARD_ADMIN_TOKEN ?e0)" by (simp add: unset_def)
  have h1: "\<not> unset (DASHBOARD_ADMIN_TOKEN demo_start_env)"
    "x_admin_token ?r1 \<noteq> DASHBOARD_ADMIN_TOKEN demo_start_env"
    by (simp_all add: unset_def demo_start_env_def demo_start_request_def)
  have h2: "\<not> unset (INTAKE_SHARED_SECRET ?ie)" "x_intake_token ?ir \<noteq> INTAKE_SHARED_SECRET ?ie"
    by (simp_all add: unset_def demo_intake_env_def demo_intake_request_def)
  have a: "resp_status (fst (cycle_start_POST ?e0 ?r0 ?db)) = 500"
    using token_guards_reject_before_write[of ?e0 ?r0 ?db] h0 by blast
  have b: "resp_status (fst (cycle_start_POST demo_start_env ?r1 ?db)) = 401 \<and>
           snd (cycle_start_POST demo_start_env ?r1 ?db) = ?db"
    using token_guards_reject_before_write[of demo_start_env ?r1 ?db] h1 by blast
  have b': "cycle_start_POST demo_start_env ?r1 ?db = (respond 401 (ErrorBody ''Unauthorized''), ?db)"
    using h1 by (rule cycle_start_guard(2))
  have c: "resp_status (fst (intake_POST ?ie ?ir ?db)) = 401 \<and> snd (intake_POST ?ie ?ir ?db) = ?db"
    using token_guards_reject_before_write[of _ _ ?db ?ie ?ir] h2 by blast
  then have d: "intake_events (snd (intake_POST ?ie ?ir ?db)) = []"
    by (simp add: demo_db_def)
  show ?thesis using h0 h1 h2 a b' c d by blast
qed

subsection \<open>Creating a tenant\<close>

lemma insert_tenant_ok:
  assumes "insert_tenant row db = Inr (tenant, db1)"
  shows "tenant = row" "tn_id row \<notin> set (map tn_id (tenants db))"
    "db1 = db\<lparr>tenants := tenants db @ [row]\<rparr>"
  using assms by (auto simp: insert_tenant_def split: if_splits)

lemma insert_tenant_user_ok:
  assumes "insert_tenant_user row db = Inr (u, db1)"
  shows "db1 = db\<lparr>tenant_users := tenant_users db @ [row]\<rparr>"
  using assms by (auto simp: insert_tenant_user_def split: if_splits)

lemma filter_new_key:
  "a \<notin> set (map k xs) \<Longrightarrow> filter (\<lambda>r. k r \<noteq> a) (xs @ [x]) = xs @ (if k x \<noteq> a then [x] else [])"
  by (induction xs) auto

lemma rollback_tenants:
  assumes "tn_id row \<notin> set (map tn_id (tenants db))"
  shows "tenants (delete_tenant (tn_id row) (db\<lparr>tenants := tenants db @ [row]\<rparr>)) = tenants db"
  using filter_new_key[OF assms, of row] by (simp add: delete_tenant_def Let_def)

lemma rollback_tenant_users:
  "tenant_users (delete_tenant a (db\<lparr>tenants := ts\<rparr>))
     = filter (\<lambda>r. tu_tenant_id r \<noteq> a) (tenant_users db)"
  by (simp add: delete_tenant_def Let_def)

lemma db_call_cases:
  "db_call fault call db = Inr r \<longleftrightarrow> fault = None \<and> call db = Inr r"
  "db_call (Some e) call db = Inl e"
  "db_call None call db = call db"
  by (simp_all add: db_call_def split: option.splits)

lemma create_outcomes:
  obtains (tenant_failed) e where
      "create_tenant_with_owner env user d db = (respond 500 (ErrorBody e), db)"
  | (rolled_back) e row where
      "row = \<lparr>tn_id = tn_uuid env 0, tn_name = pt_name d, tn_package_tier = pt_package_tier d,
              tn_niche = or_null (pt_niche d), tn_timezone = or_null (pt_timezone d),
              tn_currency = or_null (pt_currency d)\<rparr>"
      "tn_id row \<notin> set (map tn_id (tenants db))"
      "db_call (tn_member_fault env)
         (insert_tenant_user \<lparr>tu_id = tn_uuid env 1, tu_tenant_id = tn_id row,
                              tu_user_id = user, tu_role = ''owner''\<rparr>)
         (db\<lparr>tenants := tenants db @ [row]\<rparr>) = Inl e"
      "tn_delete_fault env = None"
      "create_tenant_with_owner env user d db
         = (respond 500 (ErrorBody e),
            delete_tenant (tn_id row) (db\<lparr>tenants := tenants db @ [row]\<rparr>))"
  | (rollback_failed) e e' row where
      "row = \<lparr>tn_id = tn_uuid env 0, tn_name = pt_name d, tn_package_tier = pt_package_tier d,
              tn_niche = or_null (pt_niche d), tn_timezone = or_null (pt_timezone d),
              tn_currency = or_null (pt_currency d)\<rparr>"
      "tn_id row \<notin> set (map tn_id (tenants db))"
      "tn_delete_fault env = Some e'"
      "create_tenant_with_owner env user d db
         = (respond 500 (ErrorBody e), db\<lparr>tenants := tenants db @ [row]\<rparr>)"
  | (created) row m where
      "row = \<lparr>tn_id = tn_uuid env 0, tn_name = pt_name d, tn_package_tier = pt_package_tier d,
              tn_niche = or_null (pt_niche d), tn_timezone = or_null (pt_timezone d),
              tn_currency = or_null (pt_currency d)\<rparr>"
      "m = \<lparr>tu_id = tn_uuid env 1, tu_tenant_id = tn_id row, tu_user_id = user, tu_role = ''owner''\<rparr>"
      "tn_member_fault env = None"
      "create_tenant_with_owner env user d db
         = (respond 200 (OkTenant row),
            db\<lparr>tenants := tenants db @ [row], tenant_users := tenant_users db @ [m]\<rparr>)"
proof -
  let ?row = "\<lparr>tn_id = tn_uuid env 0, tn_name = pt_name d, tn_package_tier = pt_package_tier d,
              tn_niche = or_null (pt_niche d), tn_timezone = or_null (pt_timezone d),
              tn_currency = or_null (pt_currency d)\<rparr>"
  let ?m = "\<lparr>tu_id = tn_uuid env 1, tu_tenant_id = tn_id ?row, tu_user_id = user, tu_role = ''owner''\<rparr>"
  show thesis
  proof (cases "db_call (tn_tenant_fault env) (insert_tenant ?row) db")
    case (Inl e)
    then show ?thesis by (intro tenant_failed[of e]) (simp add: create_tenant_with_owner_def)
  next
    case (Inr p)
    obtain tenant db1 where p: "p = (tenant, db1)" by (cases p)
    from Inr p have ins: "insert_tenant ?row db = Inr (tenant, db1)"
      by (simp add: db_call_cases(1))
    note ok = insert_tenant_ok[OF ins]
    show ?thesis
    proof (cases "db_call (tn_member_fault env) (insert_tenant_user ?m) db1")
      case (Inl e)
      show ?thesis
      proof (cases "tn_delete_fault env")
        case None
        show ?thesis
        proof (rule rolled_back[of ?row e])
          show "tn_id ?row \<notin> set (map tn_id (tenants db))" using ok(2) .
          show "db_call (tn_member_fault env) (insert_tenant_user ?m) (db\<lparr>tenants := tenants db @ [?row]\<rparr>) = Inl e"
            using Inl ok(3) by simp
          show "create_tenant_with_owner env user d db
           = (respond 500 (ErrorBody e),
              delete_tenant (tn_id ?row) (db\<lparr>tenants := tenants db @ [?row]\<rparr>))"
            using Inr p Inl ok(1,3) None
            by (simp add: create_tenant_with_owner_def db_call_cases(3))
        qed (simp_all add: None)
      next
        case (Some e')
        show ?thesis
        proof (rule rollback_failed[of ?row e' e])
          show "tn_id ?row \<notin> set (map tn_id (tenants db))" using ok(2) .
          show "create_tenant_with_owner env user d db
           = (respond 500 (ErrorBody e), db\<lparr>tenants := tenants db @ [?row]\<rparr>)"
            using Inr p Inl ok(1,3) Some
            by (simp add: create_tenant_with_owner_def db_call_cases(2))
        qed (simp_all add: Some)
      qed
    next
      case (Inr q)
      obtain u db2 where q: "q = (u, db2)" by (cases q)
      from Inr q have f: "tn_member_fault env = None" and
        im: "insert_tenant_user ?m db1 = Inr (u, db2)"
        by (simp_all add: db_call_cases(1))
      have db2: "db2 = db\<lparr>tenants := tenants db @ [?row], tenant_users := tenant_users db @ [?m]\<rparr>"
        using insert_tenant_user_ok[OF im] ok(3) by simp
      show ?thesis
      proof (rule created[of ?row ?m])
        show "create_tenant_with_owner env user d db
          = (respond 200 (OkTenant ?row),
             db\<lparr>tenants := tenants db @ [?row], tenant_users := tenant_users db @ [?m]\<rparr>)"
          using \<open>db_call (tn_tenant_fault env) (insert_tenant ?row) db = Inr p\<close> p Inr q ok(1) db2
          by (simp add: create_tenant_with_owner_def)
      qed (simp_all add: f)
    qed
  qed
qed

lemma checks_reject_status:
  "tenants_POST_checks env req = Inl r \<Longrightarrow> resp_status r \<noteq> 200"
  by (auto simp: tenants_POST_checks_def respond_def
      split: option.splits if_splits request_json.splits)

lemma create_not_200:
  assumes "resp_status (fst (create_tenant_with_owner env user d db)) \<noteq> 200"
  shows "tn_delete_fault env = None \<Longrightarrow>
           tenants (snd (create_tenant_with_owner env user d db)) = tenants db"
    "set (tenant_users (snd (create_tenant_with_owner env user d db))) \<subseteq> set (tenant_users db)"
proof -
  have "(tn_delete_fault env = None \<longrightarrow>
           tenants (snd (create_tenant_with_owner env user d db)) = tenants db) \<and>
    set (tenant_users (snd (create_tenant_with_owner env user d db))) \<subseteq> set (tenant_users db)"
  proof (cases rule: create_outcomes[of env user d db])
    case (tenant_failed e)
    then show ?thesis by simp
  next
    case (rolled_back e row)
    then show ?thesis
      using rollback_tenants[OF rolled_back(2)] by (simp add: rollback_tenant_users)
  next
    case (rollback_failed e e' row)
    then show ?thesis by simp
  next
    case (created row m)
    then show ?thesis using assms by (simp add: respond_def)
  qed
  then show "tn_delete_fault env = None \<Longrightarrow>
           tenants (snd (create_tenant_with_owner env user d db)) = tenants db"
    "set (tenant_users (snd (create_tenant_with_owner env user d db))) \<subseteq> set (tenant_users db)"
    by simp_all
qed

lemma create_200:
  assumes "resp_status (fst (create_tenant_with_owner env user d db)) = 200"
  shows "\<exists>tenant m.
           resp_body (fst (create_tenant_with_owner env user d db)) = OkTenant tenant \<and>
           tenants (snd (create_tenant_with_owner env user d db)) = tenants db @ [tenant] \<and>
           tenant_users (snd (create_tenant_with_owner env user d db)) = tenant_users db @ [m] \<and>
           tu_tenant_id m = tn_id tenant \<and> tu_user_id m = user \<and> tu_role m = ''owner''"
proof (cases rule: create_outcomes[of env user d db])
  case (tenant_failed e)
  then show ?thesis using assms by (simp add: respond_def)
next
  case (rolled_back e row)
  then show ?thesis using assms by (simp add: respond_def)
next
  case (rollback_failed e e' row)
  then show ?thesis using assms by (simp add: respond_def)
next
  case (created row m)
  show ?thesis
    by (intro exI[of _ row] exI[of _ m]) (simp add: created(4) respond_def, simp add: created(2))
qed

lemma member_insert_fails:
  assumes "tenants_POST_checks env req = Inr (user, d)"
    and "db_call (tn_tenant_fault env)
           (insert_tenant \<lparr>tn_id = tn_uuid env 0, tn_name = pt_name d,
                 tn_package_tier = pt_package_tier d, tn_niche = or_null (pt_niche d),
                 tn_timezone = or_null (pt_timezone d),
                 tn_currency = or_null (pt_currency d)\<rparr>) db = Inr (tenant, db1)"
    and "db_call (tn_member_fault env)
           (insert_tenant_user \<lparr>tu_id = tn_uuid env 1, tu_tenant_id = tn_id tenant,
                      tu_user_id = user, tu_role = ''owner''\<rparr>) db1 = Inl e"
  shows "fst (tenants_POST env req db) = respond 500 (ErrorBody e)"
    "tn_delete_fault env = None \<Longrightarrow>
       snd (tenants_POST env req db) = delete_tenant (tn_id tenant) db1"
    "tn_delete_fault env \<noteq> None \<Longrightarrow> snd (tenants_POST env req db) = db1"
    "tenant \<in> set (tenants db1)"
    "tenants db1 = tenants db @ [tenant]"
    "tenant_users db1 = tenant_users db"
    "tenants (delete_tenant (tn_id tenant) db1) = tenants db"
    "list_all (\<lambda>m. tu_tenant_id m \<noteq> tn_id tenant) (tenant_users (delete_tenant (tn_id tenant) db1))"
proof -
  show "fst (tenants_POST env req db) = respond 500 (ErrorBody e)"
    using assms by (simp add: tenants_POST_def create_tenant_with_owner_def)
  show "tn_delete_fault env = None \<Longrightarrow>
       snd (tenants_POST env req db) = delete_tenant (tn_id tenant) db1"
    using assms by (simp add: tenants_POST_def create_tenant_with_owner_def db_call_cases(3))
  show "tn_delete_fault env \<noteq> None \<Longrightarrow> snd (tenants_POST env req db) = db1"
    using assms
    by (auto simp: tenants_POST_def create_tenant_with_owner_def db_call_cases(2))
  from assms(2) have ins: "insert_tenant \<lparr>tn_id = tn_uuid env 0, tn_name = pt_name d,
                 tn_package_tier = pt_package_tier d, tn_niche = or_null (pt_niche d),
                 tn_timezone = or_null (pt_timezone d),
                 tn_currency = or_null (pt_currency d)\<rparr> db = Inr (tenant, db1)"
    by (simp add: db_call_cases(1))
  note ok = insert_tenant_ok[OF ins]
  show "tenant \<in> set (tenants db1)" using ok(1,3) by simp
  show "tenants db1 = tenants db @ [tenant]" using ok(1,3) by simp
  show "tenant_users db1 = tenant_users db" using ok(3) by simp
  show "tenants (delete_tenant (tn_id tenant) db1) = tenants db"
    using rollback_tenants[OF ok(2)] ok(1,3) by simp
  show "list_all (\<lambda>m. tu_tenant_id m \<noteq> tn_id tenant) (tenant_users (delete_tenant (tn_id tenant) db1))"
    by (simp add: delete_tenant_def Let_def list_all_iff)
qed

lemma tenants_POST_not_200:
  assumes "resp_status (fst (tenants_POST env req db)) \<noteq> 200"
  shows "(tn_delete_fault env = None \<longrightarrow> tenants (snd (tenants_POST env req db)) = tenants db) \<and>
         set (tenant_users (snd (tenants_POST env req db))) \<subseteq> set (tenant_users db)"
proof (cases "tenants_POST_checks env req")
  case (Inl r)
  then show ?thesis by (simp add: tenants_POST_def)
next
  case (Inr p)
  obtain user d where p: "p = (user, d)" by (cases p)
  have eq: "tenants_POST env req db = create_tenant_with_owner env user d db"
    using Inr p by (simp add: tenants_POST_def)
  show ?thesis using create_not_200[of env user d db] assms by (simp add: eq)
qed

lemma tenants_POST_200:
  assumes "resp_status (fst (tenants_POST env req db)) = 200"
  shows "\<exists>tenant m.
           resp_body (fst (tenants_POST env req db)) = OkTenant tenant \<and>
           tenants (snd (tenants_POST env req db)) = tenants db @ [tenant] \<and>
           tenant_users (snd (tenants_POST env req db)) = tenant_users db @ [m] \<and>
           tu_tenant_id m = tn_id tenant \<and> tu_role m = ''owner''"
proof (cases "tenants_POST_checks env req")
  case (Inl r)
  then show ?thesis using assms checks_reject_status[OF Inl] by (simp add: tenants_POST_def)
next
  case (Inr p)
  obtain user d where p: "p = (user, d)" by (cases p)
  have eq: "tenants_POST env req db = create_tenant_with_owner env user d db"
    using Inr p by (simp add: tenants_POST_def)
  show ?thesis using create_200[of env user d db] assms unfolding eq by blast
qed

lemma demo_tenants_checks:
  "tenants_POST_checks (demo_tenants_env mf df) demo_tenants_request
     = Inr (''ann'', \<lparr>pt_name = ''Corner Bakery'', pt_package_tier = ''foundation'',
                      pt_niche = [], pt_timezone = [], pt_currency = ''USD''\<rparr>)"
  by (simp add: tenants_POST_checks_def demo_tenants_env_def demo_tenants_request_def
      unset_def createTenantSchema_def optional_default_def)

lemma demo_tenant_insert:
  "db_call (tn_tenant_fault (demo_tenants_env mf df))
      (insert_tenant \<lparr>tn_id = tn_uuid (demo_tenants_env mf df) 0, tn_name = ''Corner Bakery'',
                       tn_package_tier = ''foundation'', tn_niche = or_null [],
                       tn_timezone = or_null [], tn_currency = or_null ''USD''\<rparr>)
      (demo_db ''delivered'' ''done'')
     = Inr (\<lparr>tn_id = ''u'', tn_name = ''Corner Bakery'', tn_package_tier = ''foundation'',
              tn_niche = None, tn_timezone = None, tn_currency = Some ''USD''\<rparr>,
            (demo_db ''delivered'' ''done'')
              \<lparr>tenants := [demo_tenant,
                  \<lparr>tn_id = ''u'', tn_name = ''Corner Bakery'', tn_package_tier = ''foundation'',
                   tn_niche = None, tn_timezone = None, tn_currency = Some ''USD''\<rparr>]\<rparr>)"
  by (simp add: db_call_def insert_tenant_def demo_tenants_env_def demo_uuid_def or_null_def
      demo_db_def demo_tenant_def)

text \<open>
  C8. When \<^verbatim>\<open>POST /api/tenants\<close> has passed its checks and inserted the tenant row, and
  the insert of the owner membership then fails with error \<open>e\<close>, the handler answers 500
  with \<open>e\<close> and issues the delete of the tenant row. When the delete takes effect the
  database is the one with the tenant deleted again: the tenants table is what it was
  before the request and no membership of the new tenant exists. The result of the delete
  is not looked at: when it fails, the answer is the same and the database keeps the
  tenant row. So a request that is not answered 200 adds no membership, and leaves the
  tenants table as it was whenever the rollback delete cannot fail; a request answered
  200 has added one tenant and its owner membership.
\<close>

theorem tenant_creation_rolls_back:
  "(tenants_POST_checks env req = Inr (user, d) \<and>
    db_call (tn_tenant_fault env)
      (insert_tenant \<lparr>tn_id = tn_uuid env 0, tn_name = pt_name d,
                       tn_package_tier = pt_package_tier d, tn_niche = or_null (pt_niche d),
                       tn_timezone = or_null (pt_timezone d),
                       tn_currency = or_null (pt_currency d)\<rparr>) db = Inr (tenant, db1) \<and>
    db_call (tn_member_fault env)
      (insert_tenant_user \<lparr>tu_id = tn_uuid env 1, tu_tenant_id = tn_id tenant,
                            tu_user_id = user, tu_role = ''owner''\<rparr>) db1 = Inl e \<longrightarrow>
      fst (tenants_POST env req db) = respond 500 (ErrorBody e) \<and>
      tenants db1 = tenants db @ [tenant] \<and>
      tenant_users db1 = tenant_users db \<and>
      (tn_delete_fault env = None \<longrightarrow>
         snd (tenants_POST env req db) = delete_tenant (tn_id tenant) db1 \<and>
         tenants (delete_tenant (tn_id tenant) db1) = tenants db \<and>
         list_all (\<lambda>m. tu_tenant_id m \<noteq> tn_id tenant)
           (tenant_users (delete_tenant (tn_id tenant) db1))) \<and>
      (tn_delete_fault env \<noteq> None \<longrightarrow> snd (tenants_POST env req db) = db1)) \<and>
   (resp_status (fst (tenants_POST env req db)) \<noteq> 200 \<longrightarrow>
      (tn_delete_fault env = None \<longrightarrow> tenants (snd (tenants_POST env req db)) = tenants db) \<and>
      set (tenant_users (snd (tenants_POST env req db))) \<subseteq> set (tenant_users db)) \<and>
   (resp_status (fst (tenants_POST env req db)) = 200 \<longrightarrow>
      (\<exists>t m. resp_body (fst (tenants_POST env req db)) = OkTenant t \<and>
             tenants (snd (tenants_POST env req db)) = tenants db @ [t] \<and>
             tenant_users (snd (tenants_POST env req db)) = tenant_users db @ [m] \<and>
             tu_tenant_id m = tn_id t \<and> tu_role m = ''owner''))"
  using member_insert_fails[of env req user d db tenant db1 e] tenants_POST_not_200[of env req db]
    tenants_POST_200[of env req db]
  by blast

theorem tenant_creation_rolls_back_witness:
  "tenants_POST_checks (demo_tenants_env (Some ''connection reset'') None) demo_tenants_request
     = Inr (''ann'', \<lparr>pt_name = ''Corner Bakery'', pt_package_tier = ''foundation'',
                      pt_niche = [], pt_timezone = [], pt_currency = ''USD''\<rparr>) \<and>
   tenants_POST (demo_tenants_env (Some ''connection reset'') None) demo_tenants_request
       (demo_db ''delivered'' ''done'')
     = (respond 500 (ErrorBody ''connection reset''), demo_db ''delivered'' ''done'') \<and>
   resp_status (fst (tenants_POST (demo_tenants_env None None) demo_tenants_request
                       (demo_db ''delivered'' ''done''))) = 200 \<and>
   map tn_name (tenants (snd (tenants_POST (demo_tenants_env None None) demo_tenants_request
                                (demo_db ''delivered'' ''done''))))
     = [''Demo Salon'', ''Corner Bakery''] \<and>
   map tu_role (tenant_users (snd (tenants_POST (demo_tenants_env None None) demo_tenants_request
                                     (demo_db ''delivered'' ''done''))))
     = [''owner'']"
proof -
  let ?env = "demo_tenants_env (Some ''connection reset'') None"
  let ?db = "demo_db ''delivered'' ''done''"
  let ?d = "\<lparr>pt_name = ''Corner Bakery'', pt_package_tier = ''foundation'',
             pt_niche = [], pt_timezone = [], pt_currency = ''USD''\<rparr>"
  let ?row = "\<lparr>tn_id = ''u'', tn_name = ''Corner Bakery'', tn_package_tier = ''foundation'',
               tn_niche = None, tn_timezone = None, tn_currency = Some ''USD''\<rparr>"
  let ?db1 = "?db\<lparr>tenants := [demo_tenant, ?row]\<rparr>"
  have checks: "tenants_POST_checks ?env demo_tenants_request = Inr (''ann'', ?d)"
    by (rule demo_tenants_checks)
  have ins: "db_call (tn_tenant_fault ?env)
      (insert_tenant \<lparr>tn_id = tn_uuid ?env 0, tn_name = pt_name ?d,
                       tn_package_tier = pt_package_tier ?d, tn_niche = or_null (pt_niche ?d),
                       tn_timezone = or_null (pt_timezone ?d),
                       tn_currency = or_null (pt_currency ?d)\<rparr>) ?db = Inr (?row, ?db1)"
    using demo_tenant_insert[of "Some ''connection reset''" None] by simp
  have mem: "db_call (tn_member_fault ?env)
      (insert_tenant_user \<lparr>tu_id = tn_uuid ?env 1, tu_tenant_id = tn_id ?row,
                            tu_user_id = ''ann'', tu_role = ''owner''\<rparr>) ?db1
        = Inl ''connection reset''"
    by (simp add: db_call_def demo_tenants_env_def)
  have nofault: "tn_delete_fault ?env = None"
    by (simp add: demo_tenants_env_def)
  have "fst (tenants_POST ?env demo_tenants_request ?db)
          = respond 500 (ErrorBody ''connection reset'') \<and>
        snd (tenants_POST ?env demo_tenants_request ?db) = delete_tenant (tn_id ?row) ?db1"
    using tenant_creation_rolls_back[of ?env demo_tenants_request "''ann''" ?d ?db ?row ?db1
        "''connection reset''"] checks ins mem nofault
    by blast
  moreover have "delete_tenant (tn_id ?row) ?db1 = ?db"
    by (simp add: delete_tenant_def demo_db_def demo_tenant_def demo_cycle_row_def
        demo_task_row_def)
  ultimately have rolled: "tenants_POST ?env demo_tenants_request ?db
          = (respond 500 (ErrorBody ''connection reset''), ?db)"
    by (simp add: prod_eq_iff)
  have created: "tenants_POST (demo_tenants_env None None) demo_tenants_request ?db
      = (respond 200 (OkTenant ?row),
         ?db\<lparr>tenants := [demo_tenant, ?row],
              tenant_users := [\<lparr>tu_id = ''uu'', tu_tenant_id = ''u'', tu_user_id = ''ann'',
                                tu_role = ''owner''\<rparr>]\<rparr>)"
    by (simp add: tenants_POST_def tenants_POST_checks_def demo_tenants_env_def
        demo_tenants_request_def unset_def createTenantSchema_def optional_default_def
        create_tenant_with_owner_def db_call_def insert_tenant_def insert_tenant_user_def
        demo_uuid_def or_null_def demo_db_def demo_tenant_def)
  show ?thesis
    using checks rolled by (simp add: created respond_def demo_tenant_def)
qed

text \<open>
  The request of the witness, with the membership insert and the rollback delete both
  failing: the answer is 500 and the tenants table has gained the row \<open>Corner Bakery\<close>,
  with no membership for it.
\<close>

theorem tenant_rollback_fails_counterexample:
  "resp_status (fst (tenants_POST
       (demo_tenants_env (Some ''connection reset'') (Some ''connection reset''))
       demo_tenants_request (demo_db ''delivered'' ''done''))) = 500 \<and>
   map tn_name (tenants (snd (tenants_POST
       (demo_tenants_env (Some ''connection reset'') (Some ''connection reset''))
       demo_tenants_request (demo_db ''delivered'' ''done''))))
     = [''Demo Salon'', ''Corner Bakery''] \<and>
   map tn_name (tenants (demo_db ''delivered'' ''done'')) = [''Demo Salon''] \<and>
   tenant_users (snd (tenants_POST
       (demo_tenants_env (Some ''connection reset'') (Some ''connection reset''))
       demo_tenants_request (demo_db ''delivered'' ''done''))) = []"
  by (simp add: tenants_POST_def tenants_POST_checks_def demo_tenants_env_def
      demo_tenants_request_def unset_def createTenantSchema_def optional_default_def
      create_tenant_with_owner_def db_call_def insert_tenant_def insert_tenant_user_def
      demo_uuid_def or_null_def demo_db_def demo_tenant_def respond_def)

subsection \<open>Row-level security of the tenant-scoped tables\<close>

lemma on_table_drop:
  "filter (\<lambda>p. pol_table p = t) (drop_policy n t' ps)
     = (if t = t' then filter (\<lambda>p. pol_name p \<noteq> n) (filter (\<lambda>p. pol_table p = t) ps)
        else filter (\<lambda>p. pol_table p = t) ps)"
  by (induction ps) (auto simp: drop_policy_def)

lemma on_table_create:
  "filter (\<lambda>p. pol_table p = t) (create_policy p ps)
     = filter (\<lambda>p. pol_table p = t) ps @ (if pol_table p = t then [p] else [])"
  by (simp add: create_policy_def)

lemma on_table_member_policies_other:
  assumes "t \<noteq> t'"
  shows "filter (\<lambda>p. pol_table p = t) (create_member_policies t' col ps)
           = filter (\<lambda>p. pol_table p = t) ps"
  using assms
  by (simp add: create_member_policies_def member_policies_def on_table_create on_table_drop)

lemma on_table_member_policies_fresh:
  assumes "filter (\<lambda>p. pol_table p = t) ps = []"
  shows "filter (\<lambda>p. pol_table p = t) (create_member_policies t col ps) = member_policies t col"
  using assms
  by (simp add: create_member_policies_def member_policies_def on_table_create on_table_drop)

lemma on_table_member_policies_again:
  assumes "filter (\<lambda>p. pol_table p = t) ps = member_policies t col"
  shows "filter (\<lambda>p. pol_table p = t) (create_member_policies t col ps) = member_policies t col"
  using assms
  by (simp add: create_member_policies_def member_policies_def on_table_create on_table_drop)

lemma on_table_fold:
  assumes "filter (\<lambda>p. pol_table p = t) ps = [] \<or>
           filter (\<lambda>p. pol_table p = t) ps = member_policies t col"
  shows "filter (\<lambda>p. pol_table p = t) (fold (\<lambda>t'. create_member_policies t' col) ts ps)
           = (if t \<in> set ts then member_policies t col else filter (\<lambda>p. pol_table p = t) ps)"
  using assms
proof (induction ts arbitrary: ps)
  case Nil
  then show ?case by simp
next
  case (Cons a ts)
  show ?case
  proof (cases "t = a")
    case True
    have step: "filter (\<lambda>p. pol_table p = t) (create_member_policies a col ps) = member_policies t col"
      using Cons.prems True on_table_member_policies_fresh on_table_member_policies_again by blast
    show ?thesis
      using Cons.IH[of "create_member_policies a col ps"] step True by simp
  next
    case False
    have step: "filter (\<lambda>p. pol_table p = t) (create_member_policies a col ps)
                  = filter (\<lambda>p. pol_table p = t) ps"
      using False by (rule on_table_member_policies_other)
    show ?thesis
      using Cons.IH[of "create_member_policies a col ps"] Cons.prems step False by simp
  qed
qed

lemma scoped_not_core:
  "t \<in> set tenant_scoped_tables \<Longrightarrow> t \<noteq> ''tenants'' \<and> t \<noteq> ''tenant_users''"
  by (auto simp: tenant_scoped_tables_def)

lemma scoped_rls_enabled: "t \<in> set tenant_scoped_tables \<Longrightarrow> t \<in> set rls_enabled_tables"
  by (auto simp: tenant_scoped_tables_def rls_enabled_tables_def)

lemma policies_of_scoped_table:
  assumes "t \<in> set tenant_scoped_tables"
  shows "filter (\<lambda>p. pol_table p = t) schema_policies = member_policies t ''tenant_id''"
proof -
  let ?base = "create_policy
          \<lparr>pol_name = ''tenant_users_select_self'', pol_table = ''tenant_users'',
           pol_command = SELECT, pol_using = Some (equals_auth_uid ''user_id''),
           pol_with_check = None\<rparr>
          (drop_policy ''tenant_users_select_self'' ''tenant_users''
             (create_policy
                \<lparr>pol_name = ''tenants_select_member'', pol_table = ''tenants'',
                 pol_command = SELECT, pol_using = Some (is_member_of ''id''),
                 pol_with_check = None\<rparr>
                (drop_policy ''tenants_select_member'' ''tenants'' [])))"
  have "filter (\<lambda>p. pol_table p = t) ?base = []"
    using scoped_not_core[OF assms] by (auto simp: create_policy_def drop_policy_def)
  then show ?thesis
    using on_table_fold[of t ?base "''tenant_id''" tenant_scoped_tables] assms
    by (simp add: schema_policies_def)
qed

lemma member_iff_links:
  "is_tenant_member tus uid (r ''tenant_id'') \<longleftrightarrow> membership_links tus uid r"
  by (auto simp: is_tenant_member_def membership_links_def list_ex_iff split: option.splits)

lemma permits_scoped:
  assumes "t \<in> set tenant_scoped_tables"
  shows "rls_permits schema_policies tus uid t SELECT old new \<longleftrightarrow> membership_links tus uid old"
    "rls_permits schema_policies tus uid t INSERT old new \<longleftrightarrow> membership_links tus uid new"
    "rls_permits schema_policies tus uid t UPDATE old new \<longleftrightarrow>
       membership_links tus uid old \<and> membership_links tus uid new"
    "rls_permits schema_policies tus uid t DELETE old new \<longleftrightarrow> membership_links tus uid old"
  using scoped_rls_enabled[OF assms]
  by (simp_all add: rls_permits_def policies_of_scoped_table[OF assms] member_policies_def
      using_holds_def check_holds_def policy_holds_def member_iff_links)

text \<open>
  C5. On every tenant-scoped table the policies let a user select or delete a row, or
  insert a row, exactly when a \<^verbatim>\<open>tenant_users\<close> row links the user to the row's
  \<^verbatim>\<open>tenant_id\<close>; an update is let through exactly when that holds for the row as it is
  and as it would become (so, for an update that keeps \<^verbatim>\<open>tenant_id\<close>, exactly when it
  holds for the row). Hence a user who shares no tenant with another user is refused
  every command on any row the other user is linked to.
\<close>

theorem tenant_scoped_rows_by_membership:
  "t \<in> set tenant_scoped_tables \<longrightarrow>
     (rls_permits schema_policies tus uid t SELECT r other \<longleftrightarrow> membership_links tus uid r) \<and>
     (rls_permits schema_policies tus uid t INSERT other r \<longleftrightarrow> membership_links tus uid r) \<and>
     (rls_permits schema_policies tus uid t DELETE r other \<longleftrightarrow> membership_links tus uid r) \<and>
     (rls_permits schema_policies tus uid t UPDATE r r' \<longleftrightarrow>
        membership_links tus uid r \<and> membership_links tus uid r') \<and>
     (r' ''tenant_id'' = r ''tenant_id'' \<longrightarrow>
        (rls_permits schema_policies tus uid t UPDATE r r' \<longleftrightarrow> membership_links tus uid r)) \<and>
     (membership_links tus (Some u1) r \<and>
      \<not> (\<exists>a\<in>set tus. \<exists>b\<in>set tus.
            tu_user_id a = u1 \<and> tu_user_id b = u2 \<and> tu_tenant_id a = tu_tenant_id b) \<longrightarrow>
        \<not> rls_permits schema_policies tus (Some u2) t SELECT r other \<and>
        \<not> rls_permits schema_policies tus (Some u2) t INSERT other r \<and>
        \<not> rls_permits schema_policies tus (Some u2) t DELETE r other \<and>
        \<not> rls_permits schema_policies tus (Some u2) t UPDATE r r' \<and>
        \<not> rls_permits schema_policies tus (Some u2) t UPDATE other r)"
proof
  assume t: "t \<in> set tenant_scoped_tables"
  have same: "membership_links tus uid r' \<longleftrightarrow> membership_links tus uid r"
    if "r' ''tenant_id'' = r ''tenant_id''"
    using that by (simp add: membership_links_def)
  have apart: "\<not> membership_links tus (Some u2) r"
    if "membership_links tus (Some u1) r"
      "\<not> (\<exists>a\<in>set tus. \<exists>b\<in>set tus.
            tu_user_id a = u1 \<and> tu_user_id b = u2 \<and> tu_tenant_id a = tu_tenant_id b)"
    using that unfolding membership_links_def by (metis option.inject)
  show "(rls_permits schema_policies tus uid t SELECT r other \<longleftrightarrow> membership_links tus uid r) \<and>
     (rls_permits schema_policies tus uid t INSERT other r \<longleftrightarrow> membership_links tus uid r) \<and>
     (rls_permits schema_policies tus uid t DELETE r other \<longleftrightarrow> membership_links tus uid r) \<and>
     (rls_permits schema_policies tus uid t UPDATE r r' \<longleftrightarrow>
        membership_links tus uid r \<and> membership_links tus uid r') \<and>
     (r' ''tenant_id'' = r ''tenant_id'' \<longrightarrow>
        (rls_permits schema_policies tus uid t UPDATE r r' \<longleftrightarrow> membership_links tus uid r)) \<and>
     (membership_links tus (Some u1) r \<and>
      \<not> (\<exists>a\<in>set tus. \<exists>b\<in>set tus.
            tu_user_id a = u1 \<and> tu_user_id b = u2 \<and> tu_tenant_id a = tu_tenant_id b) \<longrightarrow>
        \<not> rls_permits schema_policies tus (Some u2) t SELECT r other \<and>
        \<not> rls_permits schema_policies tus (Some u2) t INSERT other r \<and>
        \<not> rls_permits schema_policies tus (Some u2) t DELETE r other \<and>
        \<not> rls_permits schema_policies tus (Some u2) t UPDATE r r' \<and>
        \<not> rls_permits schema_policies tus (Some u2) t UPDATE other r)"
    using same apart by (simp add: permits_scoped[OF t])
qed

theorem tenant_scoped_rows_by_membership_witness:
  "''transactions'' \<in> set tenant_scoped_tables \<and>
   membership_links demo_members (Some ''ann'') (demo_row ''tn1'') \<and>
   \<not> (\<exists>a\<in>set demo_members. \<exists>b\<in>set demo_members.
         tu_user_id a = ''ann'' \<and> tu_user_id b = ''bob'' \<and> tu_tenant_id a = tu_tenant_id b) \<and>
   rls_permits schema_policies demo_members (Some ''ann'') ''transactions'' SELECT
     (demo_row ''tn1'') (demo_row ''tn1'') \<and>
   \<not> rls_permits schema_policies demo_members (Some ''bob'') ''transactions'' SELECT
       (demo_row ''tn1'') (demo_row ''tn1'') \<and>
   \<not> rls_permits schema_policies demo_members (Some ''bob'') ''transactions'' UPDATE
       (demo_row ''tn2'') (demo_row ''tn1'')"
proof -
  have t: "''transactions'' \<in> set tenant_scoped_tables"
    by (simp add: tenant_scoped_tables_def)
  have ann: "membership_links demo_members (Some ''ann'') (demo_row ''tn1'')"
    by (simp add: membership_links_def demo_members_def demo_row_def)
  have apart: "\<not> (\<exists>a\<in>set demo_members. \<exists>b\<in>set demo_members.
         tu_user_id a = ''ann'' \<and> tu_user_id b = ''bob'' \<and> tu_tenant_id a = tu_tenant_id b)"
    by (simp add: demo_members_def)
  show ?thesis
    using tenant_scoped_rows_by_membership[of "''transactions''" demo_members "Some ''ann''"
        "demo_row ''tn1''" "demo_row ''tn1''" "demo_row ''tn1''" "''ann''" "''bob''"]
      tenant_scoped_rows_by_membership[of "''transactions''" demo_members "Some ''bob''"
        "demo_row ''tn1''" "demo_row ''tn2''" "demo_row ''tn1''" "''ann''" "''bob''"]
      t ann apart
    by blast
qed

subsection \<open>CSV export of the transactions page\<close>

lemma double_quotes_simps:
  "double_quotes [] = []"
  "double_quotes (c # s) = (if c = CHR 0x22 then [CHR 0x22, CHR 0x22] else [c]) @ double_quotes s"
  by (simp_all add: double_quotes_def)

lemma undouble_plain: "c \<noteq> CHR 0x22 \<Longrightarrow> undouble_quotes (c # xs) = c # undouble_quotes xs"
  by (cases xs) simp_all

lemma undouble_double: "undouble_quotes (double_quotes s) = s"
  by (induction s) (simp_all add: double_quotes_simps undouble_plain)

lemma catMap_none:
  "catMap categories k = None \<longleftrightarrow> \<not> list_ex (\<lambda>c. category_id c = k) categories"
  by (auto simp: catMap_def map_of_eq_None_iff list_ex_iff image_iff)

lemma catMap_some:
  "catMap categories k = Some c \<Longrightarrow> c \<in> set categories \<and> category_id c = k"
  by (auto simp: catMap_def dest: map_of_SomeD)

lemma rows_shape:
  "length (exportCSV_rows String categories shown) = Suc (length shown)"
  "hd (exportCSV_rows String categories shown) = csv_header"
  "tl (exportCSV_rows String categories shown) = map (csv_row String categories) shown"
  "i < length shown \<Longrightarrow>
     exportCSV_rows String categories shown ! Suc i = csv_row String categories (shown ! i)"
  by (simp_all add: exportCSV_rows_def)

lemma demo_export:
  "exportCSV (\<lambda>x. if x = 120 then ''120'' else ''-1200'') demo_categories demo_txs
     = ''Date,Description,Category,Amount,Entity,Status'' @ [CHR 0x0A] @
       ''2026-02-05,'' @ [CHR 0x22] @ ''Rent '' @ [CHR 0x22, CHR 0x22] @ ''A'' @
          [CHR 0x22, CHR 0x22, CHR 0x22] @ '',Facilities,-1200,ENT-003,Paid'' @ [CHR 0x0A] @
       ''2026-02-10,'' @ [CHR 0x22] @ ''Lash set'' @ [CHR 0x22] @ '',9999,120,,Planned''"
  by (simp add: exportCSV_def exportCSV_rows_def csv_header_def csv_row_def demo_txs_def
      demo_categories_def catMap_def double_quotes_def)

text \<open>
  C7. The export has the header row Date, Description, Category, Amount, Entity, Status
  followed by one row per transaction of the filtered list, in its order (the filtered
  list being the transactions that pass the filters, in the page's order); the text is
  the rows joined by commas and the lines by line feeds. In a transaction's row the
  description is wrapped in double quotes with each of its double quotes doubled (so
  that halving the pairs gives the description back), the category cell is the name of
  the category with the transaction's \<^verbatim>\<open>category_id\<close> and the raw id when there is none,
  and the entity cell is empty for a null \<^verbatim>\<open>entity_id\<close>.
\<close>

theorem exportCSV_rows_and_cells:
  "hd (exportCSV_rows String categories shown)
     = [''Date'', ''Description'', ''Category'', ''Amount'', ''Entity'', ''Status''] \<and>
   length (exportCSV_rows String categories shown) = Suc (length shown) \<and>
   tl (exportCSV_rows String categories shown) = map (csv_row String categories) shown \<and>
   (i < length shown \<longrightarrow>
      exportCSV_rows String categories shown ! Suc i = csv_row String categories (shown ! i)) \<and>
   exportCSV String categories shown
     = join [CHR 0x0A] (map (join '','') (exportCSV_rows String categories shown)) \<and>
   length (csv_row String categories t) = 6 \<and>
   csv_row String categories t ! 0 = t_date t \<and>
   csv_row String categories t ! 1 = [CHR 0x22] @ double_quotes (t_description t) @ [CHR 0x22] \<and>
   double_quotes [] = [] \<and>
   double_quotes (ch # s)
     = (if ch = CHR 0x22 then [CHR 0x22, CHR 0x22] else [ch]) @ double_quotes s \<and>
   undouble_quotes (double_quotes s) = s \<and>
   (\<not> list_ex (\<lambda>c. category_id c = t_category_id t) categories \<longrightarrow>
      csv_row String categories t ! 2 = t_category_id t) \<and>
   (catMap categories (t_category_id t) = Some c \<longrightarrow>
      csv_row String categories t ! 2 = category_name c \<and> c \<in> set categories \<and>
      category_id c = t_category_id t) \<and>
   csv_row String categories t ! 3 = String (t_amount t) \<and>
   (t_entity_id t = None \<longrightarrow> csv_row String categories t ! 4 = []) \<and>
   (t_entity_id t = Some e \<longrightarrow> csv_row String categories t ! 4 = e) \<and>
   csv_row String categories t ! 5 = t_status t \<and>
   subseq (filtered toLowerCase statusFilter search categories txs) txs \<and>
   tl (exportCSV_rows String categories
         (filtered toLowerCase statusFilter search categories txs))
     = map (csv_row String categories)
         (filtered toLowerCase statusFilter search categories txs)"
proof -
  have sub: "subseq (filtered toLowerCase statusFilter search categories txs) txs"
    by (simp add: filtered_def)
  have cat_none: "csv_row String categories t ! 2 = t_category_id t"
    if "\<not> list_ex (\<lambda>c. category_id c = t_category_id t) categories"
    using that catMap_none[of categories "t_category_id t"] by (simp add: csv_row_def)
  have cat_some: "csv_row String categories t ! 2 = category_name c \<and> c \<in> set categories \<and>
      category_id c = t_category_id t"
    if "catMap categories (t_category_id t) = Some c"
    using that catMap_some[OF that] by (simp add: csv_row_def)
  have cells: "length (csv_row String categories t) = 6"
    "csv_row String categories t ! 0 = t_date t"
    "csv_row String categories t ! 1 = [CHR 0x22] @ double_quotes (t_description t) @ [CHR 0x22]"
    "csv_row String categories t ! 3 = String (t_amount t)"
    "t_entity_id t = None \<longrightarrow> csv_row String categories t ! 4 = []"
    "t_entity_id t = Some e \<longrightarrow> csv_row String categories t ! 4 = e"
    "csv_row String categories t ! 5 = t_status t"
    by (simp_all add: csv_row_def)
  have head: "hd (exportCSV_rows String categories shown)
     = [''Date'', ''Description'', ''Category'', ''Amount'', ''Entity'', ''Status'']"
    by (simp add: rows_shape csv_header_def)
  show ?thesis
    using head rows_shape(1,3)[of String categories shown]
      rows_shape(4)[of i shown String categories] cells cat_none cat_some
      double_quotes_simps undouble_double exportCSV_def sub
      rows_shape(3)[of String categories "filtered toLowerCase statusFilter search categories txs"]
    by (intro conjI) fast+
qed

theorem exportCSV_rows_and_cells_witness:
  "\<not> list_ex (\<lambda>c. category_id c = t_category_id (demo_txs ! 1)) demo_categories \<and>
   t_entity_id (demo_txs ! 1) = None \<and>
   csv_row (\<lambda>x. if x = 120 then ''120'' else ''-1200'') demo_categories (demo_txs ! 1) ! 2
     = ''9999'' \<and>
   csv_row (\<lambda>x. if x = 120 then ''120'' else ''-1200'') demo_categories (demo_txs ! 1) ! 4 = [] \<and>
   exportCSV (\<lambda>x. if x = 120 then ''120'' else ''-1200'') demo_categories demo_txs
     = ''Date,Description,Category,Amount,Entity,Status'' @ [CHR 0x0A] @
       ''2026-02-05,'' @ [CHR 0x22] @ ''Rent '' @ [CHR 0x22, CHR 0x22] @ ''A'' @
          [CHR 0x22, CHR 0x22, CHR 0x22] @ '',Facilities,-1200,ENT-003,Paid'' @ [CHR 0x0A] @
       ''2026-02-10,'' @ [CHR 0x22] @ ''Lash set'' @ [CHR 0x22] @ '',9999,120,,Planned''"
proof -
  let ?S = "\<lambda>x::real. if x = 120 then ''120'' else ''-1200''"
  let ?t = "demo_txs ! 1"
  have h1: "\<not> list_ex (\<lambda>c. category_id c = t_category_id ?t) demo_categories"
    by (simp add: demo_txs_def demo_categories_def)
  have h2: "t_entity_id ?t = None"
    by (simp add: demo_txs_def)
  have "csv_row ?S demo_categories ?t ! 2 = t_category_id ?t"
    using exportCSV_rows_and_cells[where String="?S" and categories=demo_categories and t="?t"] h1
    by blast
  then have c2: "csv_row ?S demo_categories ?t ! 2 = ''9999''"
    by (simp add: demo_txs_def)
  have c4: "csv_row ?S demo_categories ?t ! 4 = []"
    using exportCSV_rows_and_cells[where String="?S" and categories=demo_categories and t="?t"] h2
    by blast
  show ?thesis using h1 h2 c2 c4 demo_export by blast
qed

subsection \<open>The intake status flow\<close>

lemma list_all2_map_self:
  "(\<And>x. x \<in> set xs \<Longrightarrow> R x (f x)) \<Longrightarrow> list_all2 R xs (map f xs)"
  by (induction xs) auto

lemma rows_moved_same: "rows_moved rel rows rows"
  by (simp add: rows_moved_def list_all2_same)

lemma rows_moved_arrival: "ie_status r = ''new'' \<Longrightarrow> rows_moved rel rows (rows @ [r])"
  by (simp add: rows_moved_def list_all2_same)

lemma rows_moved_update:
  assumes "\<And>r. r \<in> set rows \<Longrightarrow> ie_id r = i \<Longrightarrow> rel (ie_status r) s"
  shows "rows_moved rel rows (map (\<lambda>r. if ie_id r = i then r\<lparr>ie_status := s\<rparr> else r) rows)"
proof -
  have "list_all2 (\<lambda>r r'. r' = r \<or> (r' = r\<lparr>ie_status := ie_status r'\<rparr> \<and>
                                    rel (ie_status r) (ie_status r')))
          rows (map (\<lambda>r. if ie_id r = i then r\<lparr>ie_status := s\<rparr> else r) rows)"
    by (rule list_all2_map_self) (simp add: assms)
  then show ?thesis by (simp add: rows_moved_def)
qed

lemma key_status_unique:
  assumes "distinct (map ie_id rows)"
    and "list_ex (\<lambda>r. ie_id r = i \<and> ie_status r = s) rows"
    and "r \<in> set rows" "ie_id r = i"
  shows "ie_status r = s"
proof -
  from assms(2) obtain r0 where r0: "r0 \<in> set rows" "ie_id r0 = i" "ie_status r0 = s"
    by (auto simp: list_ex_iff)
  have "inj_on ie_id (set rows)" using assms(1) by (simp add: distinct_map)
  moreover have "ie_id r = ie_id r0" using assms(4) r0(2) by simp
  ultimately have "r = r0" using assms(3) r0(1) by (rule inj_onD)
  then show ?thesis using r0(3) by simp
qed

lemma ids_after_update:
  "map ie_id (map (\<lambda>r. if ie_id r = i then r\<lparr>ie_status := s\<rparr> else r) rows) = map ie_id rows"
  by (induction rows) auto

lemma row_after_update:
  assumes "list_ex (\<lambda>r. ie_id r = j \<and> ie_status r = t) rows"
  shows "list_ex (\<lambda>r. ie_id r = j \<and> ie_status r = (if j = i then s else t))
           (map (\<lambda>r. if ie_id r = i then r\<lparr>ie_status := s\<rparr> else r) rows)"
  using assms by (induction rows) auto


lemma coherentI:
  assumes "distinct (map ie_id (intake_events db))"
    and "\<And>e. e \<in> set (intake pg) \<Longrightarrow>
           list_ex (\<lambda>r. ie_id r = ev_id e \<and> ie_status r = ev_status e) (intake_events db)"
    and "\<And>i. txForm pg = Some i \<Longrightarrow>
           list_ex (\<lambda>r. ie_id r = i \<and> ie_status r = ''categorized'') (intake_events db)"
  shows "intake_coherent (db, pg)"
  using assms by (simp add: intake_coherent_def list_all_iff split: option.splits)

lemma coherentD:
  assumes "intake_coherent (db, pg)"
  shows "distinct (map ie_id (intake_events db))"
    and "e \<in> set (intake pg) \<Longrightarrow>
           list_ex (\<lambda>r. ie_id r = ev_id e \<and> ie_status r = ev_status e) (intake_events db)"
    and "txForm pg = Some i \<Longrightarrow>
           list_ex (\<lambda>r. ie_id r = i \<and> ie_status r = ''categorized'') (intake_events db)"
  using assms by (simp_all add: intake_coherent_def list_all_iff split: option.splits)

lemma event_after_update:
  assumes "e' \<in> set (map (\<lambda>e. if ev_id e = i then e\<lparr>ev_status := s\<rparr> else e) es)"
  shows "\<exists>e\<in>set es. ev_id e' = ev_id e \<and> ev_status e' = (if ev_id e = i then s else ev_status e)"
  using assms by (induction es) (auto split: if_splits)

lemma coherent_update:
  assumes coh: "intake_coherent (db, pg)"
    and form: "\<And>j. form' = Some j \<Longrightarrow> txForm pg = Some j \<and> (j = i \<longrightarrow> s = ''categorized'')"
    and pg': "intake pg' = map (\<lambda>e. if ev_id e = i then e\<lparr>ev_status := s\<rparr> else e) (intake pg)"
      "txForm pg' = form'"
    and db': "intake_events db' = map (\<lambda>r. if ie_id r = i then r\<lparr>ie_status := s\<rparr> else r) (intake_events db)"
  shows "intake_coherent (db', pg')"
proof (rule coherentI)
  show "distinct (map ie_id (intake_events db'))"
    unfolding db' ids_after_update by (rule coherentD(1)[OF coh])
  show "list_ex (\<lambda>r. ie_id r = ev_id e' \<and> ie_status r = ev_status e') (intake_events db')"
    if "e' \<in> set (intake pg')" for e'
  proof -
    from that obtain e where e: "e \<in> set (intake pg)" "ev_id e' = ev_id e"
      "ev_status e' = (if ev_id e = i then s else ev_status e)"
      using event_after_update[of e' i s "intake pg"] by (auto simp: pg')
    from row_after_update[OF coherentD(2)[OF coh e(1)], of i s] show ?thesis
      by (simp add: db' e(2,3))
  qed
  show "list_ex (\<lambda>r. ie_id r = j \<and> ie_status r = ''categorized'') (intake_events db')"
    if "txForm pg' = Some j" for j
  proof -
    from that form[of j] have f: "txForm pg = Some j" "j = i \<longrightarrow> s = ''categorized''"
      by (simp_all add: pg')
    from row_after_update[OF coherentD(3)[OF coh f(1)], of i s] f(2) show ?thesis
      by (auto simp: db')
  qed
qed

lemma coherent_cong:
  assumes "intake_events db' = intake_events db" "intake pg' = intake pg" "txForm pg' = txForm pg"
  shows "intake_coherent (db', pg') = intake_coherent (db, pg)"
  by (simp add: intake_coherent_def assms split: option.splits)

lemma step_mark:
  assumes coh: "intake_coherent (db, pg)" and e: "e \<in> set (intake pg)" "ev_status e = ''new''"
  shows "uf = None \<Longrightarrow>
           intake_coherent (handleIntakeStatusChange sb uf (ev_id e) ''categorized'' (db, pg))"
    "rows_moved forward_move (intake_events db)
       (intake_events (fst (handleIntakeStatusChange sb uf (ev_id e) ''categorized'' (db, pg))))"
proof -
  show "intake_coherent (handleIntakeStatusChange sb uf (ev_id e) ''categorized'' (db, pg))"
    if uf: "uf = None"
  proof (cases sb)
    case False
    then show ?thesis using coh by (simp add: handleIntakeStatusChange_def)
  next
    case True
    have "intake_coherent (update_intake_event_status (ev_id e) ''categorized'' db,
            pg\<lparr>intake := map (\<lambda>x. if ev_id x = ev_id e then x\<lparr>ev_status := ''categorized''\<rparr> else x)
                     (intake pg)\<rparr>)"
      by (rule coherent_update[OF coh, where form'="txForm pg" and i="ev_id e" and s="''categorized''"])
         (simp_all add: update_intake_event_status_def)
    then show ?thesis using True uf by (simp add: handleIntakeStatusChange_def result_dropped_def)
  qed
  have new: "ie_status r = ''new''" if "r \<in> set (intake_events db)" "ie_id r = ev_id e" for r
    using key_status_unique[OF coherentD(1)[OF coh] coherentD(2)[OF coh e(1)] that] e(2) by simp
  have "rows_moved forward_move (intake_events db)
          (map (\<lambda>r. if ie_id r = ev_id e then r\<lparr>ie_status := ''categorized''\<rparr> else r)
             (intake_events db))"
    by (rule rows_moved_update) (simp add: new forward_move_def)
  then show "rows_moved forward_move (intake_events db)
       (intake_events (fst (handleIntakeStatusChange sb uf (ev_id e) ''categorized'' (db, pg))))"
    by (cases sb; cases uf)
      (simp_all add: handleIntakeStatusChange_def update_intake_event_status_def result_dropped_def
        rows_moved_same)
qed

lemma submit_outcomes:
  obtains (kept) pg' where
      "submitTransaction sb tid js nid fault uf i (db, pg) = (db, pg')"
      "intake pg' = intake pg" "txForm pg' = txForm pg"
  | (posted) db1 where
      "intake_events db1 = intake_events db" "service_cycles db1 = service_cycles db"
      "submitTransaction sb tid js nid fault uf i (db, pg)
         = (result_dropped uf (update_intake_event_status i ''posted'') db1,
            handleTransactionCreated i (pg\<lparr>txError := None, txSaving := False, txForm := None\<rparr>))"
proof -
  let ?row = "\<lparr>tx_id = nid, tx_tenant_id = tid, tx_date = txDate pg,
                      tx_description =
                        (if trim (txDesc pg) = [] then ''Intake event'' else trim (txDesc pg)),
                      tx_category_id = trim (txCategory pg),
                      tx_amount = (case js_parseFloat js (txAmount pg) of
                                     None \<Rightarrow> 0 | Some v \<Rightarrow> v),
                      tx_entity_id = None, tx_status = ''Received''\<rparr>"
  consider (a) "trim (txCategory pg) = []" | (b) "trim (txCategory pg) \<noteq> []" "txDate pg = []"
    | (c) "trim (txCategory pg) \<noteq> []" "txDate pg \<noteq> []" "\<not> sb"
    | (d) "trim (txCategory pg) \<noteq> []" "txDate pg \<noteq> []" "sb"
    by blast
  then show thesis
  proof cases
    case a
    then show ?thesis by (intro kept[of "pg\<lparr>txError := Some ''Category ID is required.''\<rparr>"])
        (simp_all add: submitTransaction_def)
  next
    case b
    then show ?thesis by (intro kept[of "pg\<lparr>txError := Some ''Date is required.''\<rparr>"])
        (simp_all add: submitTransaction_def)
  next
    case c
    then show ?thesis by (intro kept[of "pg\<lparr>txSaving := False, txError := None\<rparr>"])
        (simp_all add: submitTransaction_def)
  next
    case d
    show ?thesis
    proof (cases "db_call fault (insert_transaction ?row) db")
      case (Inl txErr)
      then show ?thesis using d
        by (intro kept[of "pg\<lparr>txError := Some txErr, txSaving := False\<rparr>"])
           (simp_all add: submitTransaction_def)
    next
      case (Inr p)
      obtain u db1 where p: "p = (u, db1)" by (cases p)
      have "intake_events db1 = intake_events db" "service_cycles db1 = service_cycles db"
        using Inr p
        by (auto simp: db_call_def insert_transaction_def split: option.splits if_splits)
      then show ?thesis using d Inr p
        by (intro posted[of db1]) (simp_all add: submitTransaction_def)
    qed
  qed
qed

lemma step_post:
  assumes coh: "intake_coherent (db, pg)" and f: "txForm pg = Some i"
  shows "uf = None \<Longrightarrow> intake_coherent (submitTransaction sb tid js nid fault uf i (db, pg))"
    "rows_moved forward_move (intake_events db)
       (intake_events (fst (submitTransaction sb tid js nid fault uf i (db, pg))))"
proof -
  have "(uf = None \<longrightarrow> intake_coherent (submitTransaction sb tid js nid fault uf i (db, pg))) \<and>
    rows_moved forward_move (intake_events db)
       (intake_events (fst (submitTransaction sb tid js nid fault uf i (db, pg))))"
  proof (cases rule: submit_outcomes[of sb tid js nid fault uf i db pg])
    case (kept pg')
    have "intake_coherent (db, pg')"
      using coh coherent_cong[of db db pg' pg] kept(2,3) by simp
    then show ?thesis unfolding kept(1) by (simp add: rows_moved_same)
  next
    case (posted db1)
    have coh1: "intake_coherent (db1, pg)"
      using coh coherent_cong[of db1 db pg pg] posted(1) by simp
    have c: "intake_coherent (update_intake_event_status i ''posted'' db1,
            handleTransactionCreated i (pg\<lparr>txError := None, txSaving := False, txForm := None\<rparr>))"
      by (rule coherent_update[OF coh1, where form'=None and i=i and s="''posted''"])
         (simp_all add: update_intake_event_status_def handleTransactionCreated_def)
    have cat: "ie_status r = ''categorized''" if "r \<in> set (intake_events db)" "ie_id r = i" for r
      using key_status_unique[OF coherentD(1)[OF coh] coherentD(3)[OF coh f] that] by simp
    have moved: "rows_moved forward_move (intake_events db)
          (map (\<lambda>r. if ie_id r = i then r\<lparr>ie_status := ''posted''\<rparr> else r) (intake_events db))"
      by (rule rows_moved_update) (simp add: cat forward_move_def)
    show ?thesis
    proof (cases uf)
      case None
      then show ?thesis using c moved unfolding posted(3)
        by (simp add: posted(1) update_intake_event_status_def result_dropped_def)
    next
      case (Some e)
      then show ?thesis unfolding posted(3)
        by (simp add: posted(1) result_dropped_def rows_moved_same)
    qed
  qed
  then show "uf = None \<Longrightarrow> intake_coherent (submitTransaction sb tid js nid fault uf i (db, pg))"
    "rows_moved forward_move (intake_events db)
       (intake_events (fst (submitTransaction sb tid js nid fault uf i (db, pg))))"
    by simp_all
qed

lemma step_open:
  assumes coh: "intake_coherent (db, pg)" and e: "e \<in> set (intake pg)" "ev_status e = ''categorized''"
  shows "intake_coherent (db, openTxForm js e pg)"
proof (rule coherentI)
  show "distinct (map ie_id (intake_events db))" by (rule coherentD(1)[OF coh])
  show "list_ex (\<lambda>r. ie_id r = ev_id x \<and> ie_status r = ev_status x) (intake_events db)"
    if "x \<in> set (intake (openTxForm js e pg))" for x
    using that coherentD(2)[OF coh, of x] by (simp add: openTxForm_def)
  show "list_ex (\<lambda>r. ie_id r = i \<and> ie_status r = ''categorized'') (intake_events db)"
    if "txForm (openTxForm js e pg) = Some i" for i
    using that coherentD(2)[OF coh e(1)] e(2) by (simp add: openTxForm_def)
qed

lemma step_reload:
  assumes coh: "intake_coherent (db, pg)"
  shows "intake_coherent (db, load tid db pg)"
proof (rule coherentI)
  show "distinct (map ie_id (intake_events db))" by (rule coherentD(1)[OF coh])
  show "list_ex (\<lambda>r. ie_id r = ev_id x \<and> ie_status r = ev_status x) (intake_events db)"
    if "x \<in> set (intake (load tid db pg))" for x
  proof -
    from that obtain r where "r \<in> set (intake_events db)" "x = event_of_row r"
      by (auto simp: load_def loadedIntake_def)
    then show ?thesis by (auto simp: list_ex_iff event_of_row_def)
  qed
  show "list_ex (\<lambda>r. ie_id r = i \<and> ie_status r = ''categorized'') (intake_events db)"
    if "txForm (load tid db pg) = Some i" for i
    using that coherentD(3)[OF coh, of i] by (simp add: load_def)
qed

lemma mount_coherent:
  assumes "distinct (map ie_id (intake_events db))"
  shows "intake_coherent (db, mount tid db)"
proof -
  have "intake_coherent (db, initial_page)"
    using assms by (simp add: intake_coherent_def initial_page_def)
  then show ?thesis unfolding mount_def by (rule step_reload)
qed

lemma intake_POST_outcomes:
  obtains (refused) "snd (intake_POST env req db) = db" "resp_status (fst (intake_POST env req db)) \<noteq> 200"
  | (stored) row where
      "intake_events (snd (intake_POST env req db)) = intake_events db @ [row]"
      "ie_status row = ''new''" "ie_id row \<notin> set (map ie_id (intake_events db))"
      "resp_status (fst (intake_POST env req db)) = 200"
      "service_cycles (snd (intake_POST env req db)) = service_cycles db"
proof (cases "requireIntakeToken env req")
  case (Inl m)
  then show ?thesis by (intro refused) (simp_all add: intake_POST_def respond_def)
next
  case (Inr ok)
  show ?thesis
  proof (cases ok)
    case False
    then show ?thesis using Inr by (intro refused) (simp_all add: intake_POST_def respond_def)
  next
    case True
    show ?thesis
    proof (cases "in_json req")
      case (JsonThrows m)
      then show ?thesis using Inr True
        by (intro refused) (simp_all add: intake_POST_def respond_def)
    next
      case (JsonValue parsed)
      show ?thesis
      proof (cases parsed)
        case None
        then show ?thesis using Inr True JsonValue
          by (intro refused) (simp_all add: intake_POST_def respond_def)
      next
        case (Some d)
        show ?thesis
        proof (cases "in_admin_client_throws env")
          case (Some m)
          then show ?thesis using Inr True JsonValue \<open>parsed = Some d\<close>
            by (intro refused) (simp_all add: intake_POST_def respond_def)
        next
          case None
          let ?row = "\<lparr>ie_id = in_uuid env 0, ie_tenant_id = ip_tenant_id d,
                                     ie_source = ip_source d, ie_date = ip_date d,
                                     ie_amount = ip_amount d,
                                     ie_description = ip_description d,
                                     ie_attachment_url = ip_attachment_url d,
                                     ie_raw_payload = ip_raw_payload d,
                                     ie_status = ''new''\<rparr>"
          show ?thesis
          proof (cases "db_call (in_insert_fault env) (insert_intake_event ?row) db")
            case (Inl e)
            then show ?thesis using Inr True JsonValue \<open>parsed = Some d\<close> None
              by (intro refused) (simp_all add: intake_POST_def respond_def)
          next
            case (Inr p)
            obtain u db1 where p: "p = (u, db1)" by (cases p)
            have ins: "insert_intake_event ?row db = Inr (u, db1)"
              using Inr p by (simp add: db_call_def split: option.splits)
            then have fresh: "ie_id ?row \<notin> set (map ie_id (intake_events db))"
              and db1: "intake_events db1 = intake_events db @ [?row]"
              and sc1: "service_cycles db1 = service_cycles db"
              by (auto simp: insert_intake_event_def split: if_splits)
            have res: "intake_POST env req db = (respond 200 OkBody, db1)"
              using \<open>requireIntakeToken env req = Inr ok\<close> True JsonValue \<open>parsed = Some d\<close> None Inr p
              by (simp add: intake_POST_def)
            show ?thesis
              by (rule stored[of ?row]) (simp_all add: res db1 sc1 respond_def, use fresh in simp)
          qed
        qed
      qed
    qed
  qed
qed

lemma list_ex_append_keep: "list_ex P xs \<Longrightarrow> list_ex P (xs @ ys)"
  by simp

lemma step_form_submission:
  assumes coh: "intake_coherent (db, pg)"
  shows "intake_coherent (snd (intake_POST env req db), pg)"
    "rows_moved forward_move (intake_events db) (intake_events (snd (intake_POST env req db)))"
proof -
  have "intake_coherent (snd (intake_POST env req db), pg) \<and>
    rows_moved forward_move (intake_events db) (intake_events (snd (intake_POST env req db)))"
  proof (cases rule: intake_POST_outcomes[of env req db])
    case refused
    then show ?thesis using coh by (simp add: rows_moved_same)
  next
    case (stored row)
    have "intake_coherent (snd (intake_POST env req db), pg)"
    proof (rule coherentI)
      show "distinct (map ie_id (intake_events (snd (intake_POST env req db))))"
        using coherentD(1)[OF coh] stored(3) by (simp add: stored(1))
      show "list_ex (\<lambda>r. ie_id r = ev_id e \<and> ie_status r = ev_status e)
              (intake_events (snd (intake_POST env req db)))" if "e \<in> set (intake pg)" for e
        unfolding stored(1) by (rule list_ex_append_keep) (rule coherentD(2)[OF coh that])
      show "list_ex (\<lambda>r. ie_id r = i \<and> ie_status r = ''categorized'')
              (intake_events (snd (intake_POST env req db)))" if "txForm pg = Some i" for i
        unfolding stored(1) by (rule list_ex_append_keep) (rule coherentD(3)[OF coh that])
    qed
    then show ?thesis using rows_moved_arrival[OF stored(2), of forward_move "intake_events db"]
      by (simp add: stored(1))
  qed
  then show "intake_coherent (snd (intake_POST env req db), pg)"
    "rows_moved forward_move (intake_events db) (intake_events (snd (intake_POST env req db)))"
    by simp_all
qed

lemma intake_step_forward:
  assumes coh: "intake_coherent w" and off: "offered (snd w) a"
  shows "(updates_applied a \<longrightarrow> intake_coherent (intake_step sb tid js a w)) \<and>
         rows_moved forward_move (intake_events (fst w))
           (intake_events (fst (intake_step sb tid js a w)))"
proof -
  obtain db pg where w: "w = (db, pg)" by (cases w)
  note coh' = coh[unfolded w]
  show ?thesis
  proof (cases a)
    case (MarkCategorized e uf)
    then have "e \<in> set (intake pg)" "ev_status e = ''new''"
      using off by (simp_all add: offered_def w)
    from step_mark[OF coh' this, where uf=uf and sb=sb] show ?thesis
      by (simp add: MarkCategorized intake_step_def w updates_applied_def)
  next
    case (CreateTransaction e)
    then have "e \<in> set (intake pg)" "ev_status e = ''categorized''"
      using off by (simp_all add: offered_def w)
    from step_open[OF coh' this, of js] show ?thesis
      by (simp add: CreateTransaction intake_step_def w rows_moved_same)
  next
    case (Cancel e)
    have "intake_coherent (db, pg\<lparr>txForm := None\<rparr>)"
      using coherentD(1,2)[OF coh'] by (intro coherentI) simp_all
    then show ?thesis by (simp add: Cancel intake_step_def w rows_moved_same)
  next
    case (PostTransaction e nid fault uf)
    then have "txForm pg = Some (ev_id e)"
      using off by (simp add: offered_def w)
    from step_post[OF coh' this, where uf=uf and sb=sb and tid=tid and js=js and nid=nid and fault=fault]
    show ?thesis
      by (simp add: PostTransaction intake_step_def w updates_applied_def)
  next
    case (SetTxDate v)
    then show ?thesis using coh' coherent_cong[of db db "pg\<lparr>txDate := v\<rparr>" pg]
      by (simp add: intake_step_def w rows_moved_same)
  next
    case (SetTxAmount v)
    then show ?thesis using coh' coherent_cong[of db db "pg\<lparr>txAmount := v\<rparr>" pg]
      by (simp add: intake_step_def w rows_moved_same)
  next
    case (SetTxDesc v)
    then show ?thesis using coh' coherent_cong[of db db "pg\<lparr>txDesc := v\<rparr>" pg]
      by (simp add: intake_step_def w rows_moved_same)
  next
    case (SetTxCategory v)
    then show ?thesis using coh' coherent_cong[of db db "pg\<lparr>txCategory := v\<rparr>" pg]
      by (simp add: intake_step_def w rows_moved_same)
  next
    case Reload
    then show ?thesis using step_reload[OF coh', of tid] coh'
      by (simp add: intake_step_def w rows_moved_same)
  next
    case (FormSubmission env req)
    then show ?thesis using step_form_submission[OF coh', of env req]
      by (simp add: intake_step_def w)
  qed
qed

lemma status_le_facts:
  "status_le s s"
  "forward_move s s' \<Longrightarrow> status_le s s'"
  "status_le s s' \<Longrightarrow> status_le s' s'' \<Longrightarrow> status_le s s''"
  by (auto simp: status_le_def forward_move_def)

lemma never_back_nth:
  "rows_never_back old new \<longleftrightarrow>
     length old \<le> length new \<and>
     (\<forall>i<length old. new ! i = (old ! i)\<lparr>ie_status := ie_status (new ! i)\<rparr> \<and>
                      status_le (ie_status (old ! i)) (ie_status (new ! i))) \<and>
     (\<forall>i. length old \<le> i \<and> i < length new \<longrightarrow> status_le ''new'' (ie_status (new ! i)))"
proof -
  have drop_part: "list_all P (drop n xs) \<longleftrightarrow> (\<forall>i. n \<le> i \<and> i < length xs \<longrightarrow> P (xs ! i))"
    for P :: "intake_events_row \<Rightarrow> bool" and n xs
  proof
    assume a: "list_all P (drop n xs)"
    show "\<forall>i. n \<le> i \<and> i < length xs \<longrightarrow> P (xs ! i)"
    proof (intro allI impI)
      fix i assume i: "n \<le> i \<and> i < length xs"
      then have "i - n < length (drop n xs)" by (simp add: diff_less_mono)
      with a have "P (drop n xs ! (i - n))" by (simp add: list_all_length)
      then show "P (xs ! i)" using i by simp
    qed
  next
    assume a: "\<forall>i. n \<le> i \<and> i < length xs \<longrightarrow> P (xs ! i)"
    show "list_all P (drop n xs)"
      unfolding list_all_length
    proof (intro allI impI)
      fix j assume "j < length (drop n xs)"
      then have "n \<le> n + j \<and> n + j < length xs" by simp
      with a have "P (xs ! (n + j))" by blast
      then show "P (drop n xs ! j)" using \<open>j < length (drop n xs)\<close> by simp
    qed
  qed
  show ?thesis
    unfolding rows_never_back_def drop_part
    by (auto simp: list_all2_conv_all_nth)
qed

lemma moved_nth:
  assumes "rows_moved rel old new"
  shows "length old \<le> length new"
    "i < length old \<Longrightarrow> new ! i = old ! i \<or>
        (new ! i = (old ! i)\<lparr>ie_status := ie_status (new ! i)\<rparr> \<and>
         rel (ie_status (old ! i)) (ie_status (new ! i)))"
    "length old \<le> i \<Longrightarrow> i < length new \<Longrightarrow> ie_status (new ! i) = ''new''"
proof -
  show len: "length old \<le> length new" using assms by (simp add: rows_moved_def)
  show "new ! i = old ! i \<or>
        (new ! i = (old ! i)\<lparr>ie_status := ie_status (new ! i)\<rparr> \<and>
         rel (ie_status (old ! i)) (ie_status (new ! i)))" if "i < length old"
    using assms that len by (auto simp: rows_moved_def list_all2_conv_all_nth)
  show "ie_status (new ! i) = ''new''" if "length old \<le> i" "i < length new"
  proof -
    have "i - length old < length (drop (length old) new)"
      using that by (simp add: diff_less_mono)
    moreover have "list_all (\<lambda>r. ie_status r = ''new'') (drop (length old) new)"
      using assms by (simp add: rows_moved_def)
    ultimately have "ie_status (drop (length old) new ! (i - length old)) = ''new''"
      by (simp add: list_all_length)
    then show ?thesis using that by simp
  qed
qed

lemma never_back_refl: "rows_never_back rows rows"
  by (auto simp: never_back_nth status_le_facts(1))

lemma never_back_after_move:
  assumes m: "rows_moved forward_move a b" and n: "rows_never_back b c"
  shows "rows_never_back a c"
proof -
  note mb = moved_nth[OF m]
  from n have nb: "length b \<le> length c"
    "\<And>i. i < length b \<Longrightarrow> c ! i = (b ! i)\<lparr>ie_status := ie_status (c ! i)\<rparr>"
    "\<And>i. i < length b \<Longrightarrow> status_le (ie_status (b ! i)) (ie_status (c ! i))"
    "\<And>i. length b \<le> i \<Longrightarrow> i < length c \<Longrightarrow> status_le ''new'' (ie_status (c ! i))"
    by (simp_all add: never_back_nth)
  have early: "c ! i = (a ! i)\<lparr>ie_status := ie_status (c ! i)\<rparr> \<and>
               status_le (ie_status (a ! i)) (ie_status (c ! i))" if i: "i < length a" for i
  proof -
    have ib: "i < length b" using i mb(1) by simp
    from mb(2)[OF i] consider "b ! i = a ! i"
      | "b ! i = (a ! i)\<lparr>ie_status := ie_status (b ! i)\<rparr>"
        "forward_move (ie_status (a ! i)) (ie_status (b ! i))"
      by blast
    then show ?thesis
    proof cases
      case 1
      then show ?thesis using nb(2)[OF ib] nb(3)[OF ib] by simp
    next
      case 2
      have "c ! i = ((a ! i)\<lparr>ie_status := ie_status (b ! i)\<rparr>)\<lparr>ie_status := ie_status (c ! i)\<rparr>"
        using nb(2)[OF ib] 2(1) by simp
      then have "c ! i = (a ! i)\<lparr>ie_status := ie_status (c ! i)\<rparr>" by simp
      moreover have "status_le (ie_status (a ! i)) (ie_status (c ! i))"
        using status_le_facts(3)[OF status_le_facts(2)[OF 2(2)] nb(3)[OF ib]] .
      ultimately show ?thesis by simp
    qed
  qed
  have late: "status_le ''new'' (ie_status (c ! i))" if i: "length a \<le> i" "i < length c" for i
  proof (cases "i < length b")
    case True
    then have "ie_status (b ! i) = ''new''" using mb(3)[OF i(1)] by simp
    then show ?thesis using nb(3)[OF True] by simp
  next
    case False
    then show ?thesis using nb(4)[of i] i(2) by simp
  qed
  show ?thesis
    unfolding never_back_nth using mb(1) nb(1) early late by auto
qed

lemma intake_run_never_back:
  assumes "intake_coherent w" "list_all updates_applied acts"
    "intake_run sb tid js acts w = Some w'"
  shows "intake_coherent w' \<and> rows_never_back (intake_events (fst w)) (intake_events (fst w'))"
  using assms
proof (induction acts arbitrary: w)
  case Nil
  then show ?case by (simp add: never_back_refl)
next
  case (Cons a acts)
  from Cons.prems(3) have off: "offered (snd w) a"
    and rest: "intake_run sb tid js acts (intake_step sb tid js a w) = Some w'"
    by (simp_all split: if_splits)
  from Cons.prems(2) have ap: "updates_applied a" "list_all updates_applied acts"
    by simp_all
  note st = intake_step_forward[OF Cons.prems(1) off, of sb tid js]
  from st ap(1) have coh: "intake_coherent (intake_step sb tid js a w)" by simp
  from Cons.IH[OF coh ap(2) rest] have "intake_coherent w'"
    and nb: "rows_never_back (intake_events (fst (intake_step sb tid js a w))) (intake_events (fst w'))"
    by simp_all
  then show ?case using never_back_after_move[OF _ nb] st by simp
qed

lemma demo_intake_page_is_mounted: "mount ''tn1'' (demo_intake_db st) = demo_intake_page st"
  by (simp add: mount_def load_def enrichedCycles_def loadedIntake_def demo_intake_db_def
      demo_intake_page_def demo_db_def demo_page_def demo_cycle_def demo_task_def
      demo_cycle_row_def demo_task_row_def task_of_row_def initial_page_def event_of_row_def
      demo_intake_row_def demo_event_def)

lemma demo_form_stored:
  "intake_POST demo_form_env (demo_intake_request (Some ''shared'')) (demo_db ''collecting'' ''todo'')
     = (respond 200 OkBody, demo_intake_db ''new'')"
  by (simp add: intake_POST_def requireIntakeToken_def demo_form_env_def demo_intake_request_def
      db_call_def insert_intake_event_def demo_intake_db_def demo_intake_row_def demo_db_def
      demo_tenant_def)

lemma demo_reload:
  "load ''tn1'' (demo_intake_db ''new'') (demo_page ''collecting'' ''todo'') = demo_intake_page ''new''"
  by (simp add: load_def enrichedCycles_def loadedIntake_def demo_intake_db_def
      demo_intake_page_def demo_db_def demo_page_def demo_cycle_def demo_task_def
      demo_cycle_row_def demo_task_row_def task_of_row_def initial_page_def event_of_row_def
      demo_intake_row_def demo_event_def)

lemma demo_click_1:
  "intake_step True ''tn1'' demo_js (MarkCategorized (demo_event ''new'') None)
     (demo_intake_db ''new'', demo_intake_page ''new'')
   = (demo_intake_db ''categorized'', demo_intake_page ''categorized'')"
  by (simp add: intake_step_def handleIntakeStatusChange_def update_intake_event_status_def
      result_dropped_def demo_intake_db_def demo_intake_page_def demo_event_def demo_intake_row_def)

lemma demo_click_2:
  "intake_step True ''tn1'' demo_js (CreateTransaction (demo_event ''categorized''))
     (demo_intake_db ''categorized'', demo_intake_page ''categorized'')
   = (demo_intake_db ''categorized'',
      (demo_intake_page ''categorized'')
        \<lparr>txForm := Some ''i1'', txDate := ''2026-02-03'', txAmount := ''120'',
         txDesc := ''Classic lash set''\<rparr>)"
  by (simp add: intake_step_def openTxForm_def demo_intake_page_def demo_event_def demo_js_def
      demo_page_def initial_page_def)

lemma demo_click_3:
  "intake_step True ''tn1'' demo_js (SetTxCategory ''1100'') (db, pg) = (db, pg\<lparr>txCategory := ''1100''\<rparr>)"
  by (simp add: intake_step_def)

lemma trim_1100: "trim ''1100'' = ''1100''" "trim ''Classic lash set'' = ''Classic lash set''"
  by (simp_all add: trim_def is_space_def)

lemma demo_click_4:
  "intake_step True ''tn1'' demo_js (PostTransaction (demo_event ''categorized'') ''x9'' None None)
     (demo_intake_db ''categorized'',
      (demo_intake_page ''categorized'')
        \<lparr>txForm := Some ''i1'', txDate := ''2026-02-03'', txAmount := ''120'',
         txDesc := ''Classic lash set'', txCategory := ''1100''\<rparr>)
   = ((demo_intake_db ''posted'')
        \<lparr>transactions :=
           [\<lparr>tx_id = ''x9'', tx_tenant_id = ''tn1'', tx_date = ''2026-02-03'',
             tx_description = ''Classic lash set'', tx_category_id = ''1100'', tx_amount = 120,
             tx_entity_id = None, tx_status = ''Received''\<rparr>]\<rparr>,
      (demo_intake_page ''posted'')
        \<lparr>txDate := ''2026-02-03'', txAmount := ''120'',
         txDesc := ''Classic lash set'', txCategory := ''1100''\<rparr>)"
  by (simp add: intake_step_def submitTransaction_def trim_1100 db_call_def result_dropped_def
      insert_transaction_def update_intake_event_status_def handleTransactionCreated_def
      demo_intake_db_def demo_intake_page_def demo_event_def demo_intake_row_def demo_js_def
      demo_db_def demo_tenant_def demo_page_def initial_page_def)

lemma demo_run:
  "intake_run True ''tn1'' demo_js demo_clicks (demo_intake_db ''new'', demo_intake_page ''new'')
   = Some ((demo_intake_db ''posted'')
        \<lparr>transactions :=
           [\<lparr>tx_id = ''x9'', tx_tenant_id = ''tn1'', tx_date = ''2026-02-03'',
             tx_description = ''Classic lash set'', tx_category_id = ''1100'', tx_amount = 120,
             tx_entity_id = None, tx_status = ''Received''\<rparr>]\<rparr>,
      (demo_intake_page ''posted'')
        \<lparr>txDate := ''2026-02-03'', txAmount := ''120'',
         txDesc := ''Classic lash set'', txCategory := ''1100''\<rparr>)"
proof -
  have o1: "offered (demo_intake_page ''new'') (MarkCategorized (demo_event ''new'') None)"
    by (simp add: offered_def demo_intake_page_def demo_event_def)
  have o2: "offered (demo_intake_page ''categorized'') (CreateTransaction (demo_event ''categorized''))"
    by (simp add: offered_def demo_intake_page_def demo_event_def demo_page_def initial_page_def)
  have o4: "offered ((demo_intake_page ''categorized'')
        \<lparr>txForm := Some ''i1'', txDate := ''2026-02-03'', txAmount := ''120'',
         txDesc := ''Classic lash set'', txCategory := ''1100''\<rparr>)
        (PostTransaction (demo_event ''categorized'') ''x9'' None None)"
    by (simp add: offered_def demo_intake_page_def demo_event_def demo_page_def initial_page_def)
  have o3: "offered pg (SetTxCategory ''1100'')" for pg
    by (simp add: offered_def)
  show ?thesis
    unfolding demo_clicks_def
    by (simp only: intake_run.simps snd_conv o1 o2 o3 o4 if_True demo_click_1 demo_click_2
        demo_click_3 demo_click_4)
qed

lemma demo_lifecycle_run:
  "intake_run True ''tn1'' demo_js demo_lifecycle
     (demo_db ''collecting'' ''todo'', demo_page ''collecting'' ''todo'')
   = Some ((demo_intake_db ''posted'')
        \<lparr>transactions :=
           [\<lparr>tx_id = ''x9'', tx_tenant_id = ''tn1'', tx_date = ''2026-02-03'',
             tx_description = ''Classic lash set'', tx_category_id = ''1100'', tx_amount = 120,
             tx_entity_id = None, tx_status = ''Received''\<rparr>]\<rparr>,
      (demo_intake_page ''posted'')
        \<lparr>txDate := ''2026-02-03'', txAmount := ''120'',
         txDesc := ''Classic lash set'', txCategory := ''1100''\<rparr>)"
proof -
  have o: "offered pg (FormSubmission env req)" "offered pg Reload" for pg env req
    by (simp_all add: offered_def)
  have arrive: "intake_step True ''tn1'' demo_js
      (FormSubmission demo_form_env (demo_intake_request (Some ''shared'')))
      (demo_db ''collecting'' ''todo'', demo_page ''collecting'' ''todo'')
    = (demo_intake_db ''new'', demo_page ''collecting'' ''todo'')"
    by (simp add: intake_step_def demo_form_stored)
  have reload: "intake_step True ''tn1'' demo_js Reload
      (demo_intake_db ''new'', demo_page ''collecting'' ''todo'')
    = (demo_intake_db ''new'', demo_intake_page ''new'')"
    by (simp add: intake_step_def demo_reload)
  show ?thesis
    unfolding demo_lifecycle_def
    by (simp only: intake_run.simps snd_conv o if_True arrive reload demo_run)
qed

lemma demo_updates_applied: "list_all updates_applied demo_lifecycle"
  by (simp add: demo_lifecycle_def demo_clicks_def updates_applied_def)

text \<open>
  C4. An intake event the ingestion route accepts (answer 200) is stored as one new row
  with status new. A page just loaded agrees with the table. From a state in which the
  page agrees with the table, every action the intake section offers, every form edit,
  every reload and every form submission leaves each row of \<^verbatim>\<open>intake_events\<close> in
  place, unchanged or with its status moved from new to categorized or from categorized
  to posted, while any added row has status new; and the page agrees with the table
  again afterwards, unless the action's status write failed. So over any sequence of
  such actions whose status writes take effect no row moves back or to a status outside
  the three. The writes themselves name only the event's id: they are not conditioned
  on the status the table holds.
\<close>

theorem intake_status_flow_forward:
  "(resp_status (fst (intake_POST env req db)) = 200 \<longrightarrow>
      (\<exists>row. intake_events (snd (intake_POST env req db)) = intake_events db @ [row] \<and>
             ie_status row = ''new'')) \<and>
   (distinct (map ie_id (intake_events db)) \<longrightarrow> intake_coherent (db, mount tid db)) \<and>
   (intake_coherent w \<and> offered (snd w) a \<longrightarrow>
      rows_moved forward_move (intake_events (fst w))
        (intake_events (fst (intake_step sb tid js a w))) \<and>
      (updates_applied a \<longrightarrow> intake_coherent (intake_step sb tid js a w))) \<and>
   (intake_coherent w \<and> list_all updates_applied acts \<and>
    intake_run sb tid js acts w = Some w' \<longrightarrow>
      intake_coherent w' \<and>
      rows_never_back (intake_events (fst w)) (intake_events (fst w')))"
proof -
  have stored: "\<exists>row. intake_events (snd (intake_POST env req db)) = intake_events db @ [row] \<and>
             ie_status row = ''new''"
    if "resp_status (fst (intake_POST env req db)) = 200"
    using that by (cases rule: intake_POST_outcomes[of env req db]) auto
  show ?thesis
    using stored mount_coherent[of db tid] intake_step_forward[of w a sb tid js]
      intake_run_never_back[of w acts sb tid js w']
    by blast
qed

theorem intake_status_flow_forward_witness:
  "intake_POST demo_form_env (demo_intake_request (Some ''shared'')) (demo_db ''collecting'' ''todo'')
     = (respond 200 OkBody,
        (demo_db ''collecting'' ''todo'')\<lparr>intake_events := [demo_intake_row ''new'']\<rparr>) \<and>
   ie_status (demo_intake_row ''new'') = ''new'' \<and>
   intake_coherent (demo_intake_db ''new'', demo_intake_page ''new'') \<and>
   intake_coherent (demo_db ''collecting'' ''todo'', demo_page ''collecting'' ''todo'') \<and>
   list_all updates_applied demo_lifecycle \<and>
   intake_run True ''tn1'' demo_js demo_lifecycle
       (demo_db ''collecting'' ''todo'', demo_page ''collecting'' ''todo'')
     = Some ((demo_intake_db ''posted'')
        \<lparr>transactions :=
           [\<lparr>tx_id = ''x9'', tx_tenant_id = ''tn1'', tx_date = ''2026-02-03'',
             tx_description = ''Classic lash set'', tx_category_id = ''1100'', tx_amount = 120,
             tx_entity_id = None, tx_status = ''Received''\<rparr>]\<rparr>,
      (demo_intake_page ''posted'')
        \<lparr>txDate := ''2026-02-03'', txAmount := ''120'',
         txDesc := ''Classic lash set'', txCategory := ''1100''\<rparr>) \<and>
   rows_never_back [] [demo_intake_row ''posted''] \<and>
   rows_moved forward_move [demo_intake_row ''new''] [demo_intake_row ''categorized'']"
proof -
  let ?w = "(demo_db ''collecting'' ''todo'', demo_page ''collecting'' ''todo'')"
  let ?w' = "((demo_intake_db ''posted'')
        \<lparr>transactions :=
           [\<lparr>tx_id = ''x9'', tx_tenant_id = ''tn1'', tx_date = ''2026-02-03'',
             tx_description = ''Classic lash set'', tx_category_id = ''1100'', tx_amount = 120,
             tx_entity_id = None, tx_status = ''Received''\<rparr>]\<rparr>,
      (demo_intake_page ''posted'')
        \<lparr>txDate := ''2026-02-03'', txAmount := ''120'',
         txDesc := ''Classic lash set'', txCategory := ''1100''\<rparr>)"
  let ?v = "(demo_intake_db ''new'', demo_intake_page ''new'')"
  have coh: "intake_coherent ?w"
    by (simp add: intake_coherent_def demo_db_def demo_page_def initial_page_def)
  have "distinct (map ie_id (intake_events (demo_intake_db ''new'')))"
    by (simp add: demo_intake_db_def)
  then have "intake_coherent (demo_intake_db ''new'', mount ''tn1'' (demo_intake_db ''new''))"
    using intake_status_flow_forward[where db="demo_intake_db ''new''" and tid="''tn1''"]
    by blast
  then have coh1: "intake_coherent ?v"
    by (simp only: demo_intake_page_is_mounted)
  have o1: "offered (snd ?v) (MarkCategorized (demo_event ''new'') None)"
    by (simp add: offered_def demo_intake_page_def demo_event_def)
  have stored: "intake_POST demo_form_env (demo_intake_request (Some ''shared''))
                  (demo_db ''collecting'' ''todo'')
     = (respond 200 OkBody,
        (demo_db ''collecting'' ''todo'')\<lparr>intake_events := [demo_intake_row ''new'']\<rparr>)"
    by (simp add: demo_form_stored demo_intake_db_def)
  have "resp_status (fst (intake_POST demo_form_env (demo_intake_request (Some ''shared''))
                  (demo_db ''collecting'' ''todo''))) = 200"
    by (simp add: stored respond_def)
  then obtain row where
    "intake_events (snd (intake_POST demo_form_env (demo_intake_request (Some ''shared''))
                  (demo_db ''collecting'' ''todo'')))
       = intake_events (demo_db ''collecting'' ''todo'') @ [row]" "ie_status row = ''new''"
    using intake_status_flow_forward[where env=demo_form_env
        and req="demo_intake_request (Some ''shared'')" and db="demo_db ''collecting'' ''todo''"]
    by blast
  then have arrived: "ie_status (demo_intake_row ''new'') = ''new''"
    unfolding stored by (simp add: demo_db_def)
  have "rows_never_back (intake_events (fst ?w)) (intake_events (fst ?w'))"
    using intake_status_flow_forward[where w="?w" and sb=True and tid="''tn1''" and js=demo_js
        and acts=demo_lifecycle and w'="?w'"]
      coh demo_updates_applied demo_lifecycle_run
    by blast
  then have run: "rows_never_back [] [demo_intake_row ''posted'']"
    by (simp add: demo_intake_db_def demo_db_def)
  have "rows_moved forward_move (intake_events (fst ?v))
          (intake_events (fst (intake_step True ''tn1'' demo_js
             (MarkCategorized (demo_event ''new'') None) ?v)))"
    using intake_status_flow_forward[where w="?v" and sb=True and tid="''tn1''" and js=demo_js
        and a="MarkCategorized (demo_event ''new'') None"]
      coh1 o1
    by blast
  then have step: "rows_moved forward_move [demo_intake_row ''new''] [demo_intake_row ''categorized'']"
    unfolding demo_click_1 by (simp add: demo_intake_db_def)
  show ?thesis
    using stored arrived coh1 coh demo_updates_applied demo_lifecycle_run run step by blast
qed

text \<open>
  Two pages are open on the tenant, both loaded while the event is new. On the first
  the event is categorized and posted. The second still lists it as new and offers
  the button that marks it categorized; the click writes categorized over posted.
\<close>

theorem intake_stale_page_counterexample:
  "mount ''tn1'' (demo_intake_db ''new'') = demo_intake_page ''new'' \<and>
   intake_run True ''tn1'' demo_js demo_clicks (demo_intake_db ''new'', demo_intake_page ''new'')
     = Some ((demo_intake_db ''posted'')
        \<lparr>transactions :=
           [\<lparr>tx_id = ''x9'', tx_tenant_id = ''tn1'', tx_date = ''2026-02-03'',
             tx_description = ''Classic lash set'', tx_category_id = ''1100'', tx_amount = 120,
             tx_entity_id = None, tx_status = ''Received''\<rparr>]\<rparr>,
      (demo_intake_page ''posted'')
        \<lparr>txDate := ''2026-02-03'', txAmount := ''120'',
         txDesc := ''Classic lash set'', txCategory := ''1100''\<rparr>) \<and>
   map ie_status (intake_events (demo_intake_db ''posted'')) = [''posted''] \<and>
   offered (demo_intake_page ''new'') (MarkCategorized (demo_event ''new'') None) \<and>
   map ie_status
     (intake_events (fst (intake_step True ''tn1'' demo_js
        (MarkCategorized (demo_event ''new'') None)
        ((demo_intake_db ''posted'')
           \<lparr>transactions :=
              [\<lparr>tx_id = ''x9'', tx_tenant_id = ''tn1'', tx_date = ''2026-02-03'',
                tx_description = ''Classic lash set'', tx_category_id = ''1100'', tx_amount = 120,
                tx_entity_id = None, tx_status = ''Received''\<rparr>]\<rparr>,
         demo_intake_page ''new''))))
     = [''categorized''] \<and>
   \<not> status_le ''posted'' ''categorized''"
proof -
  have o1: "offered (demo_intake_page ''new'') (MarkCategorized (demo_event ''new'') None)"
    by (simp add: offered_def demo_intake_page_def demo_event_def)
  have undone: "map ie_status
     (intake_events (fst (intake_step True ''tn1'' demo_js
        (MarkCategorized (demo_event ''new'') None)
        ((demo_intake_db ''posted'')\<lparr>transactions := ts\<rparr>, demo_intake_page ''new''))))
     = [''categorized'']" for ts
    by (simp add: intake_step_def handleIntakeStatusChange_def update_intake_event_status_def
        result_dropped_def demo_intake_db_def demo_intake_page_def demo_event_def
        demo_intake_row_def)
  have stored: "map ie_status (intake_events (demo_intake_db ''posted'')) = [''posted'']"
    by (simp add: demo_intake_db_def demo_intake_row_def)
  have le: "\<not> status_le ''posted'' ''categorized''"
    by (simp add: status_le_def)
  show ?thesis
    using demo_intake_page_is_mounted[of "''new''"] demo_run o1 undone stored le by blast
qed

subsection \<open>One cycle per tenant and month\<close>

lemma keys_after_status_update:
  "map (\<lambda>r. (sc_tenant_id r, sc_month r))
     (map (\<lambda>r. if P r then r\<lparr>sc_status := s\<rparr> else r) rows)
   = map (\<lambda>r. (sc_tenant_id r, sc_month r)) rows"
  by (induction rows) auto

lemma ids_after_status_update:
  "map sc_id (map (\<lambda>r. if P r then r\<lparr>sc_status := s\<rparr> else r) rows) = map sc_id rows"
  by (induction rows) auto

lemma unique_cong:
  "service_cycles db' = service_cycles db \<Longrightarrow> cycle_keys_unique db' = cycle_keys_unique db"
  by (simp add: cycle_keys_unique_def)

lemma unique_status_update:
  "cycle_keys_unique (update_service_cycle_status cid s db) = cycle_keys_unique db"
proof -
  have "service_cycles (update_service_cycle_status cid s db)
          = map (\<lambda>r. if sc_id r = cid then r\<lparr>sc_status := s\<rparr> else r) (service_cycles db)"
    by (simp add: update_service_cycle_status_def)
  then show ?thesis
    unfolding cycle_keys_unique_def by (simp only: keys_after_status_update)
qed

lemma upsert_cycles:
  assumes "upsert_service_cycle nid tid m s db = Inr (c, db1)"
  shows "(list_ex (\<lambda>r. sc_tenant_id r = tid \<and> sc_month r = m) (service_cycles db) \<longrightarrow>
            service_cycles db1
              = map (\<lambda>x. if (sc_tenant_id x, sc_month x) = (tid, m) then x\<lparr>sc_status := s\<rparr> else x)
                  (service_cycles db)) \<and>
         (\<not> list_ex (\<lambda>r. sc_tenant_id r = tid \<and> sc_month r = m) (service_cycles db) \<longrightarrow>
            service_cycles db1 = service_cycles db @ [c] \<and> sc_tenant_id c = tid \<and> sc_month c = m)"
proof (cases "find (\<lambda>r. sc_tenant_id r = tid \<and> sc_month r = m) (service_cycles db)")
  case None
  then have "\<not> list_ex (\<lambda>r. sc_tenant_id r = tid \<and> sc_month r = m) (service_cycles db)"
    by (simp add: find_None_iff list_ex_iff)
  then show ?thesis using assms None
    by (auto simp: upsert_service_cycle_def Let_def split: if_splits)
next
  case (Some r)
  then have "list_ex (\<lambda>r. sc_tenant_id r = tid \<and> sc_month r = m) (service_cycles db)"
    by (auto simp: find_Some_iff list_ex_iff)
  then show ?thesis using assms Some by (auto simp: upsert_service_cycle_def)
qed

lemma upsert_existing_succeeds:
  assumes "list_ex (\<lambda>r. sc_tenant_id r = tid \<and> sc_month r = m) (service_cycles db)"
  shows "\<exists>c db1. upsert_service_cycle nid tid m s db = Inr (c, db1)"
proof -
  from assms obtain r where "find (\<lambda>r. sc_tenant_id r = tid \<and> sc_month r = m) (service_cycles db) = Some r"
    by (cases "find (\<lambda>r. sc_tenant_id r = tid \<and> sc_month r = m) (service_cycles db)")
       (auto simp: find_None_iff list_ex_iff)
  then show ?thesis by (simp add: upsert_service_cycle_def)
qed

lemma unique_upsert:
  assumes "cycle_keys_unique db" "upsert_service_cycle nid tid m s db = Inr (c, db1)"
  shows "cycle_keys_unique db1"
proof (cases "list_ex (\<lambda>r. sc_tenant_id r = tid \<and> sc_month r = m) (service_cycles db)")
  case True
  then have "service_cycles db1
              = map (\<lambda>x. if (sc_tenant_id x, sc_month x) = (tid, m) then x\<lparr>sc_status := s\<rparr> else x)
                  (service_cycles db)"
    using upsert_cycles[OF assms(2)] by blast
  then show ?thesis using assms(1)
    unfolding cycle_keys_unique_def by (simp only: keys_after_status_update)
next
  case False
  then have eq: "service_cycles db1 = service_cycles db @ [c]" and k: "sc_tenant_id c = tid" "sc_month c = m"
    using upsert_cycles[OF assms(2)] by blast+
  have "(tid, m) \<notin> set (map (\<lambda>r. (sc_tenant_id r, sc_month r)) (service_cycles db))"
    using False by (auto simp: list_ex_iff)
  then show ?thesis using assms(1) by (simp add: cycle_keys_unique_def eq k)
qed

lemma restart_keeps_rows:
  assumes "list_ex (\<lambda>r. sc_tenant_id r = tid \<and> sc_month r = m) (service_cycles db)"
    and "upsert_service_cycle nid tid m s db = Inr (c, db1)"
  shows "length (service_cycles db1) = length (service_cycles db)"
    "map sc_id (service_cycles db1) = map sc_id (service_cycles db)"
    "list_all (\<lambda>r. sc_tenant_id r = tid \<and> sc_month r = m \<longrightarrow> sc_status r = s) (service_cycles db1)"
proof -
  have eq: "service_cycles db1
              = map (\<lambda>x. if (sc_tenant_id x, sc_month x) = (tid, m) then x\<lparr>sc_status := s\<rparr> else x)
                  (service_cycles db)"
    using upsert_cycles[OF assms(2)] assms(1) by blast
  show "length (service_cycles db1) = length (service_cycles db)" by (simp add: eq)
  show "map sc_id (service_cycles db1) = map sc_id (service_cycles db)"
    unfolding eq by (rule ids_after_status_update)
  show "list_all (\<lambda>r. sc_tenant_id r = tid \<and> sc_month r = m \<longrightarrow> sc_status r = s) (service_cycles db1)"
    unfolding eq list_all_iff
  proof
    fix r assume "r \<in> set (map (\<lambda>x. if (sc_tenant_id x, sc_month x) = (tid, m)
                                      then x\<lparr>sc_status := s\<rparr> else x) (service_cycles db))"
    then have "r \<in> (\<lambda>x. if (sc_tenant_id x, sc_month x) = (tid, m) then x\<lparr>sc_status := s\<rparr> else x)
                   ` set (service_cycles db)"
      by (simp only: set_map)
    then obtain x where "r = (if (sc_tenant_id x, sc_month x) = (tid, m) then x\<lparr>sc_status := s\<rparr> else x)"
      by (rule imageE)
    then show "sc_tenant_id r = tid \<and> sc_month r = m \<longrightarrow> sc_status r = s"
      by (cases "sc_tenant_id x = tid \<and> sc_month x = m") auto
  qed
qed

lemma insert_tasks_cycles:
  "db_call f (insert_cycle_tasks rows) db1 = Inr (u, db2) \<Longrightarrow> service_cycles db2 = service_cycles db1"
  by (auto simp: db_call_def insert_cycle_tasks_def split: option.splits if_splits)

lemma unique_delete_tenant:
  "cycle_keys_unique db \<Longrightarrow> cycle_keys_unique (delete_tenant t db)"
  by (simp add: cycle_keys_unique_def delete_tenant_def Let_def distinct_map_filter)

lemma cycle_start_cycles:
  obtains (same) "service_cycles (snd (cycle_start_POST env req db)) = service_cycles db"
  | (upserted) month c db1 where
      "cs_json req = JsonValue (Some month)"
      "upsert_service_cycle (cs_uuid env 0) (cs_tenantId req) month ''collecting'' db = Inr (c, db1)"
      "service_cycles (snd (cycle_start_POST env req db)) = service_cycles db1"
proof (cases "requireAdminToken env req")
  case (Inl m)
  then show ?thesis by (intro same) (simp add: cycle_start_POST_def)
next
  case (Inr ok)
  show ?thesis
  proof (cases ok)
    case False
    then show ?thesis using Inr by (intro same) (simp add: cycle_start_POST_def)
  next
    case True
    show ?thesis
    proof (cases "cs_json req")
      case (JsonThrows m)
      then show ?thesis using Inr True by (intro same) (simp add: cycle_start_POST_def)
    next
      case (JsonValue body)
      show ?thesis
      proof (cases "payloadSchema body")
        case None
        then show ?thesis using Inr True JsonValue by (intro same) (simp add: cycle_start_POST_def)
      next
        case (Some month)
        then have body: "body = Some month"
          by (auto simp: payloadSchema_def split: option.splits if_splits)
        show ?thesis
        proof (cases "cs_admin_client_throws env")
          case (Some m)
          then show ?thesis using Inr True JsonValue \<open>payloadSchema body = Some month\<close>
            by (intro same) (simp add: cycle_start_POST_def)
        next
          case None
          show ?thesis
          proof (cases "db_call (cs_upsert_fault env)
                          (upsert_service_cycle (cs_uuid env 0) (cs_tenantId req) month ''collecting'') db")
            case (Inl e)
            then show ?thesis using Inr True JsonValue \<open>payloadSchema body = Some month\<close> None
              by (intro same) (simp add: cycle_start_POST_def)
          next
            case (Inr p)
            obtain c db1 where p: "p = (c, db1)" by (cases p)
            have up: "upsert_service_cycle (cs_uuid env 0) (cs_tenantId req) month ''collecting'' db
                        = Inr (c, db1)"
              using Inr p by (simp add: db_call_def split: option.splits)
            have "service_cycles (snd (cycle_start_POST env req db)) = service_cycles db1"
            proof (cases "db_call (cs_insert_fault env)
                            (insert_cycle_tasks (default_task_rows (cs_uuid env) (sc_id c)
                               (cs_tenantId req))) db1")
              case (Inl e)
              then show ?thesis
                using \<open>requireAdminToken env req = Inr ok\<close> True JsonValue
                  \<open>payloadSchema body = Some month\<close> None Inr p
                by (simp add: cycle_start_POST_def)
            next
              case (Inr q)
              obtain u db2 where q: "q = (u, db2)" by (cases q)
              have "service_cycles db2 = service_cycles db1"
                using Inr q insert_tasks_cycles by blast
              then show ?thesis
                using \<open>requireAdminToken env req = Inr ok\<close> True JsonValue
                  \<open>payloadSchema body = Some month\<close> None
                  \<open>db_call (cs_upsert_fault env)
                          (upsert_service_cycle (cs_uuid env 0) (cs_tenantId req) month ''collecting'') db = Inr p\<close>
                  p Inr q
                by (simp add: cycle_start_POST_def)
            qed
            then show ?thesis using JsonValue body up by (intro upserted[of month c db1]) simp_all
          qed
        qed
      qed
    qed
  qed
qed

lemma startCycle_cycles:
  obtains (same) "service_cycles (fst (startCycle sb thisMonth tid uuid f1 f2 (db, pg))) = service_cycles db"
  | (upserted) c db1 where
      "upsert_service_cycle (uuid 0) tid thisMonth ''collecting'' db = Inr (c, db1)"
      "service_cycles (fst (startCycle sb thisMonth tid uuid f1 f2 (db, pg))) = service_cycles db1"
proof (cases sb)
  case False
  then show ?thesis by (intro same) (simp add: startCycle_def)
next
  case True
  show ?thesis
  proof (cases "db_call f1 (upsert_service_cycle (uuid 0) tid thisMonth ''collecting'') db")
    case (Inl e)
    then show ?thesis using True by (intro same) (simp add: startCycle_def)
  next
    case (Inr p)
    obtain c db1 where p: "p = (c, db1)" by (cases p)
    have up: "upsert_service_cycle (uuid 0) tid thisMonth ''collecting'' db = Inr (c, db1)"
      using Inr p by (simp add: db_call_def split: option.splits)
    have "service_cycles (fst (startCycle sb thisMonth tid uuid f1 f2 (db, pg))) = service_cycles db1"
    proof (cases "db_call f2 (insert_cycle_tasks (default_task_rows uuid (sc_id c) tid)) db1")
      case (Inl e)
      then show ?thesis using True Inr p by (simp add: startCycle_def)
    next
      case (Inr q)
      obtain u db2 where q: "q = (u, db2)" by (cases q)
      have "service_cycles db2 = service_cycles db1" using Inr q insert_tasks_cycles by blast
      then show ?thesis
        using True \<open>db_call f1 (upsert_service_cycle (uuid 0) tid thisMonth ''collecting'') db = Inr p\<close>
          p Inr q
        by (simp add: startCycle_def)
    qed
    then show ?thesis using up by (intro upserted[of c db1])
  qed
qed

lemma unique_cycle_start:
  assumes "cycle_keys_unique db"
  shows "cycle_keys_unique (snd (cycle_start_POST env req db))"
proof (cases rule: cycle_start_cycles[of env req db])
  case same
  then show ?thesis using assms unique_cong by blast
next
  case (upserted month c db1)
  then show ?thesis using unique_upsert[OF assms upserted(2)] unique_cong by blast
qed

lemma unique_startCycle:
  assumes "cycle_keys_unique db"
  shows "cycle_keys_unique (fst (startCycle sb thisMonth tid uuid f1 f2 (db, pg)))"
proof (cases rule: startCycle_cycles[of sb thisMonth tid uuid f1 f2 db pg])
  case same
  then show ?thesis using assms unique_cong by blast
next
  case (upserted c db1)
  then show ?thesis using unique_upsert[OF assms upserted(1)] unique_cong by blast
qed

lemma cycle_handlers_db:
  "fst (advanceCycle sb c (db, pg)) = db \<or>
     (\<exists>s. fst (advanceCycle sb c (db, pg)) = update_service_cycle_status (cycle_id c) s db)"
  "fst (pauseCycle sb c (db, pg)) = db \<or>
     (\<exists>s. fst (pauseCycle sb c (db, pg)) = update_service_cycle_status (cycle_id c) s db)"
  "fst (resumeCycle sb c (db, pg)) = db \<or>
     (\<exists>s. fst (resumeCycle sb c (db, pg)) = update_service_cycle_status (cycle_id c) s db)"
  by (auto simp: advanceCycle_def pauseCycle_def resumeCycle_def Let_def)

lemma unique_cycle_handlers:
  assumes "cycle_keys_unique db"
  shows "cycle_keys_unique (fst (advanceCycle sb c (db, pg)))"
    "cycle_keys_unique (fst (pauseCycle sb c (db, pg)))"
    "cycle_keys_unique (fst (resumeCycle sb c (db, pg)))"
  using assms cycle_handlers_db[of sb c db pg] unique_status_update by metis+

lemma handleTaskToggle_cycles:
  "service_cycles (fst (handleTaskToggle sb cid kid ns (db, pg))) = service_cycles db"
  by (simp add: handleTaskToggle_def update_cycle_task_status_def)

lemma click_task_cycles:
  "click_task sb cid kid (db, pg) = Inr w' \<Longrightarrow> service_cycles (fst w') = service_cycles db"
  by (auto simp: click_task_def toggle_click_def handleTaskToggle_def update_cycle_task_status_def
      split: option.splits prod.splits js_value.splits if_splits)

lemma intake_step_cycles:
  "service_cycles (fst (intake_step sb tid js a (db, pg))) = service_cycles db"
proof (cases a)
  case (MarkCategorized e uf)
  then show ?thesis
    by (simp add: intake_step_def handleIntakeStatusChange_def update_intake_event_status_def
        result_dropped_def split: option.splits)
next
  case (PostTransaction e nid fault uf)
  show ?thesis
  proof (cases rule: submit_outcomes[of sb tid js nid fault uf "ev_id e" db pg])
    case (kept pg')
    then show ?thesis by (simp add: PostTransaction intake_step_def)
  next
    case (posted db1)
    then show ?thesis
      by (simp add: PostTransaction intake_step_def update_intake_event_status_def
          result_dropped_def split: option.splits)
  qed
next
  case (FormSubmission env req)
  show ?thesis
  proof (cases rule: intake_POST_outcomes[of env req db])
    case refused
    then show ?thesis by (simp add: FormSubmission intake_step_def)
  next
    case (stored row)
    then show ?thesis by (simp add: FormSubmission intake_step_def)
  qed
qed (simp_all add: intake_step_def)

lemma unique_tenants_POST:
  assumes "cycle_keys_unique db"
  shows "cycle_keys_unique (snd (tenants_POST env req db))"
proof (cases "tenants_POST_checks env req")
  case (Inl r)
  then show ?thesis using assms by (simp add: tenants_POST_def)
next
  case (Inr p)
  obtain user d where p: "p = (user, d)" by (cases p)
  have eq: "tenants_POST env req db = create_tenant_with_owner env user d db"
    using Inr p by (simp add: tenants_POST_def)
  show ?thesis
  proof (cases rule: create_outcomes[of env user d db])
    case (tenant_failed e)
    then show ?thesis using assms by (simp add: eq)
  next
    case (rolled_back e row)
    have "cycle_keys_unique (db\<lparr>tenants := tenants db @ [row]\<rparr>)"
      using assms by (simp add: cycle_keys_unique_def)
    then show ?thesis using unique_delete_tenant by (simp add: eq rolled_back(5))
  next
    case (rollback_failed e e' row)
    then show ?thesis using assms by (simp add: eq cycle_keys_unique_def)
  next
    case (created row m)
    then show ?thesis using assms by (simp add: eq cycle_keys_unique_def)
  qed
qed

lemma restart_by_route:
  assumes "cs_json req = JsonValue (Some m)"
    and "list_ex (\<lambda>r. sc_tenant_id r = cs_tenantId req \<and> sc_month r = m) (service_cycles db)"
  shows "map sc_id (service_cycles (snd (cycle_start_POST env req db))) = map sc_id (service_cycles db)"
proof (cases rule: cycle_start_cycles[of env req db])
  case same
  then show ?thesis by simp
next
  case (upserted month c db1)
  then have "month = m" using assms(1) by simp
  then show ?thesis using restart_keeps_rows(2)[OF assms(2)] upserted(2,3) by simp
qed

lemma restart_by_page:
  assumes "list_ex (\<lambda>r. sc_tenant_id r = tid \<and> sc_month r = thisMonth) (service_cycles db)"
  shows "map sc_id (service_cycles (fst (startCycle sb thisMonth tid uuid f1 f2 (db, pg))))
           = map sc_id (service_cycles db)"
proof (cases rule: startCycle_cycles[of sb thisMonth tid uuid f1 f2 db pg])
  case same
  then show ?thesis by simp
next
  case (upserted c db1)
  then show ?thesis using restart_keeps_rows(2)[OF assms] by simp
qed

text \<open>
  C10. No two \<^verbatim>\<open>service_cycles\<close> rows share tenant and month, and every operation keeps
  it so: the cycle-start route, \<^verbatim>\<open>startCycle\<close>, advancing, pausing and resuming a
  cycle, the checklist toggle, every action on intake events, and tenant creation with
  its rollback. Starting a cycle for a tenant and month that already have a row inserts
  nothing: the upsert succeeds, the table keeps its rows (same ids, same length) and the
  row of that tenant and month has status collecting.
\<close>

theorem one_cycle_per_tenant_month:
  "(cycle_keys_unique db \<longrightarrow>
      cycle_keys_unique (snd (cycle_start_POST cenv creq db)) \<and>
      cycle_keys_unique (fst (startCycle sb thisMonth tid uuid f1 f2 (db, pg))) \<and>
      cycle_keys_unique (fst (advanceCycle sb c (db, pg))) \<and>
      cycle_keys_unique (fst (pauseCycle sb c (db, pg))) \<and>
      cycle_keys_unique (fst (resumeCycle sb c (db, pg))) \<and>
      cycle_keys_unique (fst (handleTaskToggle sb cid kid ns (db, pg))) \<and>
      (\<forall>w'. click_task sb cid kid (db, pg) = Inr w' \<longrightarrow> cycle_keys_unique (fst w')) \<and>
      cycle_keys_unique (fst (intake_step sb tid js a (db, pg))) \<and>
      cycle_keys_unique (snd (tenants_POST tenv treq db))) \<and>
   (list_ex (\<lambda>r. sc_tenant_id r = tid \<and> sc_month r = m) (service_cycles db) \<longrightarrow>
      (\<exists>row db1.
          upsert_service_cycle nid tid m ''collecting'' db = Inr (row, db1) \<and>
          length (service_cycles db1) = length (service_cycles db) \<and>
          map sc_id (service_cycles db1) = map sc_id (service_cycles db) \<and>
          list_all (\<lambda>r. sc_tenant_id r = tid \<and> sc_month r = m \<longrightarrow> sc_status r = ''collecting'')
            (service_cycles db1))) \<and>
   (cs_json creq = JsonValue (Some m) \<and>
    list_ex (\<lambda>r. sc_tenant_id r = cs_tenantId creq \<and> sc_month r = m) (service_cycles db) \<longrightarrow>
      map sc_id (service_cycles (snd (cycle_start_POST cenv creq db)))
        = map sc_id (service_cycles db)) \<and>
   (list_ex (\<lambda>r. sc_tenant_id r = tid \<and> sc_month r = thisMonth) (service_cycles db) \<longrightarrow>
      map sc_id (service_cycles (fst (startCycle sb thisMonth tid uuid f1 f2 (db, pg))))
        = map sc_id (service_cycles db))"
proof -
  have kept: "cycle_keys_unique (fst (handleTaskToggle sb cid kid ns (db, pg)))"
    "\<forall>w'. click_task sb cid kid (db, pg) = Inr w' \<longrightarrow> cycle_keys_unique (fst w')"
    "cycle_keys_unique (fst (intake_step sb tid js a (db, pg)))" if "cycle_keys_unique db"
    using that handleTaskToggle_cycles[of sb cid kid ns db pg]
      click_task_cycles[of sb cid kid db pg] intake_step_cycles[of sb tid js a db pg]
    by (simp_all add: cycle_keys_unique_def)
  have restart: "\<exists>row db1.
          upsert_service_cycle nid tid m ''collecting'' db = Inr (row, db1) \<and>
          length (service_cycles db1) = length (service_cycles db) \<and>
          map sc_id (service_cycles db1) = map sc_id (service_cycles db) \<and>
          list_all (\<lambda>r. sc_tenant_id r = tid \<and> sc_month r = m \<longrightarrow> sc_status r = ''collecting'')
            (service_cycles db1)"
    if ex: "list_ex (\<lambda>r. sc_tenant_id r = tid \<and> sc_month r = m) (service_cycles db)"
  proof -
    from upsert_existing_succeeds[OF ex, of nid "''collecting''"] obtain row db1
      where up: "upsert_service_cycle nid tid m ''collecting'' db = Inr (row, db1)" by blast
    from restart_keeps_rows[OF ex up] up show ?thesis by blast
  qed
  show ?thesis
    using unique_cycle_start[of db cenv creq] unique_startCycle[of db sb thisMonth tid uuid f1 f2 pg]
      unique_cycle_handlers[of db sb c pg] kept unique_tenants_POST[of db tenv treq] restart
      restart_by_route[of creq m db cenv] restart_by_page[of tid thisMonth db sb uuid f1 f2 pg]
    by blast
qed

theorem one_cycle_per_tenant_month_witness:
  "cycle_keys_unique (demo_db ''delivered'' ''done'') \<and>
   cs_json (demo_start_request (Some ''s3cret'') ''2026-02-01'') = JsonValue (Some ''2026-02-01'') \<and>
   list_ex (\<lambda>r. sc_tenant_id r = cs_tenantId (demo_start_request (Some ''s3cret'') ''2026-02-01'') \<and>
                sc_month r = ''2026-02-01'')
     (service_cycles (demo_db ''delivered'' ''done'')) \<and>
   cycle_keys_unique (snd (cycle_start_POST demo_start_env
                             (demo_start_request (Some ''s3cret'') ''2026-02-01'')
                             (demo_db ''delivered'' ''done''))) \<and>
   map sc_id (service_cycles (snd (cycle_start_POST demo_start_env
                             (demo_start_request (Some ''s3cret'') ''2026-02-01'')
                             (demo_db ''delivered'' ''done'')))) = [''c1''] \<and>
   map sc_status (service_cycles (snd (cycle_start_POST demo_start_env
                             (demo_start_request (Some ''s3cret'') ''2026-02-01'')
                             (demo_db ''delivered'' ''done'')))) = [''collecting'']"
proof -
  let ?req = "demo_start_request (Some ''s3cret'') ''2026-02-01''"
  let ?db = "demo_db ''delivered'' ''done''"
  have u: "cycle_keys_unique ?db"
    by (simp add: cycle_keys_unique_def demo_db_def)
  have j: "cs_json ?req = JsonValue (Some ''2026-02-01'')"
    by (simp add: demo_start_request_def)
  have e: "list_ex (\<lambda>r. sc_tenant_id r = cs_tenantId ?req \<and> sc_month r = ''2026-02-01'')
             (service_cycles ?db)"
    by (simp add: demo_start_request_def demo_db_def demo_cycle_row_def)
  have a: "cycle_keys_unique (snd (cycle_start_POST demo_start_env ?req ?db))"
    using one_cycle_per_tenant_month[where db="?db" and cenv=demo_start_env and creq="?req"] u
    by blast
  have "map sc_id (service_cycles (snd (cycle_start_POST demo_start_env ?req ?db)))
          = map sc_id (service_cycles ?db)"
    using one_cycle_per_tenant_month[where db="?db" and cenv=demo_start_env and creq="?req"
        and m="''2026-02-01''"] j e
    by blast
  then have b: "map sc_id (service_cycles (snd (cycle_start_POST demo_start_env ?req ?db))) = [''c1'']"
    by (simp add: demo_db_def demo_cycle_row_def)
  have c: "map sc_status (service_cycles (snd (cycle_start_POST demo_start_env ?req ?db)))
             = [''collecting'']"
    by (simp add: cycle_start_POST_def requireAdminToken_def demo_start_env_def
        demo_start_request_def payloadSchema_def date_shaped_def is_digit_def db_call_def
        upsert_service_cycle_def insert_cycle_tasks_def demo_db_def demo_cycle_row_def
        demo_tenant_def demo_task_row_def default_task_rows_eval demo_uuid_def Let_def
        eval_nat_numeral split: sum.splits)
  show ?thesis using u j e a b c by blast
qed

end
